(* ===== verification/Cordelia_Prelude.thy ===== *)
theory Cordelia_Prelude
  imports
    Complex_Main
    "HOL-Library.Word"
    "HOL-Library.AList"
    "HOL-Library.List_Lexorder"
    "HOL-Library.Char_ord"
    "HOL-Library.Product_Lexorder"
    "HOL-Library.Multiset"
begin

text \<open>
  The shared base of the development: the types that stand for Rust's primitive types,
  the \<open>HashMap\<close> of the standard library, \<open>Result\<close>, the clock, the
  third-party cryptographic functions as a record of parameters, and the list facts that
  several components need.

  A \<open>String\<close> is a \<^typ>\<open>string\<close>: \<^typ>\<open>char\<close> is one byte, so
  \<open>length\<close> counts UTF-8 bytes as Rust's \<open>len\<close> does, and the lexicographic
  order of \<open>List_Lexorder\<close> over \<open>Char_ord\<close> is the bytewise order that both
  Rust's \<open>Ord for String\<close> and SQLite's BINARY collation use.
\<close>

section \<open>Primitive types\<close>

type_synonym u8 = "8 word"
type_synonym u16 = "16 word"
type_synonym u32 = "32 word"
type_synonym i32 = "32 word"
type_synonym u64 = "64 word"
type_synonym bytes = "u8 list"

text \<open>
  \<open>Instant\<close> and \<open>Duration\<close> are natural numbers of nanoseconds.
  \<open>Instant::duration_since\<close> and \<open>elapsed\<close> saturate at zero, which is what
  subtraction on \<^typ>\<open>nat\<close> does.
\<close>

type_synonym instant = nat
type_synonym duration = nat

definition from_secs :: "u64 \<Rightarrow> duration" where
  "from_secs n = unat n * 1000000000"

text \<open>The UTF-8 bytes of a string (\<open>as_bytes\<close>, \<open>into_bytes\<close>).\<close>

definition as_bytes :: "string \<Rightarrow> bytes" where
  "as_bytes s = map of_char s"

text \<open>\<open>Result\<close> as a sum, with the error on the left.\<close>

abbreviation Ok :: "'a \<Rightarrow> 'e + 'a" where
  "Ok \<equiv> Inr"

abbreviation Err :: "'e \<Rightarrow> 'e + 'a" where
  "Err \<equiv> Inl"

definition is_Ok :: "'e + 'a \<Rightarrow> bool" where
  "is_Ok r = (case r of Ok _ \<Rightarrow> True | Err _ \<Rightarrow> False)"

text \<open>\<open>Result::ok\<close>.\<close>

definition ok_opt :: "'e + 'a \<Rightarrow> 'a option" where
  "ok_opt r = (case r of Ok x \<Rightarrow> Some x | Err _ \<Rightarrow> None)"

text \<open>\<open>Result::unwrap_or_default\<close> and \<open>Option::unwrap_or\<close>.\<close>

definition unwrap_or :: "'a option \<Rightarrow> 'a \<Rightarrow> 'a" where
  "unwrap_or x d = (case x of Some y \<Rightarrow> y | None \<Rightarrow> d)"

definition result_or :: "'e + 'a \<Rightarrow> 'a \<Rightarrow> 'a" where
  "result_or r d = (case r of Ok y \<Rightarrow> y | Err _ \<Rightarrow> d)"

lemmas result_defs = is_Ok_def ok_opt_def unwrap_or_def result_or_def

section \<open>Third-party cryptographic functions\<close>

text \<open>
  \<open>sha2\<close>, \<open>hex\<close> and \<open>ring\<close> are not part of the repository. Their functions
  are the fields of a record that the definitions take as an argument; the properties that
  need a law of theirs state it as a hypothesis.
\<close>

record crypto_lib =
  lib_sha256 :: "bytes \<Rightarrow> bytes"
  lib_hex_encode :: "bytes \<Rightarrow> string"
  lib_hex_decode :: "string \<Rightarrow> bytes option"
  lib_ed25519_verify :: "bytes \<Rightarrow> bytes \<Rightarrow> bytes \<Rightarrow> bool" \<comment> \<open>public key, message, signature\<close>

section \<open>Hash maps\<close>

text \<open>
  A \<open>HashMap\<close> is an association list with distinct keys. The order of the list stands
  for the iteration order, which the standard library leaves unspecified: every property is
  proved for an arbitrary order, and the step relations of the components that iterate over a
  map have a step that permutes it. \<open>insert\<close> replaces a value in place or adds a new
  entry (\<open>AList.update\<close>), \<open>remove\<close> is \<open>AList.delete\<close>, \<open>get\<close> is
  \<^const>\<open>map_of\<close>; \<open>get_mut\<close> followed by an assignment is \<open>hm_modify\<close>.
  The tables of the database, keyed by their primary key, have the same representation; an
  upsert keeps the position of the row, as it keeps the rowid.
\<close>

type_synonym ('k, 'v) hashmap = "('k \<times> 'v) list"

abbreviation hm_get :: "('k, 'v) hashmap \<Rightarrow> 'k \<Rightarrow> 'v option" where
  "hm_get \<equiv> map_of"

abbreviation hm_insert :: "'k \<Rightarrow> 'v \<Rightarrow> ('k, 'v) hashmap \<Rightarrow> ('k, 'v) hashmap" where
  "hm_insert \<equiv> AList.update"

abbreviation hm_remove :: "'k \<Rightarrow> ('k, 'v) hashmap \<Rightarrow> ('k, 'v) hashmap" where
  "hm_remove \<equiv> AList.delete"

definition hm_modify :: "'k \<Rightarrow> ('v \<Rightarrow> 'v) \<Rightarrow> ('k, 'v) hashmap \<Rightarrow> ('k, 'v) hashmap" where
  "hm_modify k f m = map (\<lambda>(k', v). (k', if k' = k then f v else v)) m"

definition hm_values :: "('k, 'v) hashmap \<Rightarrow> 'v list" where
  "hm_values m = map snd m"

definition hm_keys :: "('k, 'v) hashmap \<Rightarrow> 'k list" where
  "hm_keys m = map fst m"

definition hm_wf :: "('k, 'v) hashmap \<Rightarrow> bool" where
  "hm_wf m = distinct (map fst m)"

text \<open>\<open>HashMap::retain\<close> and \<open>DELETE ... WHERE\<close>.\<close>

definition hm_retain :: "('k \<Rightarrow> 'v \<Rightarrow> bool) \<Rightarrow> ('k, 'v) hashmap \<Rightarrow> ('k, 'v) hashmap" where
  "hm_retain P m = filter (\<lambda>(k, v). P k v) m"

text \<open>\<open>values_mut\<close> with an update of each entry.\<close>

definition hm_map_values :: "('v \<Rightarrow> 'v) \<Rightarrow> ('k, 'v) hashmap \<Rightarrow> ('k, 'v) hashmap" where
  "hm_map_values f m = map (\<lambda>(k, v). (k, f v)) m"

subsection \<open>The interface the components use\<close>

text \<open>
  What a keyed store promises: the result of a lookup after each update, and that each
  update keeps the representation invariant.
\<close>

locale keyed_store =
  fixes get :: "'m \<Rightarrow> 'k \<Rightarrow> 'v option"
    and put :: "'k \<Rightarrow> 'v \<Rightarrow> 'm \<Rightarrow> 'm"
    and del :: "'k \<Rightarrow> 'm \<Rightarrow> 'm"
    and upd :: "'k \<Rightarrow> ('v \<Rightarrow> 'v) \<Rightarrow> 'm \<Rightarrow> 'm"
    and wf :: "'m \<Rightarrow> bool"
  assumes get_put: "get (put k v m) k' = (if k' = k then Some v else get m k')"
    and get_del: "get (del k m) k' = (if k' = k then None else get m k')"
    and get_upd: "get (upd k f m) k' = (if k' = k then map_option f (get m k') else get m k')"
    and wf_put: "wf m \<Longrightarrow> wf (put k v m)"
    and wf_del: "wf m \<Longrightarrow> wf (del k m)"
    and wf_upd: "wf m \<Longrightarrow> wf (upd k f m)"
begin

lemma get_move: "k1 \<noteq> k2 \<Longrightarrow> get (put k2 v (del k1 m)) k1 = None"
  by (simp add: get_put get_del)

lemma get_put_twice: "get (put k v (put k w m)) = get (put k v m)"
  by (rule ext) (simp add: get_put)

lemma get_upd_None: "get (upd k f m) k' = None \<longleftrightarrow> get m k' = None"
  by (simp add: get_upd)

lemma wf_move: "wf m \<Longrightarrow> wf (put k2 v (del k1 m))"
  by (simp add: wf_put wf_del)

end

lemma map_of_hm_modify:
  "map_of (hm_modify k f m) k' = (if k' = k then map_option f (map_of m k') else map_of m k')"
  by (induction m) (auto simp: hm_modify_def)

lemma keys_hm_modify [simp]: "map fst (hm_modify k f m) = map fst m"
  by (auto simp: hm_modify_def)

lemma map_of_hm_update: "map_of (AList.update k v m) k' = (if k' = k then Some v else map_of m k')"
  by (simp add: update_conv)

lemma map_of_hm_delete: "map_of (AList.delete k m) k' = (if k' = k then None else map_of m k')"
  by (simp add: delete_conv)

lemma hm_wf_update: "hm_wf m \<Longrightarrow> hm_wf (AList.update k v m)"
  by (simp add: hm_wf_def distinct_update)

lemma hm_wf_delete: "hm_wf m \<Longrightarrow> hm_wf (AList.delete k m)"
  by (simp add: hm_wf_def distinct_delete)

lemma hm_wf_modify: "hm_wf m \<Longrightarrow> hm_wf (hm_modify k f m)"
  by (simp add: hm_wf_def)

interpretation hm: keyed_store map_of AList.update AList.delete hm_modify hm_wf
  by unfold_locales
    (simp_all add: map_of_hm_update map_of_hm_delete map_of_hm_modify
      hm_wf_update hm_wf_delete hm_wf_modify)

lemmas hm_get_simps = hm.get_put hm.get_del hm.get_upd
lemmas hm_wf_intros = hm.wf_put hm.wf_del hm.wf_upd hm.wf_move

lemma hm_get_iff: "hm_wf m \<Longrightarrow> hm_get m k = Some v \<longleftrightarrow> (k, v) \<in> set m"
  by (simp add: hm_wf_def)

lemma hm_get_retain:
  assumes "hm_wf m"
  shows "hm_get (hm_retain P m) k =
    (case hm_get m k of Some v \<Rightarrow> if P k v then Some v else None | None \<Rightarrow> None)"
  using assms
proof (induction m)
  case Nil
  then show ?case by (simp add: hm_retain_def)
next
  case (Cons e m)
  obtain k' v where e: "e = (k', v)" by force
  from Cons.prems e have wf: "hm_wf m" and new: "hm_get m k' = None"
    by (auto simp: hm_wf_def map_of_eq_None_iff)
  from Cons.IH [OF wf] new e show ?case
    by (auto simp: hm_retain_def split: option.splits)
qed

lemma hm_wf_retain: "hm_wf m \<Longrightarrow> hm_wf (hm_retain P m)"
  by (simp add: hm_wf_def hm_retain_def distinct_map_filter)

lemma hm_get_map_values: "hm_get (hm_map_values f m) k = map_option f (hm_get m k)"
  by (induction m) (auto simp: hm_map_values_def)

lemma hm_wf_map_values: "hm_wf (hm_map_values f m) \<longleftrightarrow> hm_wf m"
  by (simp add: hm_wf_def hm_map_values_def comp_def split_def)

lemma hm_get_perm:
  assumes "hm_wf m" and "mset m' = mset m"
  shows "hm_wf m' \<and> hm_get m' = hm_get m"
proof -
  from assms have "mset (map fst m') = mset (map fst m)" by simp
  with assms(1) have wf: "hm_wf m'"
    unfolding hm_wf_def by (metis mset_eq_imp_distinct_iff)
  from assms(2) have "set m' = set m" by (rule mset_eq_setD)
  then have same: "hm_get m' k = Some v \<longleftrightarrow> hm_get m k = Some v" for k v
    using wf assms(1) by (simp add: hm_get_iff)
  then have "hm_get m' k = hm_get m k" for k
    by (metis option.exhaust)
  with wf show ?thesis by auto
qed

section \<open>Components as machines\<close>

text \<open>
  A component is a function that applies one command to its state. An invariant that every
  command keeps is kept by every sequence of commands.
\<close>

locale op_machine =
  fixes step :: "'s \<Rightarrow> 'c \<Rightarrow> 's"
    and inv :: "'s \<Rightarrow> bool"
  assumes step_inv: "inv s \<Longrightarrow> inv (step s c)"
begin

lemma run_inv: "inv s \<Longrightarrow> inv (foldl step s cs)"
  by (induction cs arbitrary: s) (auto intro: step_inv)

end

end
