(* ===== verification/Protocol.thy ===== *)
theory Protocol
  imports Cordelia_Prelude
begin

text \<open>
  \<^verbatim>\<open>crates/cordelia-protocol\<close>: the parameter set of the protocol era, the constants drawn
  from it, the wire message types and the group descriptor with its checksum and its signing
  payload. Peer ids and addresses are \<open>libp2p\<close> types: a peer id is an opaque value
  compared for equality, an address is its sequence of protocol components, of which the code
  inspects only the IPv4 ones.
\<close>

section \<open>Identifiers\<close>

datatype node_id = PeerId nat

type_synonym group_id = string

datatype protocol_component =
    Ip4 u8 u8 u8 u8
  | OtherComponent string

type_synonym multiaddr = "protocol_component list"

section \<open>Protocol era\<close>

record protocol_era =
  era_id :: u16
  keepalive_interval_secs :: u64
  keepalive_miss_limit :: u32
  tick_interval_secs :: u64
  dead_timeout_secs :: u64
  stale_timeout_secs :: u64
  ban_base_duration_secs :: u64
  reconnect_backoff_base_secs :: u64
  reconnect_backoff_max_secs :: u64
  era_churn_interval_secs :: u64
  churn_per_mille :: u32
  peer_share_interval_secs :: u64
  quic_idle_timeout_secs :: u64
  max_message_bytes :: nat
  max_item_bytes :: nat
  era_max_batch_size :: u32
  pong_timeout_secs :: u64
  eager_push_interval_secs :: u64
  sync_interval_moderate_secs :: u64
  era_sync_interval_taciturn_secs :: u64
  era_tombstone_retention_days :: u32
  push_retry_backoffs :: "u64 list"
  push_retry_count :: u32
  group_exchange_ticks :: u64
  peer_discovery_ticks :: u64
  bootnode_retry_ticks :: u64
  backoff_saturation_count :: u32

definition ERA_0 :: protocol_era where
  "ERA_0 = \<lparr>
     era_id = 0,
     keepalive_interval_secs = 15,
     keepalive_miss_limit = 3,
     tick_interval_secs = 10,
     dead_timeout_secs = 90,
     stale_timeout_secs = 6 * 3600,
     ban_base_duration_secs = 3600,
     reconnect_backoff_base_secs = 30,
     reconnect_backoff_max_secs = 15 * 60,
     era_churn_interval_secs = 3600,
     churn_per_mille = 200,
     peer_share_interval_secs = 300,
     quic_idle_timeout_secs = 300,
     max_message_bytes = 512 * 1024,
     max_item_bytes = 16 * 1024,
     era_max_batch_size = 100,
     pong_timeout_secs = 10,
     eager_push_interval_secs = 60,
     sync_interval_moderate_secs = 300,
     era_sync_interval_taciturn_secs = 900,
     era_tombstone_retention_days = 7,
     push_retry_backoffs = [5, 15, 60, 300],
     push_retry_count = 4,
     group_exchange_ticks = 6,
     peer_discovery_ticks = 3,
     bootnode_retry_ticks = 30,
     backoff_saturation_count = 5\<rparr>"

abbreviation CURRENT_ERA :: protocol_era where
  "CURRENT_ERA \<equiv> ERA_0"

text \<open>
  \<open>ProtocolEra::churn_fraction\<close>. The source computes it as an \<open>f64\<close>; here it
  is the exact rational quotient.
\<close>

definition era_churn_fraction :: "protocol_era \<Rightarrow> rat" where
  "era_churn_fraction e = of_nat (unat (churn_per_mille e)) / 1000"

lemma ERA_0_simps [simp]:
  "dead_timeout_secs ERA_0 = 90"
  "stale_timeout_secs ERA_0 = 21600"
  "ban_base_duration_secs ERA_0 = 3600"
  "reconnect_backoff_base_secs ERA_0 = 30"
  "reconnect_backoff_max_secs ERA_0 = 900"
  "era_churn_interval_secs ERA_0 = 3600"
  "churn_per_mille ERA_0 = 200"
  "max_message_bytes ERA_0 = 524288"
  "max_item_bytes ERA_0 = 16384"
  "era_max_batch_size ERA_0 = 100"
  "eager_push_interval_secs ERA_0 = 60"
  "era_sync_interval_taciturn_secs ERA_0 = 900"
  "era_tombstone_retention_days ERA_0 = 7"
  "push_retry_backoffs ERA_0 = [5, 15, 60, 300]"
  "push_retry_count ERA_0 = 4"
  "backoff_saturation_count ERA_0 = 5"
  by (simp_all add: ERA_0_def)

section \<open>Constants\<close>

definition MAX_BATCH_SIZE :: u32 where
  "MAX_BATCH_SIZE = era_max_batch_size ERA_0"

definition MAX_MESSAGE_BYTES :: nat where
  "MAX_MESSAGE_BYTES = max_message_bytes ERA_0"

definition MAX_ITEM_BYTES :: nat where
  "MAX_ITEM_BYTES = max_item_bytes ERA_0"

definition EAGER_PUSH_INTERVAL_SECS :: u64 where
  "EAGER_PUSH_INTERVAL_SECS = eager_push_interval_secs ERA_0"

definition SYNC_INTERVAL_TACITURN_SECS :: u64 where
  "SYNC_INTERVAL_TACITURN_SECS = era_sync_interval_taciturn_secs ERA_0"

definition TOMBSTONE_RETENTION_DAYS :: u32 where
  "TOMBSTONE_RETENTION_DAYS = era_tombstone_retention_days ERA_0"

lemmas protocol_consts =
  MAX_BATCH_SIZE_def MAX_MESSAGE_BYTES_def MAX_ITEM_BYTES_def EAGER_PUSH_INTERVAL_SECS_def
  SYNC_INTERVAL_TACITURN_SECS_def TOMBSTONE_RETENTION_DAYS_def

section \<open>Wire messages\<close>

record peer_address =
  pa_peer_id :: string
  pa_addrs :: "string list"
  pa_last_seen :: u64
  pa_groups :: "group_id list"
  pa_role :: string

record sync_request =
  sr_group_id :: group_id
  sr_since :: "string option"
  sr_limit :: u32

record item_header =
  ih_item_id :: string
  ih_item_type :: string
  ih_checksum :: string
  ih_updated_at :: string
  ih_author_id :: string
  ih_is_deletion :: bool

record sync_response =
  srs_items :: "item_header list"
  srs_has_more :: bool

record fetch_request =
  fr_item_ids :: "string list"

record fetched_item =
  fi_item_id :: string
  fi_item_type :: string
  fi_encrypted_blob :: bytes
  fi_checksum :: string
  fi_author_id :: string
  fi_group_id :: group_id
  fi_key_version :: u32
  fi_parent_id :: "string option"
  fi_is_copy :: bool
  fi_updated_at :: string

record fetch_response =
  frs_items :: "fetched_item list"

record memory_push_request =
  mp_items :: "fetched_item list"

record push_ack =
  ack_stored :: u32
  ack_rejected :: u32

section \<open>Group descriptors\<close>

record group_descriptor =
  gd_id :: string
  gd_culture :: string
  gd_updated_at :: string
  gd_checksum :: string
  gd_owner_id :: "string option"
  gd_owner_pubkey :: "string option"
  gd_signature :: "string option"

definition GROUP_TOMBSTONE_CULTURE :: string where
  "GROUP_TOMBSTONE_CULTURE = ''__deleted__''"

definition is_tombstone :: "group_descriptor \<Rightarrow> bool" where
  "is_tombstone d = (gd_culture d = GROUP_TOMBSTONE_CULTURE)"

definition newline :: string where
  "newline = [CHR 0x0A]"

definition compute_checksum :: "crypto_lib \<Rightarrow> string \<Rightarrow> string \<Rightarrow> string" where
  "compute_checksum L i culture =
     lib_hex_encode L (lib_sha256 L (as_bytes (i @ newline @ culture)))"

definition verify_checksum :: "crypto_lib \<Rightarrow> group_descriptor \<Rightarrow> bool" where
  "verify_checksum L d = (gd_checksum d = compute_checksum L (gd_id d) (gd_culture d))"

definition signing_payload :: "group_descriptor \<Rightarrow> bytes" where
  "signing_payload d =
     as_bytes (gd_id d @ newline @ gd_culture d @ newline @ gd_updated_at d)"

record group_exchange =
  ge_groups :: "group_id list"
  ge_descriptors :: "group_descriptor list option"

lemma of_char_byte_inj: "(of_char c :: u8) = of_char c' \<longleftrightarrow> c = c'"
proof
  assume "(of_char c :: u8) = of_char c'"
  then have "unat (of_char c :: u8) = unat (of_char c' :: u8)" by simp
  moreover have "unat (of_char x :: u8) = of_char x" for x :: char
  proof -
    have b: "of_char x < (256 :: nat)" by (rule nat_of_char_less_256)
    have "(of_char x :: u8) = word_of_nat (of_char x)" by (simp add: of_nat_of_char)
    then show ?thesis using b by (simp add: unat_of_nat)
  qed
  ultimately have "(of_char c :: nat) = of_char c'" by simp
  then show "c = c'" by simp
qed simp

lemma as_bytes_inj [simp]: "as_bytes s = as_bytes t \<longleftrightarrow> s = t"
  unfolding as_bytes_def
  by (rule iffI, rule map_injective) (auto simp: inj_def of_char_byte_inj)

text \<open>The signing payload determines the timestamp of a descriptor.\<close>

lemma signing_payload_updated_at:
  assumes "signing_payload d = signing_payload d'"
    and "gd_id d = gd_id d'" and "gd_culture d = gd_culture d'"
  shows "gd_updated_at d = gd_updated_at d'"
  using assms by (simp add: signing_payload_def)

end
