(* ===== verification/Storage.thy ===== *)
theory Storage
  imports Protocol
begin

text \<open>
  \<^verbatim>\<open>crates/cordelia-storage\<close>: the SQLite tables as keyed tables, the row types, and one
  definition per method of \<open>impl Storage for SqliteStorage\<close>, with the semantics of the SQL
  statement it executes: upserts, CHECK and FOREIGN KEY constraints (\<open>foreign_keys = ON\<close>),
  ordering and limits. A statement that fails leaves the database as it was; a method that
  executes two statements is not a transaction.

  Failures of the environment (a poisoned lock, a busy database, an I/O error) are the field
  \<open>db_fault\<close> of the database: it says which statements fail at present, and every
  operation consults it. The text of \<open>datetime('now')\<close> is an argument \<open>now\<close>.
\<close>

section \<open>Errors\<close>

datatype sqlite_error =
    CheckFailed string
  | ForeignKeyFailed
  | NoSuchTable string
  | SqliteOther string

datatype storage_error =
    Sqlite sqlite_error
  | Io string
  | SchemaVersionMismatch u32 u32 \<comment> \<open>expected, found\<close>
  | LockPoisoned

text \<open>The statements, one tag for each place where \<open>?\<close> can return an error.\<close>

datatype db_op =
    OpReadL1 | OpWriteL1 | OpDeleteL1 | OpListL1
  | OpReadL2 | OpWriteL2 | OpDeleteL2 | OpReadL2Meta | OpListGroupItems
  | OpWriteGroup | OpWriteGroupSignature | OpReadGroup | OpListGroups
  | OpListMembers | OpGetMembership
  | OpAddMemberStub | OpAddMemberRow | OpRemoveMember | OpUpdatePosture
  | OpDeleteGroupMembers | OpDeleteGroupRow | OpPurgeMembers | OpPurgeGroups
  | OpLogAccess | OpReadL2Index | OpWriteL2Index | OpFts
  | OpListStoredGroupIds | OpStorageStats
  | OpRegisterDevice | OpListDevices | OpRevokeDevice | OpDeviceByTokenHash

section \<open>Row types of the crate\<close>

record l2_item_row =
  lr_id :: string
  lr_item_type :: string
  lr_owner_id :: "string option"
  lr_visibility :: string
  lr_data :: bytes
  lr_checksum :: "string option"
  lr_group_id :: "string option"
  lr_author_id :: "string option"
  lr_key_version :: i32
  lr_parent_id :: "string option"
  lr_is_copy :: bool
  lr_access_count :: int
  lr_last_accessed_at :: "string option"
  lr_created_at :: string
  lr_updated_at :: string

record l2_item_meta =
  lm_owner_id :: "string option"
  lm_visibility :: string
  lm_group_id :: "string option"
  lm_author_id :: "string option"
  lm_key_version :: i32
  lm_parent_id :: "string option"
  lm_is_copy :: bool

record l2_item_write =
  lw_id :: string
  lw_item_type :: string
  lw_data :: bytes
  lw_owner_id :: "string option"
  lw_visibility :: string
  lw_group_id :: "string option"
  lw_author_id :: "string option"
  lw_key_version :: i32
  lw_parent_id :: "string option"
  lw_is_copy :: bool
  lw_updated_at :: "string option"

record group_row =
  gr_id :: string
  gr_name :: string
  gr_culture :: string
  gr_security_policy :: string
  gr_created_at :: string
  gr_updated_at :: string
  gr_owner_id :: "string option"
  gr_owner_pubkey :: "string option"
  gr_signature :: "string option"

record group_member_row =
  gm_group_id :: string
  gm_entity_id :: string
  gm_role :: string
  gm_posture :: "string option"
  gm_joined_at :: string

record access_log_entry =
  al_entity_id :: string
  al_action :: string
  al_resource_type :: string
  al_resource_id :: "string option"
  al_group_id :: "string option"
  al_detail :: "string option"

record device_row =
  dv_device_id :: string
  dv_entity_id :: string
  dv_device_name :: "string option"
  dv_device_type :: string
  dv_auth_token_hash :: string
  dv_created_at :: string
  dv_last_seen_at :: "string option"
  dv_revoked_at :: "string option"

record group_stats =
  gst_group_id :: string
  gst_item_count :: nat
  gst_data_bytes :: nat
  gst_member_count :: nat

record storage_stats_row =
  st_l2_item_count :: nat
  st_l2_data_bytes :: nat
  st_group_count :: nat
  st_groups :: "group_stats list"

section \<open>Tables\<close>

text \<open>
  The columns of each table besides its primary key; a nullable column is an option.
  The primary key of \<open>group_members\<close> is the pair of group and entity. The table
  \<open>devices\<close> is created by a migration and may be absent.
\<close>

record l1_cols =
  l1_data :: bytes
  l1_updated_at :: string
  l1_created_at :: string

record l2_cols =
  l2_type :: string
  l2_owner_id :: "string option"
  l2_visibility :: string
  l2_data :: bytes
  l2_last_accessed_at :: "string option"
  l2_access_count :: int
  l2_checksum :: "string option"
  l2_group_id :: "string option"
  l2_author_id :: "string option"
  l2_key_version :: "i32 option"
  l2_parent_id :: "string option"
  l2_is_copy :: "i32 option"
  l2_created_at :: string
  l2_updated_at :: string

record group_cols =
  g_name :: string
  g_culture :: string
  g_security_policy :: string
  g_created_at :: string
  g_updated_at :: string
  g_owner_id :: "string option"
  g_owner_pubkey :: "string option"
  g_signature :: "string option"

record member_cols =
  m_role :: string
  m_posture :: "string option"
  m_joined_at :: string

record device_cols =
  d_entity_id :: string
  d_device_name :: "string option"
  d_device_type :: string
  d_auth_token_hash :: string
  d_created_at :: string
  d_last_seen_at :: "string option"
  d_revoked_at :: "string option"

record db =
  l1_hot :: "(string, l1_cols) hashmap"
  l2_items :: "(string, l2_cols) hashmap"
  l2_index :: "bytes option"
  groups_tab :: "(string, group_cols) hashmap"
  group_members :: "(string \<times> string, member_cols) hashmap"
  access_log :: "access_log_entry list"
  devices :: "(string, device_cols) hashmap option"
  db_fault :: "db_op \<Rightarrow> storage_error option"

text \<open>A query and a statement under the present faults.\<close>

definition query :: "db \<Rightarrow> db_op \<Rightarrow> 'a \<Rightarrow> storage_error + 'a" where
  "query d op r = (case db_fault d op of Some e \<Rightarrow> Err e | None \<Rightarrow> Ok r)"

definition exec ::
  "db \<Rightarrow> db_op \<Rightarrow> (storage_error + 'a) \<times> db \<Rightarrow> (storage_error + 'a) \<times> db" where
  "exec d op r = (case db_fault d op of Some e \<Rightarrow> (Err e, d) | None \<Rightarrow> r)"

lemma query_ok [simp]: "db_fault d op = None \<Longrightarrow> query d op r = Ok r"
  by (simp add: query_def)

lemma exec_ok [simp]: "db_fault d op = None \<Longrightarrow> exec d op r = r"
  by (simp add: exec_def)

section \<open>Constraints of the schema\<close>

definition check_l2_type :: "string \<Rightarrow> bool" where
  "check_l2_type t \<longleftrightarrow> t \<in> {''entity'', ''session'', ''learning''}"

definition check_visibility :: "string \<Rightarrow> bool" where
  "check_visibility v \<longleftrightarrow> v \<in> {''private'', ''group'', ''public''}"

definition check_role :: "string \<Rightarrow> bool" where
  "check_role r \<longleftrightarrow> r \<in> {''owner'', ''admin'', ''member'', ''viewer''}"

definition check_posture :: "string option \<Rightarrow> bool" where
  "check_posture p \<longleftrightarrow>
     (case p of None \<Rightarrow> True | Some q \<Rightarrow> q \<in> {''active'', ''silent'', ''emcon'', ''removed''})"

definition check_device_type :: "string \<Rightarrow> bool" where
  "check_device_type t \<longleftrightarrow> t \<in> {''node'', ''browser'', ''mobile''}"

lemmas schema_checks =
  check_l2_type_def check_visibility_def check_role_def check_posture_def check_device_type_def

definition storage_checksum :: "crypto_lib \<Rightarrow> bytes \<Rightarrow> string" where
  "storage_checksum L data = lib_hex_encode L (lib_sha256 L data)"

end
