(* ===== verification/Storage_Ops.thy ===== *)
theory Storage_Ops
  imports Storage
begin

text \<open>
  The methods of \<open>impl Storage for SqliteStorage\<close> in the order of the source, the
  sanitising of full-text queries, and the schema migrations of \<open>ensure_schema\<close>.
\<close>

section \<open>L1 memory\<close>

definition read_l1 :: "db \<Rightarrow> string \<Rightarrow> storage_error + bytes option" where
  "read_l1 d user = query d OpReadL1 (map_option l1_data (hm_get (l1_hot d) user))"

definition write_l1 :: "string \<Rightarrow> db \<Rightarrow> string \<Rightarrow> bytes \<Rightarrow> (storage_error + unit) \<times> db" where
  "write_l1 now d user data =
     exec d OpWriteL1
       (Ok (),
        d\<lparr>l1_hot :=
            hm_insert user
              (case hm_get (l1_hot d) user of
                 Some r \<Rightarrow> r\<lparr>l1_data := data, l1_updated_at := now\<rparr>
               | None \<Rightarrow> \<lparr>l1_data = data, l1_updated_at = now, l1_created_at = now\<rparr>)
              (l1_hot d)\<rparr>)"

text \<open>A user that a membership row refers to cannot be deleted (FOREIGN KEY).\<close>

definition l1_referenced :: "db \<Rightarrow> string \<Rightarrow> bool" where
  "l1_referenced d user = list_ex (\<lambda>((g, e), r). e = user) (group_members d)"

definition delete_l1 :: "db \<Rightarrow> string \<Rightarrow> (storage_error + bool) \<times> db" where
  "delete_l1 d user =
     exec d OpDeleteL1
       (case hm_get (l1_hot d) user of
          None \<Rightarrow> (Ok False, d)
        | Some _ \<Rightarrow>
            if l1_referenced d user then (Err (Sqlite ForeignKeyFailed), d)
            else (Ok True, d\<lparr>l1_hot := hm_remove user (l1_hot d)\<rparr>))"

definition list_l1_users :: "db \<Rightarrow> storage_error + string list" where
  "list_l1_users d = query d OpListL1 (sort (hm_keys (l1_hot d)))"

section \<open>L2 items\<close>

definition row_of_l2 :: "string \<Rightarrow> l2_cols \<Rightarrow> l2_item_row" where
  "row_of_l2 i c =
     \<lparr>lr_id = i, lr_item_type = l2_type c, lr_owner_id = l2_owner_id c,
      lr_visibility = l2_visibility c, lr_data = l2_data c, lr_checksum = l2_checksum c,
      lr_group_id = l2_group_id c, lr_author_id = l2_author_id c,
      lr_key_version = unwrap_or (l2_key_version c) 1, lr_parent_id = l2_parent_id c,
      lr_is_copy = (unwrap_or (l2_is_copy c) 0 \<noteq> 0), lr_access_count = l2_access_count c,
      lr_last_accessed_at = l2_last_accessed_at c, lr_created_at = l2_created_at c,
      lr_updated_at = l2_updated_at c\<rparr>"

definition read_l2_item :: "db \<Rightarrow> string \<Rightarrow> storage_error + l2_item_row option" where
  "read_l2_item d i = query d OpReadL2 (map_option (row_of_l2 i) (hm_get (l2_items d) i))"

text \<open>
  The row an upsert leaves: a new row takes the defaults of the columns the statement does not
  name, an existing row keeps them.
\<close>

definition upsert_l2 :: "crypto_lib \<Rightarrow> string \<Rightarrow> l2_item_write \<Rightarrow> l2_cols option \<Rightarrow> l2_cols" where
  "upsert_l2 L now w old =
     \<lparr>l2_type = lw_item_type w, l2_owner_id = lw_owner_id w, l2_visibility = lw_visibility w,
      l2_data = lw_data w,
      l2_last_accessed_at = (case old of Some c \<Rightarrow> l2_last_accessed_at c | None \<Rightarrow> None),
      l2_access_count = (case old of Some c \<Rightarrow> l2_access_count c | None \<Rightarrow> 0),
      l2_checksum = Some (storage_checksum L (lw_data w)),
      l2_group_id = lw_group_id w, l2_author_id = lw_author_id w,
      l2_key_version = Some (lw_key_version w), l2_parent_id = lw_parent_id w,
      l2_is_copy = Some (if lw_is_copy w then 1 else 0),
      l2_created_at = (case old of Some c \<Rightarrow> l2_created_at c | None \<Rightarrow> now),
      l2_updated_at = unwrap_or (lw_updated_at w) now\<rparr>"

definition write_l2_item ::
  "crypto_lib \<Rightarrow> string \<Rightarrow> db \<Rightarrow> l2_item_write \<Rightarrow> (storage_error + unit) \<times> db" where
  "write_l2_item L now d w =
     exec d OpWriteL2
       (if \<not> check_l2_type (lw_item_type w) then (Err (Sqlite (CheckFailed ''type'')), d)
        else if \<not> check_visibility (lw_visibility w)
        then (Err (Sqlite (CheckFailed ''visibility'')), d)
        else (Ok (),
              d\<lparr>l2_items :=
                  hm_insert (lw_id w) (upsert_l2 L now w (hm_get (l2_items d) (lw_id w)))
                    (l2_items d)\<rparr>))"

definition delete_l2_item :: "db \<Rightarrow> string \<Rightarrow> (storage_error + bool) \<times> db" where
  "delete_l2_item d i =
     exec d OpDeleteL2
       (Ok (hm_get (l2_items d) i \<noteq> None), d\<lparr>l2_items := hm_remove i (l2_items d)\<rparr>)"

definition meta_of_l2 :: "l2_cols \<Rightarrow> l2_item_meta" where
  "meta_of_l2 c =
     \<lparr>lm_owner_id = l2_owner_id c, lm_visibility = l2_visibility c, lm_group_id = l2_group_id c,
      lm_author_id = l2_author_id c, lm_key_version = unwrap_or (l2_key_version c) 1,
      lm_parent_id = l2_parent_id c, lm_is_copy = (unwrap_or (l2_is_copy c) 0 \<noteq> 0)\<rparr>"

definition read_l2_item_meta :: "db \<Rightarrow> string \<Rightarrow> storage_error + l2_item_meta option" where
  "read_l2_item_meta d i = query d OpReadL2Meta (map_option meta_of_l2 (hm_get (l2_items d) i))"

definition header_of_l2 :: "string \<times> l2_cols \<Rightarrow> item_header" where
  "header_of_l2 r =
     (case r of (i, c) \<Rightarrow>
       \<lparr>ih_item_id = i, ih_item_type = l2_type c, ih_checksum = unwrap_or (l2_checksum c) '''',
        ih_updated_at = l2_updated_at c, ih_author_id = unwrap_or (l2_author_id c) '''',
        ih_is_deletion = False\<rparr>)"

definition since_ok :: "string option \<Rightarrow> string \<Rightarrow> bool" where
  "since_ok since t = (case since of None \<Rightarrow> True | Some s \<Rightarrow> s < t)"

definition list_group_items ::
  "db \<Rightarrow> string \<Rightarrow> string option \<Rightarrow> u32 \<Rightarrow> storage_error + item_header list" where
  "list_group_items d g since limit =
     query d OpListGroupItems
       (map header_of_l2
         (take (unat limit)
           (sort_key (\<lambda>(i, c). l2_updated_at c)
             (filter (\<lambda>(i, c). l2_group_id c = Some g \<and> since_ok since (l2_updated_at c))
               (l2_items d)))))"

section \<open>Groups and members\<close>

definition write_group ::
  "string \<Rightarrow> db \<Rightarrow> string \<Rightarrow> string \<Rightarrow> string \<Rightarrow> string \<Rightarrow> (storage_error + unit) \<times> db" where
  "write_group now d i name culture policy =
     exec d OpWriteGroup
       (Ok (),
        d\<lparr>groups_tab :=
            hm_insert i
              (case hm_get (groups_tab d) i of
                 Some r \<Rightarrow>
                   r\<lparr>g_name := name, g_culture := culture, g_security_policy := policy,
                     g_updated_at := now\<rparr>
               | None \<Rightarrow>
                   \<lparr>g_name = name, g_culture = culture, g_security_policy = policy,
                    g_created_at = now, g_updated_at = now, g_owner_id = None,
                    g_owner_pubkey = None, g_signature = None\<rparr>)
              (groups_tab d)\<rparr>)"

definition write_group_signature ::
  "db \<Rightarrow> string \<Rightarrow> string \<Rightarrow> string \<Rightarrow> string \<Rightarrow> (storage_error + unit) \<times> db" where
  "write_group_signature d i owner pubkey sig =
     exec d OpWriteGroupSignature
       (Ok (),
        d\<lparr>groups_tab :=
            hm_modify i
              (\<lambda>r. r\<lparr>g_owner_id := Some owner, g_owner_pubkey := Some pubkey,
                     g_signature := Some sig\<rparr>)
              (groups_tab d)\<rparr>)"

definition row_of_group :: "string \<Rightarrow> group_cols \<Rightarrow> group_row" where
  "row_of_group i c =
     \<lparr>gr_id = i, gr_name = g_name c, gr_culture = g_culture c,
      gr_security_policy = g_security_policy c, gr_created_at = g_created_at c,
      gr_updated_at = g_updated_at c, gr_owner_id = g_owner_id c,
      gr_owner_pubkey = g_owner_pubkey c, gr_signature = g_signature c\<rparr>"

definition read_group :: "db \<Rightarrow> string \<Rightarrow> storage_error + group_row option" where
  "read_group d i = query d OpReadGroup (map_option (row_of_group i) (hm_get (groups_tab d) i))"

definition list_groups :: "db \<Rightarrow> storage_error + group_row list" where
  "list_groups d =
     query d OpListGroups (sort_key gr_name (map (\<lambda>(i, c). row_of_group i c) (groups_tab d)))"

definition row_of_member :: "string \<times> string \<Rightarrow> member_cols \<Rightarrow> group_member_row" where
  "row_of_member k c =
     \<lparr>gm_group_id = fst k, gm_entity_id = snd k, gm_role = m_role c, gm_posture = m_posture c,
      gm_joined_at = m_joined_at c\<rparr>"

text \<open>\<open>posture != 'removed'\<close> is not true of a NULL posture.\<close>

definition posture_not_removed :: "string option \<Rightarrow> bool" where
  "posture_not_removed p = (case p of Some q \<Rightarrow> q \<noteq> ''removed'' | None \<Rightarrow> False)"

definition list_members :: "db \<Rightarrow> string \<Rightarrow> storage_error + group_member_row list" where
  "list_members d g =
     query d OpListMembers
       (sort_key gm_entity_id
         (map (\<lambda>(k, c). row_of_member k c)
           (filter (\<lambda>(k, c). fst k = g \<and> posture_not_removed (m_posture c)) (group_members d))))"

definition get_membership ::
  "db \<Rightarrow> string \<Rightarrow> string \<Rightarrow> storage_error + group_member_row option" where
  "get_membership d g e =
     query d OpGetMembership
       (case hm_get (group_members d) (g, e) of
          Some c \<Rightarrow> if posture_not_removed (m_posture c) then Some (row_of_member (g, e) c) else None
        | None \<Rightarrow> None)"

text \<open>
  \<open>add_member\<close> executes two statements. The first creates an L1 stub (the two bytes of an
  empty JSON object) unless the user has a row; it stays when the second one fails.
\<close>

definition l1_stub :: bytes where
  "l1_stub = as_bytes ''{}''"

definition insert_l1_stub :: "string \<Rightarrow> string \<Rightarrow> db \<Rightarrow> db" where
  "insert_l1_stub now e d =
     (case hm_get (l1_hot d) e of
        Some _ \<Rightarrow> d
      | None \<Rightarrow>
          d\<lparr>l1_hot :=
              hm_insert e \<lparr>l1_data = l1_stub, l1_updated_at = now, l1_created_at = now\<rparr> (l1_hot d)\<rparr>)"

definition upsert_member ::
  "string \<Rightarrow> string \<Rightarrow> string \<Rightarrow> string \<Rightarrow> db \<Rightarrow> (storage_error + unit) \<times> db" where
  "upsert_member now g e role d =
     (if \<not> check_role role then (Err (Sqlite (CheckFailed ''role'')), d)
      else case hm_get (group_members d) (g, e) of
             Some c \<Rightarrow>
               (Ok (),
                d\<lparr>group_members :=
                    hm_insert (g, e) (c\<lparr>m_role := role, m_posture := Some ''active''\<rparr>)
                      (group_members d)\<rparr>)
           | None \<Rightarrow>
               if hm_get (groups_tab d) g = None \<or> hm_get (l1_hot d) e = None
               then (Err (Sqlite ForeignKeyFailed), d)
               else (Ok (),
                     d\<lparr>group_members :=
                         hm_insert (g, e)
                           \<lparr>m_role = role, m_posture = Some ''active'', m_joined_at = now\<rparr>
                           (group_members d)\<rparr>))"

definition add_member ::
  "string \<Rightarrow> db \<Rightarrow> string \<Rightarrow> string \<Rightarrow> string \<Rightarrow> (storage_error + unit) \<times> db" where
  "add_member now d g e role =
     exec d OpAddMemberStub
       (let d1 = insert_l1_stub now e d
        in exec d1 OpAddMemberRow (upsert_member now g e role d1))"

definition remove_member :: "db \<Rightarrow> string \<Rightarrow> string \<Rightarrow> (storage_error + bool) \<times> db" where
  "remove_member d g e =
     exec d OpRemoveMember
       (case hm_get (group_members d) (g, e) of
          Some c \<Rightarrow>
            if posture_not_removed (m_posture c)
            then (Ok True,
                  d\<lparr>group_members :=
                      hm_modify (g, e) (\<lambda>c. c\<lparr>m_posture := Some ''removed''\<rparr>) (group_members d)\<rparr>)
            else (Ok False, d)
        | None \<Rightarrow> (Ok False, d))"

definition update_member_posture ::
  "db \<Rightarrow> string \<Rightarrow> string \<Rightarrow> string \<Rightarrow> (storage_error + bool) \<times> db" where
  "update_member_posture d g e posture =
     exec d OpUpdatePosture
       (case hm_get (group_members d) (g, e) of
          Some c \<Rightarrow>
            if check_posture (Some posture)
            then (Ok True,
                  d\<lparr>group_members :=
                      hm_modify (g, e) (\<lambda>c. c\<lparr>m_posture := Some posture\<rparr>) (group_members d)\<rparr>)
            else (Err (Sqlite (CheckFailed ''posture'')), d)
        | None \<Rightarrow> (Ok False, d))"

definition delete_group :: "db \<Rightarrow> string \<Rightarrow> (storage_error + bool) \<times> db" where
  "delete_group d i =
     exec d OpDeleteGroupMembers
       (let d1 = d\<lparr>group_members := hm_retain (\<lambda>k c. fst k \<noteq> i) (group_members d)\<rparr>
        in exec d1 OpDeleteGroupRow
             (Ok (hm_get (groups_tab d1) i \<noteq> None),
              d1\<lparr>groups_tab := hm_remove i (groups_tab d1)\<rparr>))"

text \<open>
  Garbage collection of group tombstones: \<open>cutoff\<close> is the text of
  \<open>datetime('now', '-N days')\<close>.
\<close>

definition expired_tombstone :: "string \<Rightarrow> string \<Rightarrow> group_cols \<Rightarrow> bool" where
  "expired_tombstone culture cutoff c \<longleftrightarrow> g_culture c = culture \<and> g_updated_at c < cutoff"

definition purge_deleted_groups ::
  "(u32 \<Rightarrow> string) \<Rightarrow> db \<Rightarrow> string \<Rightarrow> u32 \<Rightarrow> (storage_error + u32) \<times> db" where
  "purge_deleted_groups datetime_ago d culture days =
     (let cutoff = datetime_ago days;
          gone = (\<lambda>g. case hm_get (groups_tab d) g of
                        Some c \<Rightarrow> expired_tombstone culture cutoff c | None \<Rightarrow> False)
      in exec d OpPurgeMembers
           (let d1 = d\<lparr>group_members := hm_retain (\<lambda>k c. \<not> gone (fst k)) (group_members d)\<rparr>
            in exec d1 OpPurgeGroups
                 (Ok (of_nat (length (filter (\<lambda>(i, c). expired_tombstone culture cutoff c)
                                      (groups_tab d1)))),
                  d1\<lparr>groups_tab :=
                       hm_retain (\<lambda>i c. \<not> expired_tombstone culture cutoff c) (groups_tab d1)\<rparr>)))"

section \<open>Log, index, statistics\<close>

definition log_access :: "db \<Rightarrow> access_log_entry \<Rightarrow> (storage_error + unit) \<times> db" where
  "log_access d entry = exec d OpLogAccess (Ok (), d\<lparr>access_log := access_log d @ [entry]\<rparr>)"

definition read_l2_index :: "db \<Rightarrow> storage_error + bytes option" where
  "read_l2_index d = query d OpReadL2Index (l2_index d)"

definition write_l2_index :: "db \<Rightarrow> bytes \<Rightarrow> (storage_error + unit) \<times> db" where
  "write_l2_index d data = exec d OpWriteL2Index (Ok (), d\<lparr>l2_index := Some data\<rparr>)"

definition list_stored_group_ids :: "db \<Rightarrow> storage_error + string list" where
  "list_stored_group_ids d =
     query d OpListStoredGroupIds
       (remdups (List.map_filter (\<lambda>(i, c). l2_group_id c) (l2_items d)))"

definition group_stats_of :: "db \<Rightarrow> string \<Rightarrow> group_stats" where
  "group_stats_of d g =
     (let rows = filter (\<lambda>(i, c). l2_group_id c = Some g) (l2_items d)
      in \<lparr>gst_group_id = g, gst_item_count = length rows,
          gst_data_bytes = sum_list (map (\<lambda>(i, c). length (l2_data c)) rows),
          gst_member_count = length (filter (\<lambda>(k, c). fst k = g) (group_members d))\<rparr>)"

definition storage_stats :: "db \<Rightarrow> storage_error + storage_stats_row" where
  "storage_stats d =
     query d OpStorageStats
       \<lparr>st_l2_item_count = length (l2_items d),
        st_l2_data_bytes = sum_list (map (\<lambda>(i, c). length (l2_data c)) (l2_items d)),
        st_group_count = length (groups_tab d),
        st_groups = map (group_stats_of d) (sort (hm_keys (groups_tab d)))\<rparr>"

section \<open>Devices\<close>

definition with_devices ::
  "db \<Rightarrow> ((string, device_cols) hashmap \<Rightarrow> (storage_error + 'a) \<times> db) \<Rightarrow> (storage_error + 'a) \<times> db" where
  "with_devices d f =
     (case devices d of None \<Rightarrow> (Err (Sqlite (NoSuchTable ''devices'')), d) | Some t \<Rightarrow> f t)"

definition register_device :: "string \<Rightarrow> db \<Rightarrow> device_row \<Rightarrow> (storage_error + unit) \<times> db" where
  "register_device now d v =
     exec d OpRegisterDevice
       (with_devices d (\<lambda>t.
          if \<not> check_device_type (dv_device_type v)
          then (Err (Sqlite (CheckFailed ''device_type'')), d)
          else (Ok (),
                d\<lparr>devices := Some
                    (hm_insert (dv_device_id v)
                      (case hm_get t (dv_device_id v) of
                         Some c \<Rightarrow>
                           c\<lparr>d_device_name := dv_device_name v, d_device_type := dv_device_type v,
                             d_auth_token_hash := dv_auth_token_hash v\<rparr>
                       | None \<Rightarrow>
                           \<lparr>d_entity_id = dv_entity_id v, d_device_name = dv_device_name v,
                            d_device_type = dv_device_type v,
                            d_auth_token_hash = dv_auth_token_hash v, d_created_at = now,
                            d_last_seen_at = None, d_revoked_at = None\<rparr>)
                      t)\<rparr>)))"

definition row_of_device :: "string \<Rightarrow> device_cols \<Rightarrow> device_row" where
  "row_of_device i c =
     \<lparr>dv_device_id = i, dv_entity_id = d_entity_id c, dv_device_name = d_device_name c,
      dv_device_type = d_device_type c, dv_auth_token_hash = d_auth_token_hash c,
      dv_created_at = d_created_at c, dv_last_seen_at = d_last_seen_at c,
      dv_revoked_at = d_revoked_at c\<rparr>"

text \<open>\<open>ORDER BY created_at DESC\<close>: a stable descending sort.\<close>

definition list_devices :: "db \<Rightarrow> string \<Rightarrow> storage_error + device_row list" where
  "list_devices d e =
     (case devices d of
        None \<Rightarrow> Err (Sqlite (NoSuchTable ''devices''))
      | Some t \<Rightarrow>
          query d OpListDevices
            (rev (sort_key dv_created_at
              (rev (map (\<lambda>(i, c). row_of_device i c)
                (filter (\<lambda>(i, c). d_entity_id c = e) t))))))"

definition revoke_device :: "string \<Rightarrow> db \<Rightarrow> string \<Rightarrow> string \<Rightarrow> (storage_error + bool) \<times> db" where
  "revoke_device now d e i =
     exec d OpRevokeDevice
       (with_devices d (\<lambda>t.
          case hm_get t i of
            Some c \<Rightarrow>
              if d_entity_id c = e \<and> d_revoked_at c = None
              then (Ok True, d\<lparr>devices := Some (hm_modify i (\<lambda>c. c\<lparr>d_revoked_at := Some now\<rparr>) t)\<rparr>)
              else (Ok False, d)
          | None \<Rightarrow> (Ok False, d)))"

definition get_device_by_token_hash :: "db \<Rightarrow> string \<Rightarrow> storage_error + device_row option" where
  "get_device_by_token_hash d h =
     (case devices d of
        None \<Rightarrow> Err (Sqlite (NoSuchTable ''devices''))
      | Some t \<Rightarrow>
          query d OpDeviceByTokenHash
            (map_option (\<lambda>(i, c). row_of_device i c)
              (find (\<lambda>(i, c). d_auth_token_hash c = h \<and> d_revoked_at c = None) t)))"

section \<open>Full-text queries\<close>

text \<open>
  A query is a list of Unicode scalar values. \<open>split_whitespace\<close> yields the maximal runs of
  characters that are not White\_Space, so \<open>trim\<close> before it changes nothing but the test
  for an empty query. The FTS5 index is a library: \<open>fts\<close> stands for its
  \<open>MATCH ... ORDER BY rank\<close>.
\<close>

type_synonym unicode = nat

definition is_whitespace :: "unicode \<Rightarrow> bool" where
  "is_whitespace c \<longleftrightarrow>
     (9 \<le> c \<and> c \<le> 13) \<or> c = 32 \<or> c = 0x85 \<or> c = 0xA0 \<or> c = 0x1680 \<or>
     (0x2000 \<le> c \<and> c \<le> 0x200A) \<or> c = 0x2028 \<or> c = 0x2029 \<or> c = 0x202F \<or> c = 0x205F \<or> c = 0x3000"

abbreviation quote_char :: unicode where
  "quote_char \<equiv> 34"

fun split_words :: "unicode list \<Rightarrow> unicode list \<Rightarrow> unicode list list" where
  "split_words acc [] = (if acc = [] then [] else [acc])"
| "split_words acc (c # cs) =
     (if is_whitespace c
      then (if acc = [] then split_words [] cs else acc # split_words [] cs)
      else split_words (acc @ [c]) cs)"

definition split_whitespace :: "unicode list \<Rightarrow> unicode list list" where
  "split_whitespace = split_words []"

definition quote_token :: "unicode list \<Rightarrow> unicode list" where
  "quote_token t = [quote_char] @ filter (\<lambda>c. c \<noteq> quote_char) t @ [quote_char]"

fun join_space :: "unicode list list \<Rightarrow> unicode list" where
  "join_space [] = []"
| "join_space [t] = t"
| "join_space (t # ts) = t @ [32] @ join_space ts"

definition safe_query :: "unicode list \<Rightarrow> unicode list" where
  "safe_query q = join_space (map quote_token (filter (\<lambda>t. t \<noteq> []) (split_whitespace q)))"

definition fts_search ::
  "(unicode list \<Rightarrow> u32 \<Rightarrow> string list) \<Rightarrow> db \<Rightarrow> unicode list \<Rightarrow> u32 \<Rightarrow> storage_error + string list" where
  "fts_search fts d q limit =
     (if list_all is_whitespace q then Ok []
      else if safe_query q = [] then Ok []
      else query d OpFts (fts (safe_query q) limit))"

section \<open>Schema migrations\<close>

text \<open>
  What \<open>ensure_schema\<close> reads and changes: whether the base tables exist, the version row,
  whether the table \<open>devices\<close> exists and whether \<open>groups\<close> has the owner columns.
  The script \<^verbatim>\<open>schema_v4.sql\<close> creates the base tables with the owner columns and records
  version 6; \<^verbatim>\<open>schema_v5.sql\<close> creates \<open>devices\<close>.
\<close>

record schema =
  sc_base :: bool
  sc_version :: "u32 option"
  sc_devices :: bool
  sc_owner_cols :: bool
  sc_removed_posture :: bool

definition empty_schema :: schema where
  "empty_schema =
     \<lparr>sc_base = False, sc_version = None, sc_devices = False, sc_owner_cols = False,
      sc_removed_posture = False\<rparr>"

definition bump_version :: "u32 \<Rightarrow> u32 \<Rightarrow> schema \<Rightarrow> schema" where
  "bump_version from to s = (if sc_version s = Some from then s\<lparr>sc_version := Some to\<rparr> else s)"

definition run_schema_v4 :: "schema \<Rightarrow> schema" where
  "run_schema_v4 s =
     s\<lparr>sc_base := True, sc_version := Some 6, sc_owner_cols := True, sc_removed_posture := True\<rparr>"

definition run_schema_v5 :: "schema \<Rightarrow> schema" where
  "run_schema_v5 s = bump_version 4 5 (s\<lparr>sc_devices := True\<rparr>)"

definition run_schema_v6 :: "schema \<Rightarrow> schema" where
  "run_schema_v6 s = bump_version 5 6 (s\<lparr>sc_owner_cols := True\<rparr>)"

definition run_schema_v7 :: "schema \<Rightarrow> schema" where
  "run_schema_v7 s = bump_version 6 7 (s\<lparr>sc_removed_posture := True\<rparr>)"

definition ensure_schema :: "schema \<Rightarrow> storage_error + schema" where
  "ensure_schema s0 =
     (let s1 = (if sc_base s0 then s0 else run_schema_v4 s0);
          v = unwrap_or (sc_version s1) 0
      in if v < 4 then Err (SchemaVersionMismatch 4 v)
         else
           let s2 = (if v = 4 then run_schema_v5 s1 else s1);
               s3 = (if sc_version s2 = Some 5
                     then (if sc_owner_cols s2 then bump_version 5 6 s2 else run_schema_v6 s2)
                     else s2);
               s4 = (if sc_version s3 = Some 6 then run_schema_v7 s3 else s3)
           in Ok s4)"

text \<open>An empty database with the tables of a schema.\<close>

definition db_of_schema :: "schema \<Rightarrow> db" where
  "db_of_schema s =
     \<lparr>l1_hot = [], l2_items = [], l2_index = None, groups_tab = [], group_members = [],
      access_log = [], devices = (if sc_devices s then Some [] else None),
      db_fault = (\<lambda>_. None)\<rparr>"

end
