(* ===== verification/Storage_Props.thy ===== *)
theory Storage_Props
  imports Storage_Ops
begin

text \<open>
  What the storage layer promises: the constraints of the schema and the integrity of the
  checksums hold after every sequence of operations, under any environment faults; a read
  returns what the last write stored; listings are filtered, ordered and bounded; membership and
  device revocation behave as their callers rely on.
\<close>

section \<open>Invariant\<close>

definition l2_row_ok :: "crypto_lib \<Rightarrow> l2_cols \<Rightarrow> bool" where
  "l2_row_ok L c \<longleftrightarrow>
     check_l2_type (l2_type c) \<and> check_visibility (l2_visibility c) \<and>
     l2_checksum c = Some (storage_checksum L (l2_data c))"

definition l2_rows_ok :: "crypto_lib \<Rightarrow> db \<Rightarrow> bool" where
  "l2_rows_ok L d \<longleftrightarrow> (\<forall>i c. hm_get (l2_items d) i = Some c \<longrightarrow> l2_row_ok L c)"

definition member_ok :: "db \<Rightarrow> string \<times> string \<Rightarrow> member_cols \<Rightarrow> bool" where
  "member_ok d k c \<longleftrightarrow>
     check_role (m_role c) \<and> check_posture (m_posture c) \<and>
     hm_get (groups_tab d) (fst k) \<noteq> None \<and> hm_get (l1_hot d) (snd k) \<noteq> None"

definition members_ok :: "db \<Rightarrow> bool" where
  "members_ok d \<longleftrightarrow> (\<forall>k c. hm_get (group_members d) k = Some c \<longrightarrow> member_ok d k c)"

definition devices_ok :: "db \<Rightarrow> bool" where
  "devices_ok d \<longleftrightarrow>
     (case devices d of
        None \<Rightarrow> True
      | Some t \<Rightarrow> hm_wf t \<and> (\<forall>i c. hm_get t i = Some c \<longrightarrow> check_device_type (d_device_type c)))"

definition keys_ok :: "db \<Rightarrow> bool" where
  "keys_ok d \<longleftrightarrow>
     hm_wf (l1_hot d) \<and> hm_wf (l2_items d) \<and> hm_wf (groups_tab d) \<and> hm_wf (group_members d)"

definition db_inv :: "crypto_lib \<Rightarrow> db \<Rightarrow> bool" where
  "db_inv L d \<longleftrightarrow> keys_ok d \<and> l2_rows_ok L d \<and> members_ok d \<and> devices_ok d"

lemmas db_inv_defs = db_inv_def keys_ok_def l2_rows_ok_def members_ok_def devices_ok_def

section \<open>Commands\<close>

text \<open>
  The operations that change the database, and the environment changing which statements fail.
\<close>

datatype db_cmd =
    CWriteL1 string string bytes
  | CDeleteL1 string
  | CWriteL2 string l2_item_write
  | CDeleteL2 string
  | CWriteGroup string string string string string
  | CWriteGroupSignature string string string string
  | CAddMember string string string string
  | CRemoveMember string string
  | CUpdatePosture string string string
  | CDeleteGroup string
  | CPurge "u32 \<Rightarrow> string" string u32
  | CLogAccess access_log_entry
  | CWriteL2Index bytes
  | CRegisterDevice string device_row
  | CRevokeDevice string string string
  | CFaults "db_op \<Rightarrow> storage_error option"

fun db_step :: "crypto_lib \<Rightarrow> db \<Rightarrow> db_cmd \<Rightarrow> db" where
  "db_step L d (CWriteL1 now u b) = snd (write_l1 now d u b)"
| "db_step L d (CDeleteL1 u) = snd (delete_l1 d u)"
| "db_step L d (CWriteL2 now w) = snd (write_l2_item L now d w)"
| "db_step L d (CDeleteL2 i) = snd (delete_l2_item d i)"
| "db_step L d (CWriteGroup now i n c p) = snd (write_group now d i n c p)"
| "db_step L d (CWriteGroupSignature i ow pk sg) = snd (write_group_signature d i ow pk sg)"
| "db_step L d (CAddMember now g e r) = snd (add_member now d g e r)"
| "db_step L d (CRemoveMember g e) = snd (remove_member d g e)"
| "db_step L d (CUpdatePosture g e p) = snd (update_member_posture d g e p)"
| "db_step L d (CDeleteGroup i) = snd (delete_group d i)"
| "db_step L d (CPurge ago c n) = snd (purge_deleted_groups ago d c n)"
| "db_step L d (CLogAccess a) = snd (log_access d a)"
| "db_step L d (CWriteL2Index b) = snd (write_l2_index d b)"
| "db_step L d (CRegisterDevice now v) = snd (register_device now d v)"
| "db_step L d (CRevokeDevice now e i) = snd (revoke_device now d e i)"
| "db_step L d (CFaults f) = d\<lparr>db_fault := f\<rparr>"

text \<open>How replacing one table keeps the invariant.\<close>

lemma exec_inv: "db_inv L d \<Longrightarrow> db_inv L (snd r) \<Longrightarrow> db_inv L (snd (exec d op r))"
  by (simp add: exec_def split: option.split)

lemma with_devices_inv:
  "db_inv L d \<Longrightarrow> (\<And>t. devices d = Some t \<Longrightarrow> db_inv L (snd (f t))) \<Longrightarrow>
     db_inv L (snd (with_devices d f))"
  by (simp add: with_devices_def split: option.split)

lemma inv_l1_hot:
  assumes "db_inv L d" and "hm_wf t"
    and "\<And>k c. hm_get (group_members d) k = Some c \<Longrightarrow> hm_get t (snd k) \<noteq> None"
  shows "db_inv L (d\<lparr>l1_hot := t\<rparr>)"
  using assms by (simp add: db_inv_defs member_ok_def)

lemma inv_l2_items:
  assumes "db_inv L d" and "hm_wf t" and "\<And>i c. hm_get t i = Some c \<Longrightarrow> l2_row_ok L c"
  shows "db_inv L (d\<lparr>l2_items := t\<rparr>)"
  using assms by (simp add: db_inv_defs member_ok_def)

lemma inv_groups_tab:
  assumes "db_inv L d" and "hm_wf t"
    and "\<And>k c. hm_get (group_members d) k = Some c \<Longrightarrow> hm_get t (fst k) \<noteq> None"
  shows "db_inv L (d\<lparr>groups_tab := t\<rparr>)"
  using assms by (simp add: db_inv_defs member_ok_def)

lemma inv_group_members:
  assumes "db_inv L d" and "hm_wf t" and "\<And>k c. hm_get t k = Some c \<Longrightarrow> member_ok d k c"
  shows "db_inv L (d\<lparr>group_members := t\<rparr>)"
  using assms by (simp add: db_inv_defs member_ok_def)

lemma inv_devices:
  assumes "db_inv L d" and "hm_wf t"
    and "\<And>i c. hm_get t i = Some c \<Longrightarrow> check_device_type (d_device_type c)"
  shows "db_inv L (d\<lparr>devices := Some t\<rparr>)"
  using assms by (simp add: db_inv_defs member_ok_def)

lemma inv_others [simp]:
  "db_inv L (d\<lparr>access_log := a\<rparr>) \<longleftrightarrow> db_inv L d"
  "db_inv L (d\<lparr>l2_index := x\<rparr>) \<longleftrightarrow> db_inv L d"
  "db_inv L (d\<lparr>db_fault := f\<rparr>) \<longleftrightarrow> db_inv L d"
  by (simp_all add: db_inv_defs member_ok_def)

text \<open>What the invariant gives.\<close>

lemma inv_wf:
  assumes "db_inv L d"
  shows "hm_wf (l1_hot d)" "hm_wf (l2_items d)" "hm_wf (groups_tab d)" "hm_wf (group_members d)"
  using assms by (simp_all add: db_inv_defs)

lemma inv_l2_row: "db_inv L d \<Longrightarrow> hm_get (l2_items d) i = Some c \<Longrightarrow> l2_row_ok L c"
  by (simp add: db_inv_defs)

lemma inv_member: "db_inv L d \<Longrightarrow> hm_get (group_members d) k = Some c \<Longrightarrow> member_ok d k c"
  by (cases k) (simp add: db_inv_defs)

lemma inv_member_group:
  "db_inv L d \<Longrightarrow> hm_get (group_members d) k = Some c \<Longrightarrow> hm_get (groups_tab d) (fst k) \<noteq> None"
  by (drule (1) inv_member) (simp add: member_ok_def)

lemma inv_member_l1:
  "db_inv L d \<Longrightarrow> hm_get (group_members d) k = Some c \<Longrightarrow> hm_get (l1_hot d) (snd k) \<noteq> None"
  by (drule (1) inv_member) (simp add: member_ok_def)

lemma inv_device_table:
  assumes "db_inv L d" and "devices d = Some t"
  shows "hm_wf t" "hm_get t i = Some c \<Longrightarrow> check_device_type (d_device_type c)"
  using assms by (simp_all add: db_inv_defs)

lemma write_l1_inv: "db_inv L d \<Longrightarrow> db_inv L (snd (write_l1 now d u b))"
  unfolding write_l1_def
  by (rule exec_inv, assumption, simp only: snd_conv,
      rule inv_l1_hot, assumption, blast intro: hm_wf_intros inv_wf)
    (auto simp: hm_get_simps dest: inv_member_l1)

lemma l1_not_referenced:
  "\<not> l1_referenced d u \<Longrightarrow> hm_get (group_members d) k = Some c \<Longrightarrow> snd k \<noteq> u"
  by (cases k) (auto simp: l1_referenced_def list_ex_iff dest!: map_of_SomeD)

lemma delete_l1_inv:
  assumes "db_inv L d"
  shows "db_inv L (snd (delete_l1 d u))"
proof -
  have "db_inv L (d\<lparr>l1_hot := hm_remove u (l1_hot d)\<rparr>)" if "\<not> l1_referenced d u"
  proof (rule inv_l1_hot [OF assms])
    show "hm_wf (hm_remove u (l1_hot d))" using assms by (intro hm_wf_intros inv_wf)
    fix k c assume m: "hm_get (group_members d) k = Some c"
    with that have "snd k \<noteq> u" by (rule l1_not_referenced)
    with inv_member_l1 [OF assms m] show "hm_get (hm_remove u (l1_hot d)) (snd k) \<noteq> None"
      by (simp add: hm_get_simps)
  qed
  with assms show ?thesis
    unfolding delete_l1_def by (intro exec_inv) (auto split: option.split)
qed

lemma upsert_l2_ok:
  "check_l2_type (lw_item_type w) \<Longrightarrow> check_visibility (lw_visibility w) \<Longrightarrow>
     l2_row_ok L (upsert_l2 L now w old)"
  by (simp add: upsert_l2_def l2_row_ok_def)

lemma write_l2_item_inv: "db_inv L d \<Longrightarrow> db_inv L (snd (write_l2_item L now d w))"
  unfolding write_l2_item_def
  by (rule exec_inv, assumption)
    (auto simp: hm_get_simps upsert_l2_ok inv_l2_row split: if_splits
      intro!: inv_l2_items hm_wf_intros inv_wf)

lemma delete_l2_item_inv: "db_inv L d \<Longrightarrow> db_inv L (snd (delete_l2_item d i))"
  unfolding delete_l2_item_def
  by (rule exec_inv, assumption)
    (auto simp: hm_get_simps inv_l2_row split: if_splits intro!: inv_l2_items hm_wf_intros inv_wf)

lemma write_group_inv: "db_inv L d \<Longrightarrow> db_inv L (snd (write_group now d i n c p))"
  unfolding write_group_def
  by (rule exec_inv, assumption, simp only: snd_conv,
      rule inv_groups_tab, assumption, blast intro: hm_wf_intros inv_wf)
    (auto simp: hm_get_simps dest: inv_member_group)

lemma write_group_signature_inv:
  "db_inv L d \<Longrightarrow> db_inv L (snd (write_group_signature d i ow pk sg))"
  unfolding write_group_signature_def
  by (rule exec_inv, assumption, simp only: snd_conv,
      rule inv_groups_tab, assumption, blast intro: hm_wf_intros inv_wf)
    (auto simp: hm_get_simps dest: inv_member_group)

lemma insert_l1_stub_inv:
  assumes "db_inv L d"
  shows "db_inv L (insert_l1_stub now e d)"
proof -
  have "db_inv L (d\<lparr>l1_hot := hm_insert e r (l1_hot d)\<rparr>)" for r
    using assms by (rule inv_l1_hot, blast intro: hm_wf_intros inv_wf assms)
      (auto simp: hm_get_simps dest: inv_member_l1 [OF assms])
  with assms show ?thesis by (simp add: insert_l1_stub_def split: option.split)
qed

lemma put_member_inv:
  assumes "db_inv L d" and "member_ok d k c"
  shows "db_inv L (d\<lparr>group_members := hm_insert k c (group_members d)\<rparr>)"
  using assms(1)
  by (rule inv_group_members, blast intro: hm_wf_intros inv_wf assms)
    (use assms(2) in \<open>auto simp: hm_get_simps inv_member [OF assms(1)] split: if_splits\<close>)

lemma set_posture_ok:
  "member_ok d k c \<Longrightarrow> check_posture p \<Longrightarrow> member_ok d k (c\<lparr>m_posture := p\<rparr>)"
  by (simp add: member_ok_def)

lemma set_role_ok: "member_ok d k c \<Longrightarrow> check_role r \<Longrightarrow> member_ok d k (c\<lparr>m_role := r\<rparr>)"
  by (simp add: member_ok_def)

lemma check_postures [simp]:
  "check_posture (Some ''active'')" "check_posture (Some ''removed'')"
  by (simp_all add: check_posture_def)

lemma upsert_member_inv:
  assumes inv: "db_inv L d"
  shows "db_inv L (snd (upsert_member now g e r d))"
proof (cases "hm_get (group_members d) (g, e)")
  case None
  have "member_ok d (g, e) \<lparr>m_role = r, m_posture = Some ''active'', m_joined_at = now\<rparr>"
    if "check_role r" "hm_get (groups_tab d) g \<noteq> None" "hm_get (l1_hot d) e \<noteq> None"
    using that by (simp add: member_ok_def)
  with None inv show ?thesis by (simp add: upsert_member_def put_member_inv)
next
  case (Some c)
  with inv have "member_ok d (g, e) c" by (rule inv_member)
  with Some inv show ?thesis
    by (simp add: upsert_member_def put_member_inv set_posture_ok set_role_ok)
qed

lemma add_member_inv: "db_inv L d \<Longrightarrow> db_inv L (snd (add_member now d g e r))"
  unfolding add_member_def Let_def
  by (intro exec_inv insert_l1_stub_inv upsert_member_inv)

lemma set_posture_inv:
  assumes "db_inv L d" and "check_posture (Some p)"
  shows "db_inv L
    (d\<lparr>group_members := hm_modify k (\<lambda>c. c\<lparr>m_posture := Some p\<rparr>) (group_members d)\<rparr>)"
  using assms(1)
  by (rule inv_group_members, blast intro: hm_wf_intros inv_wf assms)
    (auto simp: hm_get_simps assms set_posture_ok inv_member [OF assms(1)] split: if_splits)

lemma remove_member_inv: "db_inv L d \<Longrightarrow> db_inv L (snd (remove_member d g e))"
  unfolding remove_member_def
  by (rule exec_inv, assumption) (auto intro!: set_posture_inv split: option.split)

lemma update_member_posture_inv: "db_inv L d \<Longrightarrow> db_inv L (snd (update_member_posture d g e p))"
  unfolding update_member_posture_def
  by (rule exec_inv, assumption) (auto intro!: set_posture_inv split: option.split)

lemma retain_members_inv:
  assumes "db_inv L d"
  shows "db_inv L (d\<lparr>group_members := hm_retain P (group_members d)\<rparr>)"
  using assms
  by (rule inv_group_members, blast intro: hm_wf_retain inv_wf assms)
    (auto simp: hm_get_retain inv_wf [OF assms] inv_member [OF assms]
      split: option.splits if_splits)

lemma drop_groups_inv:
  assumes inv: "db_inv L d" and t: "hm_wf t"
    and gone: "\<And>g. hm_get t g = None \<Longrightarrow> P g \<or> hm_get (groups_tab d) g = None"
  shows "db_inv L
    (d\<lparr>group_members := hm_retain (\<lambda>k c. \<not> P (fst k)) (group_members d), groups_tab := t\<rparr>)"
proof (rule inv_groups_tab [OF retain_members_inv [OF inv] t])
  fix k c
  assume "hm_get (group_members
    (d\<lparr>group_members := hm_retain (\<lambda>k c. \<not> P (fst k)) (group_members d)\<rparr>)) k = Some c"
  then have m: "hm_get (group_members d) k = Some c" and nP: "\<not> P (fst k)"
    using inv_wf(4) [OF inv] by (simp_all add: hm_get_retain split: option.splits if_splits)
  have "hm_get (groups_tab d) (fst k) \<noteq> None" by (rule inv_member_group [OF inv m])
  with gone [of "fst k"] nP show "hm_get t (fst k) \<noteq> None" by argo
qed

lemma delete_group_inv:
  assumes "db_inv L d"
  shows "db_inv L (snd (delete_group d i))"
proof -
  have "db_inv L (d\<lparr>group_members := hm_retain (\<lambda>k c. \<not> fst k = i) (group_members d),
      groups_tab := hm_remove i (groups_tab d)\<rparr>)"
    using assms by (rule drop_groups_inv, blast intro: hm_wf_intros inv_wf assms)
      (simp add: hm_get_simps split: if_splits)
  then show ?thesis
    unfolding delete_group_def Let_def
    using assms by (intro exec_inv retain_members_inv) simp_all
qed

lemma purge_deleted_groups_inv:
  assumes inv: "db_inv L d"
  shows "db_inv L (snd (purge_deleted_groups ago d cul n))"
proof -
  let ?exp = "expired_tombstone cul (ago n)"
  let ?gone = "\<lambda>g. case hm_get (groups_tab d) g of Some c \<Rightarrow> ?exp c | None \<Rightarrow> False"
  have "db_inv L (d\<lparr>group_members := hm_retain (\<lambda>k c. \<not> ?gone (fst k)) (group_members d),
      groups_tab := hm_retain (\<lambda>i c. \<not> ?exp c) (groups_tab d)\<rparr>)"
    using inv hm_wf_retain [OF inv_wf(3) [OF inv]]
    by (rule drop_groups_inv) (simp add: hm_get_retain inv_wf(3) [OF inv] split: option.splits if_splits)
  then show ?thesis
    unfolding purge_deleted_groups_def Let_def
    using inv by (intro exec_inv retain_members_inv) simp_all
qed

lemma log_access_inv: "db_inv L d \<Longrightarrow> db_inv L (snd (log_access d a))"
  unfolding log_access_def by (rule exec_inv) simp_all

lemma write_l2_index_inv: "db_inv L d \<Longrightarrow> db_inv L (snd (write_l2_index d b))"
  unfolding write_l2_index_def by (rule exec_inv) simp_all

lemma put_device_inv:
  assumes "db_inv L d" and "devices d = Some t" and "check_device_type (d_device_type c)"
  shows "db_inv L (d\<lparr>devices := Some (hm_insert i c t)\<rparr>)"
  using assms(1)
  by (rule inv_devices, use inv_device_table(1) [OF assms(1,2)] in \<open>blast intro: hm_wf_intros\<close>)
    (use assms(3) inv_device_table(2) [OF assms(1,2)] in \<open>auto simp: hm_get_simps split: if_splits\<close>)

lemma register_device_inv: "db_inv L d \<Longrightarrow> db_inv L (snd (register_device now d v))"
  unfolding register_device_def
  by (rule exec_inv, assumption, rule with_devices_inv, assumption)
    (auto intro!: put_device_inv split: option.split)

lemma modify_device_inv:
  assumes "db_inv L d" and "devices d = Some t"
  shows "db_inv L (d\<lparr>devices := Some (hm_modify i (\<lambda>c. c\<lparr>d_revoked_at := r\<rparr>) t)\<rparr>)"
  using assms(1)
  by (rule inv_devices, use inv_device_table(1) [OF assms] in \<open>blast intro: hm_wf_intros\<close>)
    (use inv_device_table(2) [OF assms] in \<open>auto simp: hm_get_simps split: if_splits\<close>)

lemma revoke_device_inv: "db_inv L d \<Longrightarrow> db_inv L (snd (revoke_device now d e i))"
  unfolding revoke_device_def
  by (rule exec_inv, assumption, rule with_devices_inv, assumption)
    (auto intro!: modify_device_inv split: option.split)

lemmas db_op_invs =
  write_l1_inv delete_l1_inv write_l2_item_inv delete_l2_item_inv write_group_inv
  write_group_signature_inv add_member_inv remove_member_inv update_member_posture_inv
  delete_group_inv purge_deleted_groups_inv log_access_inv write_l2_index_inv
  register_device_inv revoke_device_inv

lemma db_step_inv: "db_inv L d \<Longrightarrow> db_inv L (db_step L d c)"
  by (cases c) (simp_all add: db_op_invs)

interpretation dbm: op_machine "db_step L" "db_inv L" for L
  by unfold_locales (rule db_step_inv)

section \<open>Integrity\<close>

lemma fresh_db_inv: "db_inv L (db_of_schema s)"
  by (simp add: db_inv_defs db_of_schema_def hm_wf_def)

text \<open>
  C1. Starting from an empty database, every sequence of storage operations, interleaved with
  arbitrary failures of SQL statements, leaves a database in which primary keys are unique,
  every CHECK and FOREIGN KEY constraint of the schema holds, and the checksum column of every
  L2 row is the SHA-256 of its data.
\<close>

theorem storage_integrity: "db_inv L (foldl (db_step L) (db_of_schema s) cs)"
  by (rule dbm.run_inv [OF fresh_db_inv])

section \<open>L2 items\<close>

lemma read_after_write:
  assumes "db_fault d OpReadL2 = None" and "write_l2_item L now d w = (Ok (), d')"
  shows "read_l2_item d' j =
    (if j = lw_id w
     then Ok (Some (row_of_l2 j (upsert_l2 L now w (hm_get (l2_items d) j))))
     else read_l2_item d j)"
  using assms
  by (auto simp: write_l2_item_def read_l2_item_def exec_def query_def hm_get_simps
      split: option.splits if_splits)

text \<open>
  Writing an L2 item and reading it back returns the fields that were written, with the
  SHA-256 checksum of the data, the given timestamp (or the present one) and, for an item that
  existed, its creation time and access count; reading any other item is unaffected.
\<close>

theorem l2_write_read_roundtrip:
  assumes "db_fault d OpReadL2 = None" and "write_l2_item L now d w = (Ok (), d')"
  shows "\<exists>r. read_l2_item d' (lw_id w) = Ok (Some r) \<and>
      lr_id r = lw_id w \<and> lr_item_type r = lw_item_type w \<and> lr_owner_id r = lw_owner_id w \<and>
      lr_visibility r = lw_visibility w \<and> lr_data r = lw_data w \<and>
      lr_checksum r = Some (storage_checksum L (lw_data w)) \<and>
      lr_group_id r = lw_group_id w \<and> lr_author_id r = lw_author_id w \<and>
      lr_key_version r = lw_key_version w \<and> lr_parent_id r = lw_parent_id w \<and>
      lr_is_copy r = lw_is_copy w \<and>
      lr_updated_at r = (case lw_updated_at w of Some t \<Rightarrow> t | None \<Rightarrow> now) \<and>
      (\<forall>old. read_l2_item d (lw_id w) = Ok (Some old) \<longrightarrow>
         lr_created_at r = lr_created_at old \<and> lr_access_count r = lr_access_count old) \<and>
      (\<forall>j. j \<noteq> lw_id w \<longrightarrow> read_l2_item d' j = read_l2_item d j)"
proof (intro exI conjI allI impI)
  let ?r = "row_of_l2 (lw_id w) (upsert_l2 L now w (hm_get (l2_items d) (lw_id w)))"
  show "read_l2_item d' (lw_id w) = Ok (Some ?r)"
    by (simp add: read_after_write [OF assms])
  show "read_l2_item d' j = read_l2_item d j" if "j \<noteq> lw_id w" for j
    using that by (simp add: read_after_write [OF assms])
qed (auto simp: row_of_l2_def upsert_l2_def result_defs read_l2_item_def query_def
      split: option.splits)

definition L_w :: crypto_lib where
  "L_w =
     \<lparr>lib_sha256 = (\<lambda>b. [of_nat (length b), foldl (+) 0 b]),
      lib_hex_encode = map (\<lambda>b. char_of (unat b mod 128)), lib_hex_decode = (\<lambda>s. Some (as_bytes s)),
      lib_ed25519_verify = (\<lambda>pk m s. s = pk @ m)\<rparr>"

definition item_w :: l2_item_write where
  "item_w =
     \<lparr>lw_id = ''i1'', lw_item_type = ''learning'', lw_data = [1, 2, 3], lw_owner_id = None,
      lw_visibility = ''group'', lw_group_id = Some ''g1'', lw_author_id = Some ''alice'',
      lw_key_version = 1, lw_parent_id = None, lw_is_copy = True,
      lw_updated_at = Some ''2026-01-02''\<rparr>"

definition db_w :: db where
  "db_w = db_of_schema (empty_schema\<lparr>sc_devices := True\<rparr>)"

theorem l2_write_read_roundtrip_witness:
  "\<exists>r. read_l2_item (snd (write_l2_item L_w ''now'' db_w item_w)) ''i1'' = Ok (Some r) \<and>
     lr_data r = [1, 2, 3] \<and> lr_updated_at r = ''2026-01-02''"
proof -
  have w: "write_l2_item L_w ''now'' db_w item_w =
      (Ok (), snd (write_l2_item L_w ''now'' db_w item_w))" and f: "db_fault db_w OpReadL2 = None"
    by (simp_all add: write_l2_item_def item_w_def db_w_def db_of_schema_def schema_checks)
  show ?thesis
    using l2_write_read_roundtrip [OF f w] by (auto simp: item_w_def)
qed

text \<open>The rows a listing draws from, in the order it returns them.\<close>

definition group_rows :: "db \<Rightarrow> string \<Rightarrow> string option \<Rightarrow> (string \<times> l2_cols) list" where
  "group_rows d g since =
     sort_key (\<lambda>(i, c). l2_updated_at c)
       (filter (\<lambda>(i, c). l2_group_id c = Some g \<and> since_ok since (l2_updated_at c)) (l2_items d))"

lemma list_group_items_rows:
  "list_group_items d g since limit =
     query d OpListGroupItems (map header_of_l2 (take (unat limit) (group_rows d g since)))"
  by (simp add: list_group_items_def group_rows_def)

lemma group_rows_iff:
  assumes "db_inv L d"
  shows "(i, c) \<in> set (group_rows d g since) \<longleftrightarrow>
    hm_get (l2_items d) i = Some c \<and> l2_group_id c = Some g \<and> since_ok since (l2_updated_at c)"
  using inv_wf(2) [OF assms] by (auto simp: group_rows_def hm_get_iff)

lemma group_rows_distinct:
  assumes "db_inv L d"
  shows "distinct (map fst (group_rows d g since))"
  unfolding group_rows_def
proof (rule mset_eq_imp_distinct_iff [THEN iffD2])
  let ?rows = "filter (\<lambda>(i, c). l2_group_id c = Some g \<and> since_ok since (l2_updated_at c)) (l2_items d)"
  show "mset (map fst (sort_key (\<lambda>(i, c). l2_updated_at c) ?rows)) = mset (map fst ?rows)"
    by (simp only: mset_map mset_sort)
  show "distinct (map fst ?rows)"
    using inv_wf(2) [OF assms] unfolding hm_wf_def by (rule distinct_map_filter)
qed

lemma group_rows_sorted: "sorted (map (\<lambda>(i, c). l2_updated_at c) (group_rows d g since))"
  by (simp add: group_rows_def)

lemma header_of_l2_simps [simp]:
  "ih_item_id (header_of_l2 r) = fst r" "ih_updated_at (header_of_l2 r) = l2_updated_at (snd r)"
  by (simp_all add: header_of_l2_def split: prod.split)

lemma sorted_take_le:
  assumes "sorted (map f xs)" and "x \<in> set (take n xs)" and "y \<in> set xs" and "y \<notin> set (take n xs)"
  shows "f x \<le> f y"
proof -
  from assms(3) have "y \<in> set (take n xs @ drop n xs)" by simp
  with assms(4) have "y \<in> set (drop n xs)" unfolding set_append by blast
  moreover have "sorted (map f (take n xs) @ map f (drop n xs))"
    using assms(1) unfolding map_append [symmetric] append_take_drop_id .
  ultimately show ?thesis using assms(2) by (auto simp: sorted_append)
qed

text \<open>
  A group listing returns the headers of items of that group that are newer than the cursor,
  each once, in timestamp order and at most as many as the limit; and it skips nothing: an item
  of the group newer than the cursor is either listed or the page is full of items that are not
  newer than it.
\<close>

theorem list_group_items_page:
  assumes inv: "db_inv L d" and r: "list_group_items d g since limit = Ok hs"
  shows "sorted (map ih_updated_at hs) \<and> distinct (map ih_item_id hs) \<and> length hs \<le> unat limit \<and>
    (\<forall>h\<in>set hs. \<exists>c. hm_get (l2_items d) (ih_item_id h) = Some c \<and> l2_group_id c = Some g \<and>
       since_ok since (l2_updated_at c) \<and> h = header_of_l2 (ih_item_id h, c)) \<and>
    (\<forall>i c. hm_get (l2_items d) i = Some c \<and> l2_group_id c = Some g \<and>
       since_ok since (l2_updated_at c) \<longrightarrow>
       i \<in> ih_item_id ` set hs \<or>
       length hs = unat limit \<and> (\<forall>h\<in>set hs. ih_updated_at h \<le> l2_updated_at c))"
proof -
  let ?rs = "group_rows d g since" and ?n = "unat limit"
  let ?ts = "\<lambda>(i, c). l2_updated_at c"
  from r have hs: "hs = map header_of_l2 (take ?n ?rs)"
    by (simp add: list_group_items_rows query_def split: option.splits)
  have "map ih_updated_at hs = take ?n (map ?ts ?rs)"
    by (simp add: hs take_map comp_def split_def)
  then have 1: "sorted (map ih_updated_at hs)" by (simp add: group_rows_sorted sorted_wrt_take)
  have "map ih_item_id hs = take ?n (map fst ?rs)" by (simp add: hs take_map comp_def)
  then have 2: "distinct (map ih_item_id hs)" by (simp add: group_rows_distinct [OF inv])
  have 3: "\<exists>c. hm_get (l2_items d) (ih_item_id h) = Some c \<and> l2_group_id c = Some g \<and>
      since_ok since (l2_updated_at c) \<and> h = header_of_l2 (ih_item_id h, c)" if "h \<in> set hs" for h
  proof -
    from that obtain i c where h: "h = header_of_l2 (i, c)" and "(i, c) \<in> set (take ?n ?rs)"
      unfolding hs by auto
    then have "(i, c) \<in> set ?rs" by (blast dest: in_set_takeD)
    with group_rows_iff [OF inv] h show ?thesis by simp
  qed
  have 4: "i \<in> ih_item_id ` set hs \<or>
      length hs = ?n \<and> (\<forall>h\<in>set hs. ih_updated_at h \<le> l2_updated_at c)"
    if "hm_get (l2_items d) i = Some c \<and> l2_group_id c = Some g \<and> since_ok since (l2_updated_at c)"
    for i c
  proof (cases "(i, c) \<in> set (take ?n ?rs)")
    case True
    then have "header_of_l2 (i, c) \<in> set hs" unfolding hs set_map by (rule imageI)
    then show ?thesis by (metis header_of_l2_simps(1) fst_conv image_eqI)
  next
    case False
    have mem: "(i, c) \<in> set ?rs" using that group_rows_iff [OF inv] by blast
    with False have "?n < length ?rs" by (intro ccontr [of "?n < length ?rs"]) simp
    moreover have "?ts x \<le> l2_updated_at c" if "x \<in> set (take ?n ?rs)" for x
      using sorted_take_le [OF group_rows_sorted that mem False] by simp
    ultimately show ?thesis by (auto simp: hs split_def)
  qed
  have 5: "length hs \<le> ?n" by (simp add: hs)
  have 6: "\<forall>h\<in>set hs. \<exists>c. hm_get (l2_items d) (ih_item_id h) = Some c \<and> l2_group_id c = Some g \<and>
      since_ok since (l2_updated_at c) \<and> h = header_of_l2 (ih_item_id h, c)"
    by (rule ballI) (rule 3)
  from 1 2 5 6 show ?thesis by (intro conjI allI impI) (assumption | rule 4)+
qed

definition db_items_w :: db where
  "db_items_w =
     snd (write_l2_item L_w ''t'' (snd (write_l2_item L_w ''t'' db_w item_w))
       (item_w\<lparr>lw_id := ''i2'', lw_updated_at := Some ''2026-01-01''\<rparr>))"

lemma db_items_w_eval:
  "map fst (l2_items db_items_w) = [''i1'', ''i2'']" "db_fault db_items_w = (\<lambda>_. None)"
  "db_inv L_w db_items_w"
  by (simp_all add: db_items_w_def write_l2_item_def item_w_def db_w_def db_of_schema_def
      schema_checks upsert_l2_def db_inv_defs hm_wf_def l2_row_ok_def)

theorem list_group_items_page_witness:
  "\<exists>hs. list_group_items db_items_w ''g1'' None 1 = Ok hs \<and> length hs \<le> 1 \<and>
     sorted (map ih_updated_at hs) \<and> hs \<noteq> []"
proof -
  have "list_group_items db_items_w ''g1'' None 1 \<noteq> Ok []"
    by (simp add: list_group_items_def db_items_w_def write_l2_item_def item_w_def db_w_def
        db_of_schema_def schema_checks upsert_l2_def since_ok_def)
  moreover obtain hs where r: "list_group_items db_items_w ''g1'' None 1 = Ok hs"
    by (simp add: list_group_items_def db_items_w_eval)
  ultimately show ?thesis
    using list_group_items_page [OF db_items_w_eval(3) r] by auto
qed

section \<open>Members\<close>

lemma add_member_ok:
  assumes "add_member now d g e r = (Ok (), d')"
  shows "db_fault d' = db_fault d"
    "hm_get (group_members d') (g, e) =
       Some (case hm_get (group_members d) (g, e) of
               Some c \<Rightarrow> c\<lparr>m_role := r, m_posture := Some ''active''\<rparr>
             | None \<Rightarrow> \<lparr>m_role = r, m_posture = Some ''active'', m_joined_at = now\<rparr>)"
  using assms
  by (auto simp: add_member_def upsert_member_def insert_l1_stub_def exec_def Let_def hm_get_simps
      split: option.splits if_splits)

lemma remove_member_ok:
  assumes "remove_member d g e = (Ok b, d')"
  shows "db_fault d' = db_fault d"
    "hm_get (group_members d') (g, e) =
       map_option (\<lambda>c. if b then c\<lparr>m_posture := Some ''removed''\<rparr> else c)
         (hm_get (group_members d) (g, e))"
    "get_membership d' g e = query d' OpGetMembership None"
  using assms
  by (auto simp: remove_member_def get_membership_def posture_not_removed_def exec_def hm_get_simps
      split: option.splits if_splits)

text \<open>
  Membership is a soft-delete cycle: after adding a member it is reported with the role it
  was added with; after removing it, it is not a member of the group, and its row is kept;
  adding it again makes it an active member with the new role and the date it first joined.
\<close>

theorem membership_cycle:
  assumes "db_fault d = (\<lambda>_. None)"
    and "add_member t1 d g e r1 = (Ok (), d1)"
    and "remove_member d1 g e = (Ok True, d2)"
    and "add_member t2 d2 g e r2 = (Ok (), d3)"
  shows "(\<exists>m. get_membership d1 g e = Ok (Some m) \<and> gm_role m = r1 \<and> gm_posture m = Some ''active'') \<and>
    get_membership d2 g e = Ok None \<and> hm_get (group_members d2) (g, e) \<noteq> None \<and>
    (\<exists>m m1. get_membership d3 g e = Ok (Some m) \<and> get_membership d1 g e = Ok (Some m1) \<and>
       gm_role m = r2 \<and> gm_posture m = Some ''active'' \<and> gm_joined_at m = gm_joined_at m1)"
  using assms(1) add_member_ok [OF assms(2)] remove_member_ok [OF assms(3)]
    add_member_ok [OF assms(4)]
  by (cases "hm_get (group_members d) (g, e)")
    (simp_all add: get_membership_def posture_not_removed_def row_of_member_def)

theorem membership_cycle_witness:
  "let d0 = snd (write_group ''t'' db_w ''g1'' ''n'' ''{}'' ''{}'');
       d1 = snd (add_member ''t1'' d0 ''g1'' ''alice'' ''member'');
       d2 = snd (remove_member d1 ''g1'' ''alice'')
   in get_membership d2 ''g1'' ''alice'' = Ok None"
proof -
  let ?d0 = "snd (write_group ''t'' db_w ''g1'' ''n'' ''{}'' ''{}'')"
  let ?d1 = "snd (add_member ''t1'' ?d0 ''g1'' ''alice'' ''member'')"
  let ?d2 = "snd (remove_member ?d1 ''g1'' ''alice'')"
  let ?d3 = "snd (add_member ''t2'' ?d2 ''g1'' ''alice'' ''admin'')"
  note evals = write_group_def add_member_def upsert_member_def insert_l1_stub_def remove_member_def
    db_w_def db_of_schema_def check_role_def posture_not_removed_def hm_modify_def
  have "db_fault ?d0 = (\<lambda>_. None)" "add_member ''t1'' ?d0 ''g1'' ''alice'' ''member'' = (Ok (), ?d1)"
    "remove_member ?d1 ''g1'' ''alice'' = (Ok True, ?d2)"
    "add_member ''t2'' ?d2 ''g1'' ''alice'' ''admin'' = (Ok (), ?d3)"
    by (simp_all add: evals)
  then show ?thesis unfolding Let_def using membership_cycle by blast
qed

section \<open>Devices\<close>

definition revoked :: "string \<Rightarrow> db \<Rightarrow> bool" where
  "revoked i d \<longleftrightarrow>
     (\<exists>t c. devices d = Some t \<and> hm_get t i = Some c \<and> d_revoked_at c \<noteq> None)"

lemma devices_frame [simp]:
  "devices (snd (write_l1 now d u b)) = devices d"
  "devices (snd (delete_l1 d u)) = devices d"
  "devices (snd (write_l2_item L now d w)) = devices d"
  "devices (snd (delete_l2_item d i)) = devices d"
  "devices (snd (write_group now d i n cu p)) = devices d"
  "devices (snd (write_group_signature d i ow pk sg)) = devices d"
  "devices (snd (remove_member d g e)) = devices d"
  "devices (snd (update_member_posture d g e po)) = devices d"
  "devices (snd (log_access d a)) = devices d"
  "devices (snd (write_l2_index d b)) = devices d"
  by (simp_all add: write_l1_def delete_l1_def write_l2_item_def delete_l2_item_def write_group_def
      write_group_signature_def remove_member_def update_member_posture_def log_access_def
      write_l2_index_def exec_def split: option.split)

lemma devices_frame2 [simp]:
  "devices (snd (add_member now d g e r)) = devices d"
  "devices (snd (delete_group d i)) = devices d"
  "devices (snd (purge_deleted_groups ago d cu n)) = devices d"
  by (simp_all add: add_member_def upsert_member_def insert_l1_stub_def delete_group_def
      purge_deleted_groups_def exec_def Let_def split: option.split)

lemma register_device_revoked: "revoked i d \<Longrightarrow> revoked i (snd (register_device now d v))"
  by (auto simp: revoked_def register_device_def with_devices_def exec_def hm_get_simps
      split: option.split)

lemma revoke_device_revoked: "revoked i d \<Longrightarrow> revoked i (snd (revoke_device now d e j))"
  by (auto simp: revoked_def revoke_device_def with_devices_def exec_def hm_get_simps
      split: option.split)

lemma db_step_revoked: "revoked i d \<Longrightarrow> revoked i (db_step L d c)"
  by (cases c) (simp_all add: register_device_revoked revoke_device_revoked, simp_all add: revoked_def)

interpretation dbr: op_machine "db_step L" "\<lambda>d. db_inv L d \<and> revoked i d" for L i
  by unfold_locales (simp add: db_step_inv db_step_revoked)

lemma revoked_not_found:
  assumes "db_inv L d" and "revoked i d" and "get_device_by_token_hash d h = Ok (Some v)"
  shows "dv_device_id v \<noteq> i"
proof
  assume i: "dv_device_id v = i"
  from assms(2) obtain t c where t: "devices d = Some t" "hm_get t i = Some c" "d_revoked_at c \<noteq> None"
    by (auto simp: revoked_def)
  from assms(3) t(1) obtain j c' where f: "(j, c') \<in> set t" "d_revoked_at c' = None"
      and v: "v = row_of_device j c'"
    by (auto simp: get_device_by_token_hash_def query_def find_Some_iff split: option.splits)
      (metis nth_mem)
  from v i have "j = i" by (simp add: row_of_device_def)
  with f t inv_device_table(1) [OF assms(1) t(1)] show False by (auto simp flip: hm_get_iff)
qed

text \<open>
  C5. Revocation is permanent: once a device has been revoked, no later sequence of storage
  operations (registering the same device id again included) makes a token lookup return it.
\<close>

theorem revocation_permanent:
  assumes "db_inv L d" and "revoke_device now d e i = (Ok True, d')"
    and "get_device_by_token_hash (foldl (db_step L) d' cs) h = Ok (Some v)"
  shows "dv_device_id v \<noteq> i"
proof -
  from assms(2) have "revoked i d'"
    by (auto simp: revoke_device_def revoked_def with_devices_def exec_def hm_get_simps
        split: option.splits if_splits)
  moreover have "db_inv L d'" using revoke_device_inv [OF assms(1), of now e i] assms(2) by simp
  ultimately have "db_inv L (foldl (db_step L) d' cs) \<and> revoked i (foldl (db_step L) d' cs)"
    by (intro dbr.run_inv conjI)
  with assms(3) show ?thesis by (blast dest: revoked_not_found)
qed

definition device_w :: device_row where
  "device_w =
     \<lparr>dv_device_id = ''dev1'', dv_entity_id = ''alice'', dv_device_name = None,
      dv_device_type = ''node'', dv_auth_token_hash = ''h1'', dv_created_at = ''t0'',
      dv_last_seen_at = None, dv_revoked_at = None\<rparr>"

theorem revocation_permanent_witness:
  "let d2 = snd (register_device ''t'' (snd (register_device ''t'' db_w device_w))
              (device_w\<lparr>dv_device_id := ''dev2'', dv_auth_token_hash := ''h2''\<rparr>));
       d3 = snd (revoke_device ''t'' d2 ''alice'' ''dev1'');
       d4 = foldl (db_step L_w) d3 [CRegisterDevice ''t'' device_w]
   in \<exists>v. get_device_by_token_hash d4 ''h2'' = Ok (Some v) \<and> dv_device_id v \<noteq> ''dev1''"
proof -
  let ?d2 = "snd (register_device ''t'' (snd (register_device ''t'' db_w device_w))
              (device_w\<lparr>dv_device_id := ''dev2'', dv_auth_token_hash := ''h2''\<rparr>))"
  let ?d3 = "snd (revoke_device ''t'' ?d2 ''alice'' ''dev1'')"
  let ?cs = "[CRegisterDevice ''t'' device_w]"
  note evals = register_device_def revoke_device_def with_devices_def device_w_def db_w_def
    db_of_schema_def check_device_type_def hm_modify_def get_device_by_token_hash_def
    row_of_device_def
  have inv: "db_inv L_w ?d2"
    by (intro register_device_inv) (simp add: db_w_def fresh_db_inv)
  have r: "revoke_device ''t'' ?d2 ''alice'' ''dev1'' = (Ok True, ?d3)" by (simp add: evals)
  obtain v where v: "get_device_by_token_hash (foldl (db_step L_w) ?d3 ?cs) ''h2'' = Ok (Some v)"
    by (simp add: evals)
  from v revocation_permanent [OF inv r v] show ?thesis unfolding Let_def by blast
qed

section \<open>Garbage collection of deleted groups\<close>

text \<open>
  Purging tombstoned groups removes exactly the groups whose culture is the tombstone and
  whose last update is before the cutoff, together with all their memberships; every other
  group and membership, and every other table, is unchanged; and the number reported is the
  number of groups removed.
\<close>

theorem purge_deleted_groups_exact:
  assumes inv: "db_inv L d" and r: "purge_deleted_groups ago d cul days = (Ok n, d')"
  shows "let gone = (\<lambda>g. \<exists>c. hm_get (groups_tab d) g = Some c \<and> g_culture c = cul \<and>
                          g_updated_at c < ago days)
    in (\<forall>g. hm_get (groups_tab d') g = (if gone g then None else hm_get (groups_tab d) g)) \<and>
       (\<forall>g e. hm_get (group_members d') (g, e) =
          (if gone g then None else hm_get (group_members d) (g, e))) \<and>
       n = of_nat (length (groups_tab d) - length (groups_tab d')) \<and>
       l2_items d' = l2_items d \<and> l1_hot d' = l1_hot d \<and> devices d' = devices d"
proof -
  let ?exp = "expired_tombstone cul (ago days)"
  let ?gone = "\<lambda>g. case hm_get (groups_tab d) g of Some c \<Rightarrow> ?exp c | None \<Rightarrow> False"
  have gone: "?gone g \<longleftrightarrow> (\<exists>c. hm_get (groups_tab d) g = Some c \<and> g_culture c = cul \<and>
      g_updated_at c < ago days)" for g
    by (simp add: expired_tombstone_def split: option.split)
  from r have d': "d' = d\<lparr>group_members := hm_retain (\<lambda>k c. \<not> ?gone (fst k)) (group_members d),
      groups_tab := hm_retain (\<lambda>i c. \<not> ?exp c) (groups_tab d)\<rparr>"
    and n: "n = of_nat (length (filter (\<lambda>(i, c). ?exp c) (groups_tab d)))"
    by (auto simp: purge_deleted_groups_def exec_def Let_def split: option.splits)
  have "length (groups_tab d) - length (groups_tab d') = length (filter (\<lambda>(i, c). ?exp c) (groups_tab d))"
    using sum_length_filter_compl [of "\<lambda>(i, c). ?exp c" "groups_tab d"]
    by (simp add: d' hm_retain_def split_def)
  moreover have "hm_get (groups_tab d') g = (if ?gone g then None else hm_get (groups_tab d) g)" for g
    using inv_wf(3) [OF inv] by (simp add: d' hm_get_retain split: option.split)
  moreover have "hm_get (group_members d') (g, e) =
      (if ?gone g then None else hm_get (group_members d) (g, e))" for g e
    using inv_wf(4) [OF inv] by (simp add: d' hm_get_retain split: option.split)
  ultimately show ?thesis unfolding Let_def gone [symmetric] by (simp add: n d')
qed

definition db_purge_w :: db where
  "db_purge_w =
     snd (write_group ''2026-03-01'' (snd (write_group ''2026-01-01'' db_w ''g1'' ''n'' ''TOMB'' ''{}''))
       ''g2'' ''n'' ''TOMB'' ''{}'')"

theorem purge_deleted_groups_exact_witness:
  "\<exists>d'. purge_deleted_groups (\<lambda>_. ''2026-02-01'') db_purge_w ''TOMB'' 7 = (Ok 1, d') \<and>
     hm_get (groups_tab d') ''g1'' = None \<and> hm_get (groups_tab d') ''g2'' \<noteq> None"
proof -
  have inv: "db_inv L_w db_purge_w"
    by (simp add: db_purge_w_def db_w_def write_group_inv fresh_db_inv)
  obtain d' where r: "purge_deleted_groups (\<lambda>_. ''2026-02-01'') db_purge_w ''TOMB'' 7 = (Ok 1, d')"
    by (simp add: purge_deleted_groups_def db_purge_w_def write_group_def db_w_def db_of_schema_def
        expired_tombstone_def Let_def)
  have "\<exists>c. hm_get (groups_tab db_purge_w) ''g1'' = Some c \<and> g_culture c = ''TOMB'' \<and>
      g_updated_at c < ''2026-02-01''"
    "\<exists>c. hm_get (groups_tab db_purge_w) ''g2'' = Some c \<and> \<not> g_updated_at c < ''2026-02-01''"
    by (simp_all add: db_purge_w_def write_group_def db_w_def db_of_schema_def)
  with purge_deleted_groups_exact [OF inv r] r show ?thesis by (auto simp: Let_def)
qed

section \<open>Full-text queries\<close>

text \<open>
  How FTS5 reads an expression that consists of string tokens only: a string is enclosed in
  double quotes, a doubled quote inside it stands for one quote. Anything else (a bare word, an
  operator, a column filter, an unterminated string) gives \<^const>\<open>None\<close>.
\<close>

fun read_phrases :: "unicode list option \<Rightarrow> unicode list \<Rightarrow> unicode list list option" where
  "read_phrases None [] = Some []"
| "read_phrases (Some acc) [] = None"
| "read_phrases None (c # cs) =
     (if c = quote_char then read_phrases (Some []) cs
      else if c = 32 then read_phrases None cs else None)"
| "read_phrases (Some acc) (c # cs) =
     (if c \<noteq> quote_char then read_phrases (Some (acc @ [c])) cs
      else case cs of
             d # ds \<Rightarrow>
               if d = quote_char then read_phrases (Some (acc @ [quote_char])) ds
               else map_option ((#) acc) (read_phrases None cs)
           | [] \<Rightarrow> Some [acc])"

lemma read_phrases_string:
  assumes "quote_char \<notin> set w" and "rest = [] \<or> hd rest \<noteq> quote_char"
  shows "read_phrases (Some acc) (w @ quote_char # rest) =
    map_option ((#) (acc @ w)) (read_phrases None rest)"
  using assms by (induction w arbitrary: acc) (auto split: list.split)

lemma read_phrases_quote_token:
  assumes "rest = [] \<or> hd rest \<noteq> quote_char"
  shows "read_phrases None (quote_token t @ rest) =
    map_option ((#) (filter (\<lambda>c. c \<noteq> quote_char) t)) (read_phrases None rest)"
  using read_phrases_string [of "filter (\<lambda>c. c \<noteq> quote_char) t" rest "[]"] assms
  by (simp add: quote_token_def)

lemma read_phrases_join:
  "read_phrases None (join_space (map quote_token ts)) = Some (map (filter (\<lambda>c. c \<noteq> quote_char)) ts)"
proof (induction ts rule: induct_list012)
  case (2 t)
  then show ?case using read_phrases_quote_token [of "[]" t] by simp
next
  case (3 t u ts)
  then show ?case
    using read_phrases_quote_token [of "32 # join_space (map quote_token (u # ts))" t] by simp
qed simp

lemma split_words_nonempty: "[] \<notin> set (split_words acc cs)"
  by (induction acc cs rule: split_words.induct) auto

lemma split_words_concat: "concat (split_words acc cs) = acc @ filter (\<lambda>c. \<not> is_whitespace c) cs"
  by (induction acc cs rule: split_words.induct) auto

text \<open>
  Sanitising a full-text query is injection-free and loses no word: FTS5 reads the
  sanitised query as a sequence of string literals only, one for each word of the input with
  its quotes dropped, and the words are all the characters of the query other than whitespace,
  in order.
\<close>

theorem safe_query_literals:
  "read_phrases None (safe_query q) = Some (map (filter (\<lambda>c. c \<noteq> quote_char)) (split_whitespace q)) \<and>
   concat (split_whitespace q) = filter (\<lambda>c. \<not> is_whitespace c) q \<and> [] \<notin> set (split_whitespace q)"
proof -
  have "filter (\<lambda>t. t \<noteq> []) (split_whitespace q) = split_whitespace q"
    using split_words_nonempty [of "[]" q]
    by (auto simp: split_whitespace_def filter_id_conv)
  then show ?thesis
    by (simp add: safe_query_def read_phrases_join)
      (simp add: split_whitespace_def split_words_concat split_words_nonempty)
qed

section \<open>Migrations\<close>

lemma ensure_schema_fresh:
  "ensure_schema empty_schema =
     Ok \<lparr>sc_base = True, sc_version = Some 7, sc_devices = False, sc_owner_cols = True,
         sc_removed_posture = True\<rparr>"
  by (simp add: ensure_schema_def empty_schema_def run_schema_v4_def run_schema_v7_def
      bump_version_def unwrap_or_def Let_def)


text \<open>
  Opening a database that another version created at schema 4 or 5 or 6 or 7 succeeds, ends at
  version 7 with soft-removal and group ownership available, and is idempotent; an older
  database is refused with the version found.
\<close>

theorem ensure_schema_migrates:
  assumes "sc_base s" and "sc_version s = Some v" and "6 \<le> v \<longrightarrow> sc_owner_cols s"
    and "7 \<le> v \<longrightarrow> sc_removed_posture s" and "v \<le> 7"
  shows "if v < 4 then ensure_schema s = Err (SchemaVersionMismatch 4 v)
    else \<exists>s'. ensure_schema s = Ok s' \<and> sc_version s' = Some 7 \<and> sc_owner_cols s' \<and>
      sc_removed_posture s' \<and> (v = 4 \<longrightarrow> sc_devices s') \<and> ensure_schema s' = Ok s'"
proof -
  have "v < 4 \<or> v = 4 \<or> v = 5 \<or> v = 6 \<or> v = 7" using assms(5) by unat_arith
  then show ?thesis
    using assms
    by (elim disjE)
      (auto simp: ensure_schema_def unwrap_or_def Let_def run_schema_v5_def run_schema_v6_def
        run_schema_v7_def bump_version_def)
qed

theorem ensure_schema_migrates_witness:
  "\<exists>s'. ensure_schema \<lparr>sc_base = True, sc_version = Some 4, sc_devices = False,
      sc_owner_cols = False, sc_removed_posture = False\<rparr> = Ok s' \<and> sc_devices s'"
  using ensure_schema_migrates [of "\<lparr>sc_base = True, sc_version = Some 4, sc_devices = False,
      sc_owner_cols = False, sc_removed_posture = False\<rparr>" 4] by auto

end
