(* ===== verification/Replication.thy ===== *)
theory Replication
  imports Storage_Props
begin

text \<open>
  The replication engine (\<^verbatim>\<open>cordelia-replication\<close>): cultures and strategies, checksums,
  the comparison of headers, what a local write sends, and \<open>on_receive\<close>, through which
  every item from the network reaches the storage.

  \<open>on_receive\<close> takes a \<open>&dyn Storage\<close>: here a record of the four methods it calls.
  The locale \<open>item_replica\<close> states what it relies on; under these laws the engine refines
  an abstract last-writer-wins map, and the locale is interpreted on the SQLite storage.
\<close>

section \<open>Strategies and cultures\<close>

datatype replication_strategy = EagerPush | Passive

definition sync_interval_secs :: "replication_strategy \<Rightarrow> u64 \<Rightarrow> u64 option" where
  "sync_interval_secs st taciturn_secs =
     (case st of EagerPush \<Rightarrow> Some EAGER_PUSH_INTERVAL_SECS | Passive \<Rightarrow> Some taciturn_secs)"

record replication_config =
  rc_sync_interval_taciturn_secs :: u64
  rc_tombstone_retention_days :: u32
  rc_max_batch_size :: u32

definition default_replication_config :: replication_config where
  "default_replication_config =
     \<lparr>rc_sync_interval_taciturn_secs = SYNC_INTERVAL_TACITURN_SECS,
      rc_tombstone_retention_days = TOMBSTONE_RETENTION_DAYS,
      rc_max_batch_size = MAX_BATCH_SIZE\<rparr>"

record group_culture =
  gc_broadcast_eagerness :: string
  gc_ttl_default :: "u64 option"
  gc_notification_policy :: "string option"
  gc_departure_policy :: "string option"

definition default_eagerness :: string where
  "default_eagerness = ''chatty''"

definition strategy :: "group_culture \<Rightarrow> replication_strategy" where
  "strategy c =
     (let e = gc_broadcast_eagerness c
      in if e = ''chatty'' \<or> e = ''moderate'' then EagerPush
         else if e = ''taciturn'' then Passive
         else EagerPush)"

definition default_group_culture :: group_culture where
  "default_group_culture =
     \<lparr>gc_broadcast_eagerness = ''chatty'', gc_ttl_default = None, gc_notification_policy = None,
      gc_departure_policy = None\<rparr>"

section \<open>Checksums and headers\<close>

text \<open>The texts of the rejections are a datatype with the values they interpolate.\<close>

datatype reject_reason =
    ItemTooLarge nat
  | NotAMember group_id
  | TombstoneDeleteFailed storage_error
  | ChecksumMismatch
  | StorageFailure storage_error

datatype receive_outcome = Stored | Duplicate | Rejected reject_reason

definition checksum :: "crypto_lib \<Rightarrow> bytes \<Rightarrow> string" where
  "checksum L data = lib_hex_encode L (lib_sha256 L data)"

definition validate_checksum :: "crypto_lib \<Rightarrow> fetched_item \<Rightarrow> bool" where
  "validate_checksum L item \<longleftrightarrow> checksum L (fi_encrypted_blob item) = fi_checksum item"

text \<open>Collecting pairs into a map keeps the last value of a repeated key.\<close>

definition header_map :: "item_header list \<Rightarrow> (string, string) hashmap" where
  "header_map hs = foldl (\<lambda>m h. hm_insert (ih_item_id h) (ih_checksum h) m) [] hs"

definition diff_headers :: "item_header list \<Rightarrow> item_header list \<Rightarrow> string list" where
  "diff_headers local remote =
     (let local_map = header_map local
      in map ih_item_id
           (filter (\<lambda>r. case hm_get local_map (ih_item_id r) of
                          None \<Rightarrow> True
                        | Some local_checksum \<Rightarrow> local_checksum \<noteq> ih_checksum r)
             remote))"

section \<open>The engine\<close>

record replication_engine =
  en_config :: replication_config
  en_entity_id :: string

datatype outbound_action = BroadcastItem group_id fetched_item | NoAction

text \<open>\<open>rfc3339_now\<close> is the text of \<open>chrono::Utc::now().to_rfc3339()\<close>.\<close>

definition on_local_write ::
  "crypto_lib \<Rightarrow> string \<Rightarrow> replication_engine \<Rightarrow> group_id \<Rightarrow> group_culture \<Rightarrow> string \<Rightarrow> string \<Rightarrow>
     bytes \<Rightarrow> u32 \<Rightarrow> string option \<Rightarrow> bool \<Rightarrow> outbound_action" where
  "on_local_write L rfc3339_now eng g culture item_id item_type data key_version parent_id is_copy =
     (if MAX_ITEM_BYTES < length data then NoAction
      else
        let cs = checksum L data
        in case strategy culture of
             EagerPush \<Rightarrow>
               BroadcastItem g
                 \<lparr>fi_item_id = item_id, fi_item_type = item_type, fi_encrypted_blob = data,
                  fi_checksum = cs, fi_author_id = en_entity_id eng, fi_group_id = g,
                  fi_key_version = key_version, fi_parent_id = parent_id, fi_is_copy = is_copy,
                  fi_updated_at = rfc3339_now\<rparr>
           | Passive \<Rightarrow> NoAction)"

text \<open>The methods of \<open>dyn Storage\<close> that \<open>on_receive\<close> calls.\<close>

record 's item_store =
  vt_read :: "'s \<Rightarrow> string \<Rightarrow> storage_error + l2_item_row option"
  vt_write :: "'s \<Rightarrow> l2_item_write \<Rightarrow> (storage_error + unit) \<times> 's"
  vt_delete :: "'s \<Rightarrow> string \<Rightarrow> (storage_error + bool) \<times> 's"
  vt_log :: "'s \<Rightarrow> access_log_entry \<Rightarrow> (storage_error + unit) \<times> 's"

definition TOMBSTONE_TYPE :: string where
  "TOMBSTONE_TYPE = ''__tombstone__''"

definition group_accepted :: "fetched_item \<Rightarrow> string list \<Rightarrow> (string \<Rightarrow> bool) option \<Rightarrow> bool" where
  "group_accepted item our_groups relay_accepts =
     (case relay_accepts of
        Some relay_check \<Rightarrow> relay_check (fi_group_id item)
      | None \<Rightarrow> fi_group_id item \<in> set our_groups)"

definition write_of_item :: "fetched_item \<Rightarrow> l2_item_write" where
  "write_of_item item =
     \<lparr>lw_id = fi_item_id item, lw_item_type = fi_item_type item, lw_data = fi_encrypted_blob item,
      lw_owner_id = None, lw_visibility = ''group'', lw_group_id = Some (fi_group_id item),
      lw_author_id = Some (fi_author_id item), lw_key_version = fi_key_version item,
      lw_parent_id = fi_parent_id item, lw_is_copy = fi_is_copy item,
      lw_updated_at = Some (fi_updated_at item)\<rparr>"

definition receive_log :: "fetched_item \<Rightarrow> access_log_entry" where
  "receive_log item =
     \<lparr>al_entity_id = fi_author_id item, al_action = ''replicate_receive'',
      al_resource_type = ''l2_item'', al_resource_id = Some (fi_item_id item),
      al_group_id = Some (fi_group_id item), al_detail = None\<rparr>"

text \<open>Whether step 5 of \<open>on_receive\<close> finds a version that the item does not replace.\<close>

definition superseded :: "storage_error + l2_item_row option \<Rightarrow> fetched_item \<Rightarrow> bool" where
  "superseded r item =
     (case r of
        Ok (Some existing) \<Rightarrow>
          lr_checksum existing = Some (fi_checksum item) \<or>
          fi_updated_at item \<le> lr_updated_at existing
      | _ \<Rightarrow> False)"

definition on_receive ::
  "crypto_lib \<Rightarrow> replication_engine \<Rightarrow> 's item_store \<Rightarrow> 's \<Rightarrow> fetched_item \<Rightarrow> string list \<Rightarrow>
     (string \<Rightarrow> bool) option \<Rightarrow> receive_outcome \<times> 's" where
  "on_receive L eng vt s item our_groups relay_accepts =
     (if MAX_ITEM_BYTES < length (fi_encrypted_blob item)
      then (Rejected (ItemTooLarge (length (fi_encrypted_blob item))), s)
      else if \<not> group_accepted item our_groups relay_accepts
      then (Rejected (NotAMember (fi_group_id item)), s)
      else if fi_item_type item = TOMBSTONE_TYPE
      then (case vt_delete vt s (fi_item_id item) of
              (Ok True, s') \<Rightarrow> (Stored, s')
            | (Ok False, s') \<Rightarrow> (Duplicate, s')
            | (Err e, s') \<Rightarrow> (Rejected (TombstoneDeleteFailed e), s'))
      else if \<not> validate_checksum L item
      then (Rejected ChecksumMismatch, s)
      else if superseded (vt_read vt s (fi_item_id item)) item
      then (Duplicate, s)
      else case vt_write vt s (write_of_item item) of
             (Err e, s') \<Rightarrow> (Rejected (StorageFailure e), s')
           | (Ok _, s') \<Rightarrow> (Stored, snd (vt_log vt s' (receive_log item))))"

definition sync_interval :: "replication_engine \<Rightarrow> group_culture \<Rightarrow> u64" where
  "sync_interval eng culture =
     unwrap_or (sync_interval_secs (strategy culture) (rc_sync_interval_taciturn_secs (en_config eng)))
       EAGER_PUSH_INTERVAL_SECS"

definition engine_max_batch_size :: "replication_engine \<Rightarrow> u32" where
  "engine_max_batch_size eng = rc_max_batch_size (en_config eng)"

definition engine_tombstone_retention_days :: "replication_engine \<Rightarrow> u32" where
  "engine_tombstone_retention_days eng = rc_tombstone_retention_days (en_config eng)"

text \<open>The SQLite storage as \<open>dyn Storage\<close>.\<close>

definition sqlite_store :: "crypto_lib \<Rightarrow> string \<Rightarrow> db item_store" where
  "sqlite_store L now =
     \<lparr>vt_read = read_l2_item, vt_write = write_l2_item L now, vt_delete = delete_l2_item,
      vt_log = log_access\<rparr>"

text \<open>What a row is to a peer that fetches it (the conversion of \<open>handle_fetch_request\<close>).\<close>

definition item_of_row :: "l2_item_row \<Rightarrow> fetched_item" where
  "item_of_row row =
     \<lparr>fi_item_id = lr_id row, fi_item_type = lr_item_type row, fi_encrypted_blob = lr_data row,
      fi_checksum = unwrap_or (lr_checksum row) [], fi_author_id = unwrap_or (lr_author_id row) [],
      fi_group_id = unwrap_or (lr_group_id row) [], fi_key_version = lr_key_version row,
      fi_parent_id = lr_parent_id row, fi_is_copy = lr_is_copy row,
      fi_updated_at = lr_updated_at row\<rparr>"

section \<open>The abstract replica\<close>

text \<open>
  A last-writer-wins map from item ids to items: an item replaces what is stored under its id
  unless that has the same checksum or is at least as new; a tombstone removes it.
\<close>

type_synonym replica = "string \<Rightarrow> fetched_item option"

definition wins :: "fetched_item option \<Rightarrow> fetched_item \<Rightarrow> bool" where
  "wins old x =
     (case old of
        None \<Rightarrow> True
      | Some y \<Rightarrow> fi_checksum y \<noteq> fi_checksum x \<and> fi_updated_at y < fi_updated_at x)"

definition admissible :: "crypto_lib \<Rightarrow> string list \<Rightarrow> (string \<Rightarrow> bool) option \<Rightarrow> fetched_item \<Rightarrow> bool" where
  "admissible L our_groups relay_accepts x \<longleftrightarrow>
     length (fi_encrypted_blob x) \<le> MAX_ITEM_BYTES \<and> group_accepted x our_groups relay_accepts \<and>
     (fi_item_type x = TOMBSTONE_TYPE \<or> validate_checksum L x \<and> check_l2_type (fi_item_type x))"

definition receive_spec :: "fetched_item \<Rightarrow> replica \<Rightarrow> bool \<times> replica" where
  "receive_spec x m =
     (if fi_item_type x = TOMBSTONE_TYPE
      then (m (fi_item_id x) \<noteq> None, m(fi_item_id x := None))
      else if wins (m (fi_item_id x)) x then (True, m(fi_item_id x \<mapsto> x))
      else (False, m))"

end
