(* ===== verification/Replication_Props.thy ===== *)
theory Replication_Props
  imports Replication
begin

text \<open>
  What the replication engine guarantees: it refines the last-writer-wins map, so replicas that
  receive the same versions in any order and any number of times agree; nothing that is
  oversized, foreign or corrupt changes the storage; and where the rule that the code
  implements falls short of convergence.
\<close>

section \<open>What the engine relies on\<close>

text \<open>The row that a write leaves, as far as replication is concerned.\<close>

definition row_stores :: "crypto_lib \<Rightarrow> l2_item_write \<Rightarrow> l2_item_row \<Rightarrow> bool" where
  "row_stores L w r \<longleftrightarrow>
     lr_id r = lw_id w \<and> lr_item_type r = lw_item_type w \<and> lr_data r = lw_data w \<and>
     lr_checksum r = Some (storage_checksum L (lw_data w)) \<and> lr_group_id r = lw_group_id w \<and>
     lr_author_id r = lw_author_id w \<and> lr_key_version r = lw_key_version w \<and>
     lr_parent_id r = lw_parent_id w \<and> lr_is_copy r = lw_is_copy w \<and>
     (\<forall>t. lw_updated_at w = Some t \<longrightarrow> lr_updated_at r = t)"

definition replica_of :: "('s \<Rightarrow> string \<Rightarrow> l2_item_row option) \<Rightarrow> 's \<Rightarrow> replica" where
  "replica_of row s i = map_option item_of_row (row s i)"

locale item_replica =
  fixes L :: crypto_lib
    and vt :: "'s item_store"
    and ok :: "'s \<Rightarrow> bool"
    and row :: "'s \<Rightarrow> string \<Rightarrow> l2_item_row option"
  assumes read_row: "ok s \<Longrightarrow> vt_read vt s i = Ok (row s i)"
    and row_id: "ok s \<Longrightarrow> row s i = Some r \<Longrightarrow> lr_id r = i"
    and row_checksum: "ok s \<Longrightarrow> row s i = Some r \<Longrightarrow> lr_checksum r \<noteq> None"
    and write_row: "ok s \<Longrightarrow> check_l2_type (lw_item_type w) \<Longrightarrow> check_visibility (lw_visibility w) \<Longrightarrow>
      \<exists>s' r. vt_write vt s w = (Ok (), s') \<and> ok s' \<and> row s' = (row s)(lw_id w \<mapsto> r) \<and>
        row_stores L w r"
    and write_err: "ok s \<Longrightarrow> \<not> check_l2_type (lw_item_type w) \<Longrightarrow>
      \<exists>e. vt_write vt s w = (Err e, s)"
    and delete_row: "ok s \<Longrightarrow> \<exists>s'. vt_delete vt s i = (Ok (row s i \<noteq> None), s') \<and> ok s' \<and>
      row s' = (row s)(i := None) \<and> (row s i = None \<longrightarrow> s' = s)"
    and log_row: "ok s \<Longrightarrow> ok (snd (vt_log vt s a)) \<and> row (snd (vt_log vt s a)) = row s"
begin

lemma superseded_wins: "ok s \<Longrightarrow> superseded (vt_read vt s (fi_item_id x)) x \<longleftrightarrow> \<not> wins (replica_of row s (fi_item_id x)) x"
  using row_checksum [of s "fi_item_id x"]
  by (auto simp: superseded_def wins_def replica_of_def read_row item_of_row_def unwrap_or_def
      split: option.split)

lemma receive_tombstone:
  assumes ok: "ok s" and a: "admissible L gs ra x" and t: "fi_item_type x = TOMBSTONE_TYPE"
  shows "\<exists>o' s'. on_receive L eng vt s x gs ra = (o', s') \<and> ok s' \<and>
    receive_spec x (replica_of row s) = (o' = Stored, replica_of row s') \<and>
    (o' = Stored \<or> o' = Duplicate \<and> s' = s)"
proof -
  let ?i = "fi_item_id x"
  from delete_row [OF ok, of ?i] obtain s' where
    s': "vt_delete vt s ?i = (Ok (row s ?i \<noteq> None), s')" "ok s'"
      "row s' = (row s)(?i := None)" "row s ?i = None \<longrightarrow> s' = s"
    by (elim exE conjE) (rule that)
  have abs: "replica_of row s' = (replica_of row s)(?i := None)"
    by (rule ext) (simp add: replica_of_def s'(3))
  have spec: "receive_spec x (replica_of row s) = (row s ?i \<noteq> None, replica_of row s')"
    unfolding receive_spec_def abs using t by (simp add: replica_of_def)
  show ?thesis
  proof (cases "row s ?i")
    case None
    with a t s'(1) have "on_receive L eng vt s x gs ra = (Duplicate, s')"
      by (simp add: on_receive_def admissible_def)
    moreover from None s'(4) have "s' = s" by simp
    ultimately show ?thesis using spec None s'(2) by simp
  next
    case (Some r)
    with a t s'(1) have "on_receive L eng vt s x gs ra = (Stored, s')"
      by (simp add: on_receive_def admissible_def)
    with Some s'(2) spec show ?thesis by simp
  qed
qed

lemma write_of_item_simps [simp]:
  "lw_id (write_of_item x) = fi_item_id x" "lw_item_type (write_of_item x) = fi_item_type x"
  "check_visibility (lw_visibility (write_of_item x))"
  by (simp_all add: write_of_item_def check_visibility_def)

lemma row_stores_item:
  assumes "row_stores L (write_of_item x) r" and "validate_checksum L x"
  shows "item_of_row r = x"
  using assms
  by (simp add: row_stores_def write_of_item_def item_of_row_def validate_checksum_def checksum_def
      storage_checksum_def unwrap_or_def)

lemma receive_item:
  assumes "ok s" and "admissible L gs ra x" and "fi_item_type x \<noteq> TOMBSTONE_TYPE"
  shows "\<exists>o' s'. on_receive L eng vt s x gs ra = (o', s') \<and> ok s' \<and>
    receive_spec x (replica_of row s) = (o' = Stored, replica_of row s') \<and> (o' = Stored \<or> o' = Duplicate \<and> s' = s)"
proof (cases "wins (replica_of row s (fi_item_id x)) x")
  case False
  with assms show ?thesis
    by (simp add: on_receive_def admissible_def receive_spec_def superseded_wins)
next
  case True
  from assms(2,3) have c: "check_l2_type (fi_item_type x)" and v: "validate_checksum L x"
    by (simp_all add: admissible_def)
  from write_row [OF assms(1), of "write_of_item x"] c obtain s' r where
    w: "vt_write vt s (write_of_item x) = (Ok (), s')" "ok s'"
      "row s' = (row s)(fi_item_id x \<mapsto> r)" "row_stores L (write_of_item x) r"
    by auto
  let ?s = "snd (vt_log vt s' (receive_log x))"
  have ok: "ok ?s" and row: "row ?s = row s'" using log_row [OF w(2)] by auto
  have "replica_of row ?s = (replica_of row s)(fi_item_id x \<mapsto> x)"
    by (auto simp: replica_of_def row w(3) row_stores_item [OF w(4) v])
  with True assms w(1) ok show ?thesis
    by (simp add: on_receive_def admissible_def receive_spec_def superseded_wins)
qed

lemma receive_refines:
  assumes "ok s" and "admissible L gs ra x"
  shows "\<exists>o' s'. on_receive L eng vt s x gs ra = (o', s') \<and> ok s' \<and>
    receive_spec x (replica_of row s) = (o' = Stored, replica_of row s') \<and> (o' = Stored \<or> o' = Duplicate \<and> s' = s)"
  by (cases "fi_item_type x = TOMBSTONE_TYPE")
    (rule receive_tombstone [OF assms] receive_item [OF assms], assumption)+

lemma receive_rejects:
  assumes "ok s" and "\<not> admissible L gs ra x"
  shows "\<exists>o'. on_receive L eng vt s x gs ra = (o', s) \<and> o' \<noteq> Stored"
proof (cases "check_l2_type (fi_item_type x)")
  case True
  with assms(2) show ?thesis by (simp add: on_receive_def admissible_def)
next
  case False
  then obtain e where "vt_write vt s (write_of_item x) = (Err e, s)"
    using write_err [OF assms(1), of "write_of_item x"] by auto
  with assms(2) show ?thesis by (simp add: on_receive_def admissible_def)
qed

end

section \<open>The SQLite storage\<close>

definition healthy :: "crypto_lib \<Rightarrow> db \<Rightarrow> bool" where
  "healthy L d \<longleftrightarrow> db_inv L d \<and> db_fault d = (\<lambda>_. None)"

definition row_in :: "db \<Rightarrow> string \<Rightarrow> l2_item_row option" where
  "row_in d i = map_option (row_of_l2 i) (hm_get (l2_items d) i)"

lemma healthy_write:
  assumes "healthy L d" and "check_l2_type (lw_item_type w)" and "check_visibility (lw_visibility w)"
  shows "\<exists>d' r. write_l2_item L now d w = (Ok (), d') \<and> healthy L d' \<and>
    row_in d' = (row_in d)(lw_id w \<mapsto> r) \<and> row_stores L w r"
proof -
  let ?c = "upsert_l2 L now w (hm_get (l2_items d) (lw_id w))"
  let ?d = "d\<lparr>l2_items := hm_insert (lw_id w) ?c (l2_items d)\<rparr>"
  have w: "write_l2_item L now d w = (Ok (), ?d)"
    using assms by (simp add: write_l2_item_def healthy_def)
  moreover have "healthy L ?d"
    using write_l2_item_inv [of L d now w] assms(1) w by (simp add: healthy_def)
  moreover have "row_in ?d = (row_in d)(lw_id w \<mapsto> row_of_l2 (lw_id w) ?c)"
    by (auto simp: row_in_def hm_get_simps)
  moreover have "row_stores L w (row_of_l2 (lw_id w) ?c)"
    by (simp add: row_stores_def row_of_l2_def upsert_l2_def unwrap_or_def)
  ultimately show ?thesis by blast
qed

lemma healthy_delete:
  assumes "healthy L d"
  shows "\<exists>d'. delete_l2_item d i = (Ok (row_in d i \<noteq> None), d') \<and> healthy L d' \<and>
    row_in d' = (row_in d)(i := None) \<and> (row_in d i = None \<longrightarrow> d' = d)"
proof -
  let ?d = "d\<lparr>l2_items := hm_remove i (l2_items d)\<rparr>"
  have w: "delete_l2_item d i = (Ok (row_in d i \<noteq> None), ?d)"
    using assms by (simp add: delete_l2_item_def healthy_def row_in_def)
  moreover have "healthy L ?d"
    using delete_l2_item_inv [of L d i] assms w by (simp add: healthy_def)
  moreover have "row_in ?d = (row_in d)(i := None)" by (auto simp: row_in_def hm_get_simps)
  moreover have "?d = d" if "row_in d i = None"
  proof -
    have "hm_remove i (l2_items d) = l2_items d"
      using that by (intro delete_id) (simp add: row_in_def map_of_eq_None_iff)
    then show ?thesis by simp
  qed
  ultimately show ?thesis by (intro exI [of _ ?d]) simp
qed

lemma healthy_log: "healthy L d \<Longrightarrow> healthy L (snd (log_access d a)) \<and> row_in (snd (log_access d a)) = row_in d"
  by (auto simp: healthy_def log_access_def row_in_def)

interpretation sq: item_replica L "sqlite_store L now" "healthy L" row_in for L now
proof unfold_locales
  show "vt_read (sqlite_store L now) d i = Ok (row_in d i)" if "healthy L d" for d i
    using that by (simp add: sqlite_store_def healthy_def read_l2_item_def row_in_def)
  show "lr_id r = i" if "row_in d i = Some r" for d i r
    using that by (auto simp: row_in_def row_of_l2_def)
  show "lr_checksum r \<noteq> None" if "healthy L d" "row_in d i = Some r" for d i r
    using that inv_l2_row [of L d i]
    by (auto simp: healthy_def row_in_def row_of_l2_def l2_row_ok_def)
  show "\<exists>e. vt_write (sqlite_store L now) d w = (Err e, d)"
    if "healthy L d" "\<not> check_l2_type (lw_item_type w)" for d w
    using that by (simp add: sqlite_store_def healthy_def write_l2_item_def)
qed (simp_all only: sqlite_store_def item_store.simps healthy_write healthy_delete healthy_log)

section \<open>One received item\<close>

text \<open>The items a database would serve, and a sequence of receives (each with its own clock).\<close>

definition stored_items :: "db \<Rightarrow> replica" where
  "stored_items = replica_of row_in"

definition receive_all ::
  "crypto_lib \<Rightarrow> replication_engine \<Rightarrow> string list \<Rightarrow> (string \<Rightarrow> bool) option \<Rightarrow> db \<Rightarrow>
     (string \<times> fetched_item) list \<Rightarrow> db" where
  "receive_all L eng gs ra d xs =
     foldl (\<lambda>d (now, x). snd (on_receive L eng (sqlite_store L now) d x gs ra)) d xs"

text \<open>
  C7. On a healthy database, receiving an admissible item (within the size limit, of an accepted
  group, and either a tombstone or an item of a known type with a matching checksum) implements
  the abstract last-writer-wins map: the item is reported as stored exactly when it wins over
  the stored version, the database then serves it, and otherwise nothing changes.
\<close>

theorem on_receive_refines_lww:
  assumes "healthy L d" and "admissible L gs ra x"
  shows "\<exists>out d'. on_receive L eng (sqlite_store L now) d x gs ra = (out, d') \<and> healthy L d' \<and>
    receive_spec x (stored_items d) = (out = Stored, stored_items d') \<and>
    (out = Stored \<or> out = Duplicate \<and> d' = d)"
  unfolding stored_items_def by (rule sq.receive_refines [OF assms])

definition eng_w :: replication_engine where
  "eng_w = \<lparr>en_config = default_replication_config, en_entity_id = ''bob''\<rparr>"

definition version_w :: "bytes \<Rightarrow> string \<Rightarrow> fetched_item" where
  "version_w data t =
     \<lparr>fi_item_id = ''i1'', fi_item_type = ''learning'', fi_encrypted_blob = data,
      fi_checksum = checksum L_w data, fi_author_id = ''alice'', fi_group_id = ''g1'',
      fi_key_version = 1, fi_parent_id = None, fi_is_copy = False, fi_updated_at = t\<rparr>"

lemma version_w_admissible:
  "length data \<le> 16 \<Longrightarrow> admissible L_w [''g1''] None (version_w data t)"
  by (simp add: admissible_def version_w_def group_accepted_def validate_checksum_def
      check_l2_type_def TOMBSTONE_TYPE_def MAX_ITEM_BYTES_def)

lemma healthy_w: "healthy L_w db_w"
  by (simp add: healthy_def db_w_def fresh_db_inv) (simp add: db_of_schema_def)

lemma stored_items_w: "stored_items db_w = (\<lambda>_. None)"
  by (rule ext) (simp add: stored_items_def replica_of_def row_in_def db_w_def db_of_schema_def)

theorem on_receive_refines_lww_witness:
  "\<exists>d'. on_receive L_w eng_w (sqlite_store L_w ''t'') db_w (version_w [1] ''2026'') [''g1''] None =
      (Stored, d') \<and> stored_items d' ''i1'' = Some (version_w [1] ''2026'')"
proof -
  let ?x = "version_w [1] ''2026''"
  have "admissible L_w [''g1''] None ?x" by (simp add: version_w_admissible)
  from on_receive_refines_lww [OF healthy_w this, of eng_w "''t''"] obtain out d' where
    r: "on_receive L_w eng_w (sqlite_store L_w ''t'') db_w ?x [''g1''] None = (out, d')"
    and s: "receive_spec ?x (stored_items db_w) = (out = Stored, stored_items d')"
    by (elim exE conjE) (rule that)
  have "receive_spec ?x (stored_items db_w) = (True, [''i1'' \<mapsto> ?x])"
    by (simp add: receive_spec_def stored_items_w wins_def version_w_def TOMBSTONE_TYPE_def)
  with s have "out = Stored \<and> stored_items d' = [''i1'' \<mapsto> ?x]" by auto
  with r show ?thesis by simp
qed

lemma write_frame:
  "write_l2_item L now d w = (r, d') \<Longrightarrow> is_Ok r \<or> d' = d"
  "write_l2_item L now d w = (r, d') \<Longrightarrow> is_Ok r \<Longrightarrow> check_l2_type (lw_item_type w)"
  "write_l2_item L now d w = (r, d') \<Longrightarrow> j \<noteq> lw_id w \<Longrightarrow> row_in d' j = row_in d j"
  "write_l2_item L now d w = (r, d') \<Longrightarrow> groups_tab d' = groups_tab d \<and> group_members d' = group_members d \<and> l1_hot d' = l1_hot d"
  by (auto simp: write_l2_item_def exec_def is_Ok_def row_in_def hm_get_simps
      split: option.splits if_splits)

lemma delete_frame:
  assumes "delete_l2_item d i = (r, d')"
  shows "r = Ok True \<or> d' = d" "j \<noteq> i \<Longrightarrow> row_in d' j = row_in d j"
    "groups_tab d' = groups_tab d \<and> group_members d' = group_members d \<and> l1_hot d' = l1_hot d"
proof -
  show "r = Ok True \<or> d' = d"
  proof (cases "hm_get (l2_items d) i")
    case None
    then have "hm_remove i (l2_items d) = l2_items d"
      by (intro delete_id) (simp add: map_of_eq_None_iff)
    with assms show ?thesis by (auto simp: delete_l2_item_def exec_def split: option.splits)
  next
    case (Some c)
    with assms show ?thesis by (auto simp: delete_l2_item_def exec_def split: option.splits)
  qed
qed (use assms in \<open>auto simp: delete_l2_item_def exec_def row_in_def hm_get_simps split: option.splits\<close>)

lemma log_frame:
  "row_in (snd (log_access d a)) = row_in d" "groups_tab (snd (log_access d a)) = groups_tab d"
  "group_members (snd (log_access d a)) = group_members d" "l1_hot (snd (log_access d a)) = l1_hot d"
  by (auto simp: log_access_def exec_def row_in_def split: option.split)

lemma receive_effect:
  assumes "on_receive L eng (sqlite_store L now) d x gs ra = (out, d')"
  shows "(out \<noteq> Stored \<longrightarrow> d' = d) \<and> (out = Stored \<longrightarrow> admissible L gs ra x) \<and>
    (\<forall>j. j \<noteq> fi_item_id x \<longrightarrow> row_in d' j = row_in d j) \<and>
    groups_tab d' = groups_tab d \<and> group_members d' = group_members d \<and> l1_hot d' = l1_hot d"
proof -
  obtain rd dd where del: "delete_l2_item d (fi_item_id x) = (rd, dd)" by fastforce
  obtain rw dw where wr: "write_l2_item L now d (write_of_item x) = (rw, dw)" by fastforce
  note frames = delete_frame [OF del] write_frame [OF wr]
  from assms show ?thesis
    using frames
    by (auto simp: on_receive_def admissible_def sqlite_store_def del wr log_frame is_Ok_def
        split: if_splits sum.splits bool.splits)
qed

lemma receive_inv: "db_inv L d \<Longrightarrow> db_inv L (snd (on_receive L eng (sqlite_store L now) d x gs ra))"
proof -
  assume d: "db_inv L d"
  obtain rd dd where del: "delete_l2_item d (fi_item_id x) = (rd, dd)" by fastforce
  obtain rw dw where wr: "write_l2_item L now d (write_of_item x) = (rw, dw)" by fastforce
  have "db_inv L dd" "db_inv L dw"
    using delete_l2_item_inv [OF d, of "fi_item_id x"] write_l2_item_inv [OF d, of now "write_of_item x"]
    by (simp_all add: del wr)
  then show ?thesis
    using d by (simp add: on_receive_def sqlite_store_def del wr log_access_inv split: sum.split bool.split)
qed

text \<open>
  C8. Whatever the state of the database and whichever SQL statements fail, an item that is not
  reported as stored leaves the database unchanged; one that is stored was within the size
  limit, of an accepted group and either a tombstone or of a known type with a valid checksum;
  and it changes no other item, no group, no membership and no L1 memory.
\<close>

theorem on_receive_safe:
  assumes "on_receive L eng (sqlite_store L now) d x gs ra = (out, d')"
  shows "(out \<noteq> Stored \<longrightarrow> d' = d) \<and> (out = Stored \<longrightarrow> admissible L gs ra x) \<and>
    (\<forall>j. j \<noteq> fi_item_id x \<longrightarrow> row_in d' j = row_in d j) \<and>
    groups_tab d' = groups_tab d \<and> group_members d' = group_members d \<and> l1_hot d' = l1_hot d"
  by (rule receive_effect [OF assms])

theorem on_receive_safe_witness:
  "snd (on_receive L_w eng_w (sqlite_store L_w ''t'') db_w (version_w [1] ''2026'') [''g2''] None) = db_w"
proof -
  have "on_receive L_w eng_w (sqlite_store L_w ''t'') db_w (version_w [1] ''2026'') [''g2''] None =
      (Rejected (NotAMember ''g1''), db_w)"
    by (simp add: on_receive_def version_w_def group_accepted_def MAX_ITEM_BYTES_def)
  from on_receive_safe [OF this] this show ?thesis by simp
qed

section \<open>Convergence\<close>

text \<open>
  Among the versions \<open>S\<close> of an item, the one with the greatest timestamp; and that two
  versions of an item differ in both checksum and timestamp.
\<close>

definition latest :: "fetched_item set \<Rightarrow> fetched_item \<Rightarrow> bool" where
  "latest S x \<longleftrightarrow>
     x \<in> S \<and> (\<forall>y\<in>S. fi_item_id y = fi_item_id x \<longrightarrow> fi_updated_at y \<le> fi_updated_at x)"

definition versions_distinct :: "fetched_item set \<Rightarrow> bool" where
  "versions_distinct S \<longleftrightarrow>
     (\<forall>x\<in>S. \<forall>y\<in>S. fi_item_id x = fi_item_id y \<longrightarrow>
        fi_checksum x = fi_checksum y \<or> fi_updated_at x = fi_updated_at y \<longrightarrow> x = y)"

definition serves_latest :: "fetched_item set \<Rightarrow> replica \<Rightarrow> bool" where
  "serves_latest S m \<longleftrightarrow>
     (\<forall>i. case m i of
            None \<Rightarrow> \<forall>y\<in>S. fi_item_id y \<noteq> i
          | Some x \<Rightarrow> fi_item_id x = i \<and> latest S x)"

lemma versions_distinctD:
  assumes "versions_distinct S" and "x \<in> S" and "y \<in> S" and "fi_item_id x = fi_item_id y"
  shows "fi_checksum x = fi_checksum y \<or> fi_updated_at x = fi_updated_at y \<longrightarrow> x = y"
  using assms by (simp add: versions_distinct_def)

lemma serves_latest_receive:
  assumes S: "versions_distinct (insert x S)" and m: "serves_latest S m"
    and x: "fi_item_type x \<noteq> TOMBSTONE_TYPE"
  shows "serves_latest (insert x S) (snd (receive_spec x m))"
  unfolding serves_latest_def
proof
  fix i
  from m have mi: "case m i of None \<Rightarrow> \<forall>y\<in>S. fi_item_id y \<noteq> i | Some x \<Rightarrow> fi_item_id x = i \<and> latest S x"
    by (simp add: serves_latest_def)
  show "case snd (receive_spec x m) i of None \<Rightarrow> \<forall>y\<in>insert x S. fi_item_id y \<noteq> i
      | Some y \<Rightarrow> fi_item_id y = i \<and> latest (insert x S) y"
  proof (cases "fi_item_id x = i")
    case False
    with mi x show ?thesis by (auto simp: receive_spec_def latest_def split: option.splits)
  next
    case i: True
    show ?thesis
    proof (cases "m i")
      case None
      with mi x i show ?thesis by (simp add: receive_spec_def wins_def latest_def)
    next
      case (Some y)
      with mi have y: "fi_item_id y = i" "latest S y" by simp_all
      then have "y \<in> S" by (simp add: latest_def)
      with S y(1) i have same: "fi_checksum y = fi_checksum x \<or> fi_updated_at y = fi_updated_at x \<longrightarrow> y = x"
        by (intro versions_distinctD [OF S]) simp_all
      show ?thesis
      proof (cases "wins (Some y) x")
        case True
        with y i have "latest (insert x S) x" by (auto simp: latest_def wins_def)
        with True Some x i show ?thesis by (simp add: receive_spec_def)
      next
        case False
        with same have "y = x \<or> fi_updated_at x < fi_updated_at y" by (auto simp: wins_def)
        with y i have "latest (insert x S) y" by (auto simp: latest_def)
        with False Some x i y(1) show ?thesis by (simp add: receive_spec_def)
      qed
    qed
  qed
qed

lemma versions_distinct_mono: "versions_distinct T \<Longrightarrow> S \<subseteq> T \<Longrightarrow> versions_distinct S"
  by (simp add: versions_distinct_def subset_iff)

lemma serves_latest_run:
  assumes "healthy L d" and "stored_items d = (\<lambda>_. None)"
    and "\<forall>x\<in>snd ` set xs. admissible L gs ra x \<and> fi_item_type x \<noteq> TOMBSTONE_TYPE"
    and "versions_distinct (snd ` set xs)"
  shows "healthy L (receive_all L eng gs ra d xs) \<and>
    serves_latest (snd ` set xs) (stored_items (receive_all L eng gs ra d xs))"
  using assms(3,4)
proof (induction xs rule: rev_induct)
  case Nil
  with assms(1,2) show ?case by (simp add: receive_all_def serves_latest_def)
next
  case (snoc a xs)
  obtain t x where a: "a = (t, x)" by fastforce
  let ?d = "receive_all L eng gs ra d xs"
  have vd: "versions_distinct (snd ` set xs)" using snoc.prems(2) by (rule versions_distinct_mono) auto
  have IH: "healthy L ?d" "serves_latest (snd ` set xs) (stored_items ?d)"
    using snoc.IH [OF _ vd] snoc.prems(1) by simp_all
  have ax: "admissible L gs ra x" "fi_item_type x \<noteq> TOMBSTONE_TYPE"
    using snoc.prems(1) a by simp_all
  from sq.receive_refines [OF IH(1) ax(1), of eng t] obtain out d' where
    r: "on_receive L eng (sqlite_store L t) ?d x gs ra = (out, d')" and h: "healthy L d'"
    and s: "receive_spec x (replica_of row_in ?d) = (out = Stored, replica_of row_in d')"
    by (elim exE conjE) (rule that)
  have d': "receive_all L eng gs ra d (xs @ [a]) = d'"
    using r by (simp add: a) (simp add: receive_all_def)
  have "serves_latest (insert x (snd ` set xs)) (snd (receive_spec x (stored_items ?d)))"
    using snoc.prems(2) a by (intro serves_latest_receive IH ax) simp
  with s h d' show ?case by (simp add: stored_items_def a)
qed

lemma latest_unique:
  assumes "versions_distinct S" and "latest S x" and "latest S y" and "fi_item_id x = fi_item_id y"
  shows "x = y"
proof -
  have "fi_updated_at x = fi_updated_at y"
    using assms(2-4) by (intro order.antisym) (simp_all add: latest_def)
  moreover have "x \<in> S" "y \<in> S" using assms(2,3) by (simp_all add: latest_def)
  ultimately show ?thesis using versions_distinctD [OF assms(1) _ _ assms(4)] by simp
qed

lemma serves_latest_unique:
  assumes "versions_distinct S" and "serves_latest S m" and "serves_latest S m'"
  shows "m = m'"
proof
  fix i
  have "case m i of None \<Rightarrow> \<forall>y\<in>S. fi_item_id y \<noteq> i | Some x \<Rightarrow> fi_item_id x = i \<and> latest S x"
    "case m' i of None \<Rightarrow> \<forall>y\<in>S. fi_item_id y \<noteq> i | Some x \<Rightarrow> fi_item_id x = i \<and> latest S x"
    using assms(2,3) by (simp_all add: serves_latest_def)
  moreover have "latest S x \<Longrightarrow> x \<in> S" for x by (simp add: latest_def)
  ultimately show "m i = m' i"
    using latest_unique [OF assms(1)] by (cases "m i"; cases "m' i") auto
qed

text \<open>
  C9. Replicas converge: two nodes with empty, healthy stores that receive the same set of valid
  item versions, each in its own order and with any repetitions, end up serving exactly the same
  items, namely for each item id its latest version; provided that two versions of an item
  differ in checksum and in timestamp, and that no tombstones are involved.
\<close>

theorem replicas_converge:
  assumes "healthy L d1" and "stored_items d1 = (\<lambda>_. None)"
    and "healthy L d2" and "stored_items d2 = (\<lambda>_. None)"
    and "\<forall>x\<in>snd ` set xs. admissible L gs1 ra1 x \<and> admissible L gs2 ra2 x \<and>
      fi_item_type x \<noteq> TOMBSTONE_TYPE"
    and "snd ` set ys = snd ` set xs" and "versions_distinct (snd ` set xs)"
  shows "stored_items (receive_all L e1 gs1 ra1 d1 xs) = stored_items (receive_all L e2 gs2 ra2 d2 ys) \<and>
    (\<forall>x\<in>snd ` set xs. \<exists>y. stored_items (receive_all L e1 gs1 ra1 d1 xs) (fi_item_id x) = Some y \<and>
       latest (snd ` set xs) y)"
proof -
  let ?m1 = "stored_items (receive_all L e1 gs1 ra1 d1 xs)"
  let ?m2 = "stored_items (receive_all L e2 gs2 ra2 d2 ys)"
  have 1: "serves_latest (snd ` set xs) ?m1"
    using serves_latest_run [OF assms(1,2) _ assms(7), of gs1 ra1 e1] assms(5) by simp
  have "serves_latest (snd ` set ys) ?m2"
    using serves_latest_run [OF assms(3,4), of ys gs2 ra2 e2] assms(5-7) by simp
  then have 2: "serves_latest (snd ` set xs) ?m2" by (simp only: assms(6))
  have "\<exists>y. ?m1 (fi_item_id x) = Some y \<and> latest (snd ` set xs) y" if "x \<in> snd ` set xs" for x
  proof -
    from 1 have "case ?m1 (fi_item_id x) of None \<Rightarrow> \<forall>y\<in>snd ` set xs. fi_item_id y \<noteq> fi_item_id x
        | Some y \<Rightarrow> fi_item_id y = fi_item_id x \<and> latest (snd ` set xs) y"
      unfolding serves_latest_def by (rule spec)
    with that show ?thesis by (cases "?m1 (fi_item_id x)") auto
  qed
  with serves_latest_unique [OF assms(7) 1 2] show ?thesis by (intro conjI ballI)
qed

theorem replicas_converge_witness:
  "stored_items (receive_all L_w eng_w [''g1''] None db_w
       [(''t'', version_w [1] ''a''), (''t'', version_w [2] ''b'')]) =
   stored_items (receive_all L_w eng_w [''g1''] None db_w
       [(''u'', version_w [2] ''b''), (''u'', version_w [1] ''a''), (''u'', version_w [2] ''b'')])"
proof -
  have "versions_distinct (snd ` set [(''t'', version_w [1] ''a''), (''t'', version_w [2] ''b'')])"
    by (simp add: versions_distinct_def version_w_def checksum_def L_w_def)
  moreover have "fi_item_type (version_w b t) \<noteq> TOMBSTONE_TYPE" for b t
    by (simp add: version_w_def TOMBSTONE_TYPE_def)
  ultimately show ?thesis
    using replicas_converge [OF healthy_w stored_items_w healthy_w stored_items_w,
        of "[(''t'', version_w [1] ''a''), (''t'', version_w [2] ''b'')]" "[''g1'']" None "[''g1'']" None
        "[(''u'', version_w [2] ''b''), (''u'', version_w [1] ''a''), (''u'', version_w [2] ''b'')]"
        eng_w eng_w]
    by (simp add: version_w_admissible insert_commute)
qed

section \<open>Where convergence fails\<close>

lemma receive_all_Cons:
  assumes "healthy L d" and "admissible L gs ra x"
  shows "\<exists>d'. receive_all L eng gs ra d ((t, x) # xs) = receive_all L eng gs ra d' xs \<and>
    healthy L d' \<and> stored_items d' = snd (receive_spec x (stored_items d))"
  using sq.receive_refines [OF assms, of eng t]
  by (auto simp: receive_all_def stored_items_def)

lemma receive_all_spec:
  assumes "healthy L d" and "\<forall>x\<in>snd ` set xs. admissible L gs ra x"
  shows "stored_items (receive_all L eng gs ra d xs) =
    foldl (\<lambda>m x. snd (receive_spec x m)) (stored_items d) (map snd xs)"
  using assms
proof (induction xs arbitrary: d)
  case Nil
  then show ?case by (simp add: receive_all_def)
next
  case (Cons a xs)
  obtain t x where a: "a = (t, x)" by fastforce
  with Cons.prems have "admissible L gs ra x" by simp
  from receive_all_Cons [OF Cons.prems(1) this, of eng t xs] obtain d' where
    "receive_all L eng gs ra d ((t, x) # xs) = receive_all L eng gs ra d' xs" "healthy L d'"
    "stored_items d' = snd (receive_spec x (stored_items d))"
    by (elim exE conjE) (rule that)
  with Cons.IH [of d'] Cons.prems(2) a show ?case by simp
qed

text \<open>
  C10. Ties are resolved by arrival order: two versions of an item with the same timestamp and
  different checksums leave two replicas that receive them in opposite orders with different
  items, and repeating either exchange changes nothing.
\<close>

theorem timestamp_tie_diverges:
  assumes "healthy L d" and "stored_items d (fi_item_id x) = None"
    and "admissible L gs ra x" and "admissible L gs ra y"
    and "fi_item_type x \<noteq> TOMBSTONE_TYPE" and "fi_item_type y \<noteq> TOMBSTONE_TYPE"
    and "fi_item_id y = fi_item_id x" and "fi_updated_at y = fi_updated_at x"
    and "fi_checksum y \<noteq> fi_checksum x"
  shows "stored_items (receive_all L eng gs ra d [(t, x), (t, y), (t, x), (t, y)]) (fi_item_id x) = Some x \<and>
    stored_items (receive_all L eng gs ra d [(t, y), (t, x), (t, y), (t, x)]) (fi_item_id x) = Some y"
  using assms by (simp add: receive_all_spec receive_spec_def wins_def)

theorem timestamp_tie_diverges_witness:
  "stored_items (receive_all L_w eng_w [''g1''] None db_w
     [(''t'', version_w [1] ''a''), (''t'', version_w [2] ''a''), (''t'', version_w [1] ''a''),
      (''t'', version_w [2] ''a'')]) ''i1'' = Some (version_w [1] ''a'')"
  using timestamp_tie_diverges [OF healthy_w _ version_w_admissible version_w_admissible,
      of "[1]" "''a''" "[2]" "''a''" eng_w "''t''"]
  by (simp add: stored_items_w) (simp add: version_w_def checksum_def L_w_def TOMBSTONE_TYPE_def)

text \<open>
  The checksum test comes before the comparison of timestamps, so restoring an earlier
  content of an item is not last-writer-wins: after versions A (oldest), B and A again (newest
  timestamp, same content as the first), a replica that receives them in order serves the last
  one, while a replica that receives the newest before B serves B.
\<close>

theorem restored_content_diverges:
  assumes "healthy L d" and "stored_items d (fi_item_id x1) = None"
    and "admissible L gs ra x1" and "admissible L gs ra y" and "admissible L gs ra x3"
    and "fi_item_type x1 \<noteq> TOMBSTONE_TYPE" and "fi_item_type y \<noteq> TOMBSTONE_TYPE"
    and "fi_item_type x3 \<noteq> TOMBSTONE_TYPE"
    and "fi_item_id y = fi_item_id x1" and "fi_item_id x3 = fi_item_id x1"
    and "fi_checksum x3 = fi_checksum x1" and "fi_checksum y \<noteq> fi_checksum x1"
    and "fi_updated_at x1 < fi_updated_at y" and "fi_updated_at y < fi_updated_at x3"
  shows "stored_items (receive_all L eng gs ra d [(t, x1), (t, y), (t, x3)]) (fi_item_id x1) = Some x3 \<and>
    stored_items (receive_all L eng gs ra d [(t, x1), (t, x3), (t, y)]) (fi_item_id x1) = Some y"
  using assms by (simp add: receive_all_spec receive_spec_def wins_def)

theorem restored_content_diverges_witness:
  "stored_items (receive_all L_w eng_w [''g1''] None db_w
     [(''t'', version_w [1] ''a''), (''t'', version_w [1] ''c''), (''t'', version_w [2] ''b'')]) ''i1'' =
   Some (version_w [2] ''b'')"
  using restored_content_diverges [OF healthy_w, of "version_w [1] ''a''" "[''g1'']" None
      "version_w [2] ''b''" "version_w [1] ''c''" eng_w "''t''"]
  by (simp add: stored_items_w version_w_admissible) (simp add: version_w_def checksum_def L_w_def TOMBSTONE_TYPE_def)

text \<open>
  C11. A tombstone deletes whatever is stored under its id: its timestamp is ignored, the group
  of the stored item is not compared with the group the tombstone was accepted for, and nothing
  remembers it. So a replica that receives an item before its tombstone drops it, and one that
  receives it after serves it.
\<close>

theorem tombstone_unordered_and_ungrouped:
  assumes "healthy L d" and "stored_items d (fi_item_id x) = None"
    and "admissible L gs ra x" and "fi_item_type x \<noteq> TOMBSTONE_TYPE"
    and "admissible L gs ra k" and "fi_item_type k = TOMBSTONE_TYPE" and "fi_item_id k = fi_item_id x"
  shows "stored_items (receive_all L eng gs ra d [(t, x), (t, k)]) (fi_item_id x) = None \<and>
    stored_items (receive_all L eng gs ra d [(t, k), (t, x)]) (fi_item_id x) = Some x"
  using assms by (simp add: receive_all_spec receive_spec_def wins_def)

definition tombstone_w :: fetched_item where
  "tombstone_w =
     (version_w [] ''2000'')\<lparr>fi_item_type := TOMBSTONE_TYPE, fi_group_id := ''g2''\<rparr>"

theorem tombstone_unordered_and_ungrouped_witness:
  "stored_items (receive_all L_w eng_w [''g1'', ''g2''] None db_w
     [(''t'', version_w [1] ''2026''), (''t'', tombstone_w)]) ''i1'' = None"
proof -
  have "admissible L_w [''g1'', ''g2''] None (version_w [1] ''2026'')"
    "admissible L_w [''g1'', ''g2''] None tombstone_w" "fi_item_id tombstone_w = ''i1''"
    "fi_item_type tombstone_w = TOMBSTONE_TYPE"
    by (simp_all add: admissible_def version_w_def tombstone_w_def group_accepted_def
        validate_checksum_def check_l2_type_def MAX_ITEM_BYTES_def)
  moreover have "fi_item_type (version_w [1] ''2026'') \<noteq> TOMBSTONE_TYPE"
    "fi_item_id (version_w [1] ''2026'') = ''i1''"
    by (simp_all add: version_w_def TOMBSTONE_TYPE_def)
  ultimately show ?thesis
    using tombstone_unordered_and_ungrouped [OF healthy_w, of "version_w [1] ''2026''"
        "[''g1'', ''g2'']" None tombstone_w eng_w "''t''"]
    by (simp add: stored_items_w)
qed

end
