(* ===== verification/Descriptors.thy ===== *)
theory Descriptors
  imports Replication_Props
begin

text \<open>
  Group descriptors (\<^verbatim>\<open>cordelia-node/src/swarm_task.rs\<close>): how a node advertises the groups
  it knows, signing those it owns, and how it merges the descriptors of its peers. The node's
  Ed25519 key is a record of its public key and its signing function.
\<close>

section \<open>Advertising\<close>

record node_identity =
  ni_public_key :: bytes
  ni_sign :: "bytes \<Rightarrow> bytes"

definition is_owner :: "db \<Rightarrow> group_id \<Rightarrow> string \<Rightarrow> bool" where
  "is_owner d g e =
     (case get_membership d g e of
        Ok (Some m) \<Rightarrow> gm_role m = ''owner''
      | _ \<Rightarrow> False)"

definition descriptor_of_group :: "crypto_lib \<Rightarrow> group_row \<Rightarrow> group_descriptor" where
  "descriptor_of_group L g =
     \<lparr>gd_id = gr_id g, gd_culture = gr_culture g, gd_updated_at = gr_updated_at g,
      gd_checksum = compute_checksum L (gr_id g) (gr_culture g), gd_owner_id = gr_owner_id g,
      gd_owner_pubkey = gr_owner_pubkey g, gd_signature = gr_signature g\<rparr>"

definition we_own_it :: "db \<Rightarrow> string \<Rightarrow> group_row \<Rightarrow> bool" where
  "we_own_it d our_entity_id g \<longleftrightarrow>
     gr_owner_id g = Some our_entity_id \<or>
     gr_owner_id g = None \<and> is_owner d (gr_id g) our_entity_id"

definition build_descriptor ::
  "crypto_lib \<Rightarrow> node_identity \<Rightarrow> string \<Rightarrow> db \<Rightarrow> group_row \<Rightarrow> group_descriptor \<times> db" where
  "build_descriptor L ni our_entity_id d g =
     (let desc = descriptor_of_group L g;
          pubkey_hex = lib_hex_encode L (ni_public_key ni)
      in if we_own_it d our_entity_id g \<and> gr_signature g = None
         then
           let sig = lib_hex_encode L (ni_sign ni (signing_payload desc))
           in (desc\<lparr>gd_owner_id := Some our_entity_id, gd_owner_pubkey := Some pubkey_hex,
                    gd_signature := Some sig\<rparr>,
               snd (write_group_signature d (gr_id g) our_entity_id pubkey_hex sig))
         else (desc, d))"

fun build_all ::
  "crypto_lib \<Rightarrow> node_identity \<Rightarrow> string \<Rightarrow> db \<Rightarrow> group_row list \<Rightarrow> group_descriptor list \<times> db" where
  "build_all L ni eid d [] = ([], d)"
| "build_all L ni eid d (g # gs) =
     (let (desc, d1) = build_descriptor L ni eid d g;
          (descs, d2) = build_all L ni eid d1 gs
      in (desc # descs, d2))"

definition build_descriptors ::
  "crypto_lib \<Rightarrow> node_identity \<Rightarrow> string \<Rightarrow> db \<Rightarrow> group_descriptor list option \<times> db" where
  "build_descriptors L ni our_entity_id d =
     (case list_groups d of
        Ok groups \<Rightarrow>
          if groups \<noteq> []
          then (case build_all L ni our_entity_id d groups of (descs, d') \<Rightarrow> (Some descs, d'))
          else (None, d)
      | Err _ \<Rightarrow> (None, d))"

section \<open>Merging\<close>

definition verify_descriptor_signature ::
  "crypto_lib \<Rightarrow> group_descriptor \<Rightarrow> string \<Rightarrow> string \<Rightarrow> bool" where
  "verify_descriptor_signature L desc pubkey_hex sig_hex =
     (case lib_hex_decode L pubkey_hex of
        None \<Rightarrow> False
      | Some pubkey_bytes \<Rightarrow>
          case lib_hex_decode L sig_hex of
            None \<Rightarrow> False
          | Some sig_bytes \<Rightarrow> lib_ed25519_verify L pubkey_bytes (signing_payload desc) sig_bytes)"

fun contains_str :: "string \<Rightarrow> string \<Rightarrow> bool" where
  "contains_str [] pat \<longleftrightarrow> pat = []"
| "contains_str (c # s) pat \<longleftrightarrow> take (length pat) (c # s) = pat \<or> contains_str s pat"

definition parse_eagerness :: "string \<Rightarrow> nat" where
  "parse_eagerness culture =
     (let quoted = (\<lambda>w. CHR 0x22 # w @ [CHR 0x22])
      in if contains_str culture (quoted ''eager'') \<or> contains_str culture (quoted ''chatty'') \<or>
            contains_str culture (quoted ''moderate'')
         then 2 else 0)"

definition eagerness_increased :: "string \<Rightarrow> string \<Rightarrow> bool" where
  "eagerness_increased old_culture new_culture \<longleftrightarrow>
     parse_eagerness old_culture < parse_eagerness new_culture"

record merge_result =
  mr_upserted :: "string list"
  mr_tombstoned :: "string list"

text \<open>
  The tests before the last-writer-wins step, in the order of the source; an informational log
  of increased eagerness follows them and has no effect.
\<close>

definition descriptor_acceptable :: "crypto_lib \<Rightarrow> db \<Rightarrow> group_descriptor \<Rightarrow> bool" where
  "descriptor_acceptable L d desc =
     (if \<not> verify_checksum L desc then False
      else if 4096 < length (gd_culture desc) \<and> \<not> is_tombstone desc then False
      else if (case (gd_owner_pubkey desc, gd_signature desc) of
                 (Some pubkey_hex, Some sig_hex) \<Rightarrow> \<not> verify_descriptor_signature L desc pubkey_hex sig_hex
               | _ \<Rightarrow> False)
      then False
      else case read_group d (gd_id desc) of
             Ok (Some local) \<Rightarrow>
               if gr_signature local \<noteq> None \<and> gd_signature desc = None then False
               else (case (gr_owner_pubkey local, gd_owner_pubkey desc) of
                       (Some local_owner, Some incoming_owner) \<Rightarrow> local_owner = incoming_owner
                     | _ \<Rightarrow> True)
           | _ \<Rightarrow> True)"

definition local_name_if_newer :: "db \<Rightarrow> group_descriptor \<Rightarrow> string option" where
  "local_name_if_newer d desc =
     (case read_group d (gd_id desc) of
        Ok (Some local) \<Rightarrow>
          if gd_updated_at desc \<le> gr_updated_at local then None else Some (gr_name local)
      | _ \<Rightarrow> Some (gd_id desc))"

definition remove_all_members :: "db \<Rightarrow> group_id \<Rightarrow> db" where
  "remove_all_members d g =
     (case list_members d g of
        Ok members \<Rightarrow>
          foldl (\<lambda>d m. snd (update_member_posture d g (gm_entity_id m) ''removed'')) d members
      | Err _ \<Rightarrow> d)"

definition persist_signature :: "db \<Rightarrow> group_descriptor \<Rightarrow> db" where
  "persist_signature d desc =
     (case (gd_owner_id desc, gd_owner_pubkey desc, gd_signature desc) of
        (Some oid, Some pk, Some sig) \<Rightarrow> snd (write_group_signature d (gd_id desc) oid pk sig)
      | _ \<Rightarrow> d)"

definition merge_descriptor ::
  "crypto_lib \<Rightarrow> string \<Rightarrow> db \<times> merge_result \<Rightarrow> group_descriptor \<Rightarrow> db \<times> merge_result" where
  "merge_descriptor L now dr desc =
     (case dr of (d, r) \<Rightarrow>
       if \<not> descriptor_acceptable L d desc then (d, r)
       else case local_name_if_newer d desc of
              None \<Rightarrow> (d, r)
            | Some local_name \<Rightarrow>
                (case write_group now d (gd_id desc) local_name (gd_culture desc) ''{}'' of
                   (Err _, d1) \<Rightarrow> (d1, r)
                 | (Ok _, d1) \<Rightarrow>
                     let d2 = persist_signature d1 desc
                     in if is_tombstone desc
                        then (remove_all_members d2 (gd_id desc),
                              r\<lparr>mr_tombstoned := mr_tombstoned r @ [gd_id desc]\<rparr>)
                        else (d2, r\<lparr>mr_upserted := mr_upserted r @ [gd_id desc]\<rparr>)))"

definition merge_descriptors ::
  "crypto_lib \<Rightarrow> string \<Rightarrow> db \<Rightarrow> group_descriptor list \<Rightarrow> merge_result \<times> db" where
  "merge_descriptors L now d descs =
     (case foldl (merge_descriptor L now) (d, \<lparr>mr_upserted = [], mr_tombstoned = []\<rparr>) descs of
        (d', r) \<Rightarrow> (r, d'))"

section \<open>Merging preserves the database invariant\<close>

lemma posture_frame [simp]:
  "groups_tab (snd (update_member_posture d g e p)) = groups_tab d"
  "l2_items (snd (update_member_posture d g e p)) = l2_items d"
  "db_fault (snd (update_member_posture d g e p)) = db_fault d"
  by (auto simp: update_member_posture_def exec_def split: option.split)

lemma remove_all_members_frame [simp]:
  "groups_tab (remove_all_members d g) = groups_tab d"
  "l2_items (remove_all_members d g) = l2_items d"
  "db_fault (remove_all_members d g) = db_fault d"
proof -
  have f: "groups_tab (foldl (\<lambda>d m. snd (update_member_posture d g (gm_entity_id m) ''removed'')) d ms) = groups_tab d \<and>
    l2_items (foldl (\<lambda>d m. snd (update_member_posture d g (gm_entity_id m) ''removed'')) d ms) = l2_items d \<and>
    db_fault (foldl (\<lambda>d m. snd (update_member_posture d g (gm_entity_id m) ''removed'')) d ms) = db_fault d" for ms
    by (induction ms arbitrary: d) simp_all
  show "groups_tab (remove_all_members d g) = groups_tab d"
    "l2_items (remove_all_members d g) = l2_items d"
    "db_fault (remove_all_members d g) = db_fault d"
    using f by (auto simp: remove_all_members_def split: sum.split)
qed

lemma group_write_frame [simp]:
  "l2_items (snd (write_group now d i n c p)) = l2_items d"
  "db_fault (snd (write_group now d i n c p)) = db_fault d"
  "group_members (snd (write_group now d i n c p)) = group_members d"
  "l2_items (snd (write_group_signature d i ow pk sig)) = l2_items d"
  "db_fault (snd (write_group_signature d i ow pk sig)) = db_fault d"
  "group_members (snd (write_group_signature d i ow pk sig)) = group_members d"
  by (auto simp: write_group_def write_group_signature_def exec_def split: option.split)

lemma persist_signature_frame [simp]:
  "l2_items (persist_signature d desc) = l2_items d"
  "db_fault (persist_signature d desc) = db_fault d"
  "group_members (persist_signature d desc) = group_members d"
  by (auto simp: persist_signature_def split: option.split)

lemma remove_all_members_inv: "db_inv L d \<Longrightarrow> db_inv L (remove_all_members d g)"
proof -
  assume "db_inv L d"
  then have "db_inv L (foldl (\<lambda>d m. snd (update_member_posture d g (gm_entity_id m) ''removed'')) d ms)" for ms
    by (induction ms arbitrary: d) (simp_all add: update_member_posture_inv)
  then show ?thesis
    using \<open>db_inv L d\<close> by (auto simp: remove_all_members_def split: sum.split)
qed

lemma persist_signature_inv: "db_inv L d \<Longrightarrow> db_inv L (persist_signature d desc)"
  by (auto simp: persist_signature_def write_group_signature_inv split: option.split)

text \<open>What one descriptor can do: nothing, or the write of its group and what follows it.\<close>

definition merge_write :: "string \<Rightarrow> db \<Rightarrow> group_descriptor \<Rightarrow> string \<Rightarrow> db" where
  "merge_write now d desc name =
     (let d1 = snd (write_group now d (gd_id desc) name (gd_culture desc) ''{}'');
          d2 = persist_signature d1 desc
      in if is_tombstone desc then remove_all_members d2 (gd_id desc) else d2)"

lemma merge_descriptor_cases:
  obtains (unchanged) "merge_descriptor L now (d, r) desc = (d, r)"
  | (written) name where "descriptor_acceptable L d desc" "local_name_if_newer d desc = Some name"
      "db_fault d OpWriteGroup = None"
      "fst (merge_descriptor L now (d, r) desc) = merge_write now d desc name"
      "snd (merge_descriptor L now (d, r) desc) =
         (if is_tombstone desc then r\<lparr>mr_tombstoned := mr_tombstoned r @ [gd_id desc]\<rparr>
          else r\<lparr>mr_upserted := mr_upserted r @ [gd_id desc]\<rparr>)"
proof (cases "descriptor_acceptable L d desc \<and> local_name_if_newer d desc \<noteq> None \<and>
    db_fault d OpWriteGroup = None")
  case True
  then obtain name where n: "local_name_if_newer d desc = Some name"
    by auto
  with True show ?thesis
    by (intro written [of name])
      (simp_all add: merge_descriptor_def merge_write_def write_group_def Let_def)
next
  case False
  then have "merge_descriptor L now (d, r) desc = (d, r)"
    by (auto simp: merge_descriptor_def write_group_def exec_def split: option.split)
  then show ?thesis
    by (rule unchanged)
qed

lemma merge_write_inv: "db_inv L d \<Longrightarrow> db_inv L (merge_write now d desc name)"
  by (simp add: merge_write_def Let_def remove_all_members_inv persist_signature_inv write_group_inv)

lemma merge_write_frame [simp]:
  "l2_items (merge_write now d desc name) = l2_items d"
  "db_fault (merge_write now d desc name) = db_fault d"
  by (simp_all add: merge_write_def Let_def)

lemma merge_descriptor_inv: "db_inv L d \<Longrightarrow> db_inv L (fst (merge_descriptor L now (d, r) desc))"
  by (rule merge_descriptor_cases [of L now d r desc]) (simp_all add: merge_write_inv)

lemma merge_descriptor_frame [simp]:
  "l2_items (fst (merge_descriptor L now (d, r) desc)) = l2_items d"
  "db_fault (fst (merge_descriptor L now (d, r) desc)) = db_fault d"
  by (rule merge_descriptor_cases [of L now d r desc]; simp)+

lemma merge_descriptors_inv: "db_inv L d \<Longrightarrow> db_inv L (snd (merge_descriptors L now d descs))"
proof -
  assume "db_inv L d"
  then have "db_inv L (fst (foldl (merge_descriptor L now) (d, r) descs))" for r
  proof (induction descs arbitrary: d r)
    case (Cons desc descs)
    then show ?case
      using merge_descriptor_inv [of L d now r desc]
      by (cases "merge_descriptor L now (d, r) desc") simp
  qed simp
  then show ?thesis
    by (simp add: merge_descriptors_def split_beta)
qed

section \<open>Owner signatures\<close>

definition signature_row :: "group_cols \<Rightarrow> group_descriptor \<Rightarrow> group_cols" where
  "signature_row c desc =
     (case (gd_owner_id desc, gd_owner_pubkey desc, gd_signature desc) of
        (Some oid, Some pk, Some sig) \<Rightarrow>
          c\<lparr>g_owner_id := Some oid, g_owner_pubkey := Some pk, g_signature := Some sig\<rparr>
      | _ \<Rightarrow> c)"

lemma merge_write_get:
  assumes "db_fault d OpWriteGroup = None" "db_fault d OpWriteGroupSignature = None"
  shows "hm_get (groups_tab (merge_write now d desc name)) k =
    (if k = gd_id desc
     then Some (signature_row
       (case hm_get (groups_tab d) k of
          Some c \<Rightarrow> c\<lparr>g_name := name, g_culture := gd_culture desc, g_security_policy := ''{}'',
                     g_updated_at := now\<rparr>
        | None \<Rightarrow> \<lparr>g_name = name, g_culture = gd_culture desc, g_security_policy = ''{}'',
                   g_created_at = now, g_updated_at = now, g_owner_id = None,
                   g_owner_pubkey = None, g_signature = None\<rparr>) desc)
     else hm_get (groups_tab d) k)"
  using assms
  by (auto simp: merge_write_def Let_def persist_signature_def write_group_def
      write_group_signature_def signature_row_def hm_get_simps split: option.split)

lemma merge_other_group:
  "k \<noteq> gd_id desc \<Longrightarrow>
   hm_get (groups_tab (fst (merge_descriptor L now (d, r) desc))) k = hm_get (groups_tab d) k"
  by (rule merge_descriptor_cases [of L now d r desc])
    (auto simp: merge_write_def Let_def persist_signature_def write_group_def
      write_group_signature_def hm_get_simps exec_def split: option.split)

text \<open>
  A signed group stays bound to its key, and only a descriptor under a verifying signature of
  that key changes its row, as long as the descriptors name an owner key at all.
\<close>

definition owned_by :: "db \<Rightarrow> group_id \<Rightarrow> string \<Rightarrow> bool" where
  "owned_by d g pk \<longleftrightarrow>
     (\<exists>c. hm_get (groups_tab d) g = Some c \<and> g_owner_pubkey c = Some pk \<and> g_signature c \<noteq> None)"

lemma acceptable_signed:
  assumes "descriptor_acceptable L d desc" "owned_by d (gd_id desc) pk"
    and "gd_owner_pubkey desc \<noteq> None" "db_fault d OpReadGroup = None"
  shows "gd_owner_pubkey desc = Some pk \<and>
    (\<exists>sig. gd_signature desc = Some sig \<and> verify_descriptor_signature L desc pk sig)"
  using assms
  by (auto simp: descriptor_acceptable_def owned_by_def read_group_def row_of_group_def
      split: if_splits option.splits)

lemma merge_keeps_owner:
  assumes own: "owned_by d g pk" and pk: "gd_owner_pubkey desc \<noteq> None"
    and f: "db_fault d OpReadGroup = None" "db_fault d OpWriteGroupSignature = None"
  shows "owned_by (fst (merge_descriptor L now (d, r) desc)) g pk"
proof (cases "g = gd_id desc")
  case True
  show ?thesis
  proof (rule merge_descriptor_cases [of L now d r desc])
    fix name
    assume w: "descriptor_acceptable L d desc" "db_fault d OpWriteGroup = None"
      "fst (merge_descriptor L now (d, r) desc) = merge_write now d desc name"
    have "gd_owner_pubkey desc = Some pk"
      using acceptable_signed [OF w(1) own [unfolded True] pk f(1)] by simp
    then show ?thesis
      using own w f True
      by (auto simp: owned_by_def merge_write_get signature_row_def split: option.split)
  qed (use own in simp)
qed (use own in \<open>simp add: owned_by_def merge_other_group\<close>)

lemma merge_changes_signed:
  assumes own: "owned_by d g pk" and pk: "gd_owner_pubkey desc \<noteq> None"
    and f: "db_fault d OpReadGroup = None"
    and ch: "hm_get (groups_tab (fst (merge_descriptor L now (d, r) desc))) g \<noteq> hm_get (groups_tab d) g"
  shows "gd_id desc = g \<and> gd_owner_pubkey desc = Some pk \<and>
    (\<exists>sig. gd_signature desc = Some sig \<and> verify_descriptor_signature L desc pk sig)"
proof -
  have g: "g = gd_id desc"
    using ch merge_other_group by metis
  show ?thesis
    by (rule merge_descriptor_cases [of L now d r desc])
      (use ch g acceptable_signed [OF _ own [unfolded g] pk f] in simp_all)
qed

text \<open>
  C15. Owner protection. A group known with an owner key and a signature is changed by an exchange
  only when one of the descriptors names that key and carries a signature that verifies under it;
  the hypothesis is that every descriptor of the exchange names some owner key. The group also
  stays bound to the key it was known with.
\<close>

theorem signed_group_owner_protected:
  assumes "owned_by d g pk" and "\<forall>desc \<in> set descs. gd_owner_pubkey desc \<noteq> None"
    and "db_fault d OpReadGroup = None" "db_fault d OpWriteGroupSignature = None"
  shows "owned_by (snd (merge_descriptors L now d descs)) g pk \<and>
    (hm_get (groups_tab (snd (merge_descriptors L now d descs))) g = hm_get (groups_tab d) g \<or>
     (\<exists>desc \<in> set descs. gd_id desc = g \<and> gd_owner_pubkey desc = Some pk \<and>
        (\<exists>sig. gd_signature desc = Some sig \<and> verify_descriptor_signature L desc pk sig)))"
proof -
  let ?run = "\<lambda>d r descs. fst (foldl (merge_descriptor L now) (d, r) descs)"
  let ?auth = "\<lambda>desc. gd_id desc = g \<and> gd_owner_pubkey desc = Some pk \<and>
    (\<exists>sig. gd_signature desc = Some sig \<and> verify_descriptor_signature L desc pk sig)"
  have "owned_by (?run d r descs) g pk \<and>
    (hm_get (groups_tab (?run d r descs)) g = hm_get (groups_tab d) g \<or> (\<exists>desc \<in> set descs. ?auth desc))" for r
    using assms
  proof (induction descs arbitrary: d r)
    case (Cons desc descs)
    obtain d1 r1 where m: "merge_descriptor L now (d, r) desc = (d1, r1)"
      by (rule prod.exhaust)
    have "owned_by d1 g pk" "db_fault d1 = db_fault d"
      using merge_keeps_owner [of d g pk desc L now r] merge_descriptor_frame(2) [of L now d r desc]
        Cons.prems m by simp_all
    moreover have "?auth desc \<or> hm_get (groups_tab d1) g = hm_get (groups_tab d) g"
      using merge_changes_signed [of d g pk desc L now r] Cons.prems m by auto
    ultimately show ?case
      using Cons.IH [of d1 r1] Cons.prems m by auto
  qed simp
  then show ?thesis
    by (simp add: merge_descriptors_def split_beta)
qed

definition db_group_w :: db where
  "db_group_w =
     snd (write_group_signature
       (snd (add_member ''t0'' (snd (write_group ''t1'' db_w ''g1'' ''G'' ''quiet'' ''{}''))
          ''g1'' ''alice'' ''owner''))
       ''g1'' ''alice'' ''k'' ''s'')"

lemma db_group_w_evals:
  "db_fault db_group_w = (\<lambda>_. None)"
  "groups_tab db_group_w =
     [(''g1'', \<lparr>g_name = ''G'', g_culture = ''quiet'', g_security_policy = ''{}'',
        g_created_at = ''t1'', g_updated_at = ''t1'', g_owner_id = Some ''alice'',
        g_owner_pubkey = Some ''k'', g_signature = Some ''s''\<rparr>)]"
  "group_members db_group_w =
     [((''g1'', ''alice''), \<lparr>m_role = ''owner'', m_posture = Some ''active'', m_joined_at = ''t0''\<rparr>)]"
  by (simp_all add: db_group_w_def write_group_def write_group_signature_def add_member_def db_w_def
      db_of_schema_def schema_checks Let_def insert_l1_stub_def upsert_member_def hm_modify_def)

lemma owned_by_w: "owned_by db_group_w ''g1'' ''k''"
  by (simp add: owned_by_def db_group_w_evals)

definition forged_w :: group_descriptor where
  "forged_w =
     \<lparr>gd_id = ''g1'', gd_culture = ''loud'', gd_updated_at = ''t2'',
      gd_checksum = compute_checksum L_w ''g1'' ''loud'', gd_owner_id = Some ''mallory'',
      gd_owner_pubkey = Some ''m'', gd_signature = Some ''forged''\<rparr>"

theorem signed_group_owner_protected_witness:
  "hm_get (groups_tab (snd (merge_descriptors L_w ''t3'' db_group_w [forged_w]))) ''g1'' =
     hm_get (groups_tab db_group_w) ''g1''"
  using signed_group_owner_protected [OF owned_by_w, of "[forged_w]" L_w "''t3''"]
  by (simp add: db_group_w_evals forged_w_def)

section \<open>Tombstones\<close>

lemma remove_member_rows:
  assumes "db_fault d OpUpdatePosture = None"
  shows "hm_get (group_members (foldl (\<lambda>d m. snd (update_member_posture d g (gm_entity_id m) ''removed'')) d ms)) k =
    map_option (\<lambda>c. if fst k = g \<and> snd k \<in> gm_entity_id ` set ms
                   then c\<lparr>m_posture := Some ''removed''\<rparr> else c) (hm_get (group_members d) k)"
  using assms
proof (induction ms arbitrary: d)
  case Nil
  then show ?case
    by (simp add: option.map_ident)
next
  case (Cons m ms)
  have "hm_get (group_members (snd (update_member_posture d g (gm_entity_id m) ''removed''))) k =
      map_option (\<lambda>c. if k = (g, gm_entity_id m) then c\<lparr>m_posture := Some ''removed''\<rparr> else c)
        (hm_get (group_members d) k)"
    using Cons.prems
    by (auto simp: update_member_posture_def hm_get_simps option.map_ident split: option.split)
  then show ?case
    using Cons by (auto simp: option.map_comp comp_def prod_eq_iff intro!: option.map_cong)
qed

lemma listed_members:
  "db_fault d OpListMembers = None \<Longrightarrow> hm_wf (group_members d) \<Longrightarrow>
   list_members d g = Ok ms \<Longrightarrow>
   e \<in> gm_entity_id ` set ms \<longleftrightarrow>
     (\<exists>c. hm_get (group_members d) (g, e) = Some c \<and> posture_not_removed (m_posture c))"
  by (force simp: list_members_def row_of_member_def hm_get_iff image_iff)

lemma remove_all_members_get:
  assumes "db_fault d OpListMembers = None" "db_fault d OpUpdatePosture = None"
    and "hm_wf (group_members d)"
  shows "hm_get (group_members (remove_all_members d g)) k =
    map_option (\<lambda>c. if fst k = g \<and> posture_not_removed (m_posture c)
                   then c\<lparr>m_posture := Some ''removed''\<rparr> else c) (hm_get (group_members d) k)"
proof -
  obtain ms where ms: "list_members d g = Ok ms"
    using assms by (simp add: list_members_def)
  show ?thesis
    using listed_members [OF assms(1,3) ms, of "snd k"] assms(2)
    by (cases "hm_get (group_members d) k"; cases k)
      (auto simp: remove_all_members_def ms remove_member_rows)
qed

lemma remove_all_members_wf:
  "hm_wf (group_members d) \<Longrightarrow> hm_wf (group_members (remove_all_members d g))"
proof -
  have "hm_wf (group_members (snd (update_member_posture d g e p))) \<longleftrightarrow> hm_wf (group_members d)" for d e p
    by (auto simp: update_member_posture_def exec_def hm_wf_def split: option.split)
  then have "hm_wf (group_members (foldl (\<lambda>d m. snd (update_member_posture d g (gm_entity_id m) ''removed'')) d ms))
      \<longleftrightarrow> hm_wf (group_members d)" for ms
    by (induction ms arbitrary: d) simp_all
  then show "hm_wf (group_members d) \<Longrightarrow> ?thesis"
    by (auto simp: remove_all_members_def split: sum.split)
qed

lemma remove_all_members_none_left:
  assumes "db_fault d OpListMembers = None" "db_fault d OpUpdatePosture = None"
    and "hm_wf (group_members d)"
  shows "list_members (remove_all_members d g) g = Ok []"
proof -
  have "\<not> posture_not_removed (m_posture c)" if "((g, e), c) \<in> set (group_members (remove_all_members d g))" for e c
  proof -
    have "hm_get (group_members (remove_all_members d g)) (g, e) = Some c"
      using that remove_all_members_wf [OF assms(3), of g] by (simp add: hm_get_iff)
    then obtain c0 where "c = (if posture_not_removed (m_posture c0)
        then c0\<lparr>m_posture := Some ''removed''\<rparr> else c0)"
      using remove_all_members_get [OF assms, of g "(g, e)"] by auto
    then show ?thesis
      by (auto simp: posture_not_removed_def)
  qed
  then have "filter (\<lambda>(k, c). fst k = g \<and> posture_not_removed (m_posture c))
      (group_members (remove_all_members d g)) = []"
    by (auto simp: filter_empty_conv)
  then show ?thesis
    using assms(1) by (simp add: list_members_def)
qed

lemma merged_tombstone:
  assumes "is_tombstone desc" and "descriptor_acceptable L d desc"
    and "local_name_if_newer d desc = Some name"
    and "db_fault d = (\<lambda>_. None)" and "hm_wf (group_members d)"
  shows "case merge_descriptors L now d [desc] of (r, d') \<Rightarrow>
    r = \<lparr>mr_upserted = [], mr_tombstoned = [gd_id desc]\<rparr> \<and>
    list_members d' (gd_id desc) = Ok [] \<and>
    (\<exists>row. read_group d' (gd_id desc) = Ok (Some row) \<and> gr_culture row = GROUP_TOMBSTONE_CULTURE) \<and>
    (\<forall>g' e. g' \<noteq> gd_id desc \<longrightarrow> hm_get (group_members d') (g', e) = hm_get (group_members d) (g', e)) \<and>
    l2_items d' = l2_items d"
proof -
  let ?d1 = "snd (write_group now d (gd_id desc) name (gd_culture desc) ''{}'')"
  have m: "merge_descriptors L now d [desc] =
      (\<lparr>mr_upserted = [], mr_tombstoned = [gd_id desc]\<rparr>, merge_write now d desc name)"
    using assms by (simp add: merge_descriptors_def merge_descriptor_def merge_write_def write_group_def Let_def)
  have w: "merge_write now d desc name = remove_all_members (persist_signature ?d1 desc) (gd_id desc)"
    using assms(1) by (simp add: merge_write_def Let_def)
  have "list_members (merge_write now d desc name) (gd_id desc) = Ok []"
    unfolding w using assms by (intro remove_all_members_none_left) simp_all
  moreover have "\<exists>row. read_group (merge_write now d desc name) (gd_id desc) = Ok (Some row) \<and>
      gr_culture row = GROUP_TOMBSTONE_CULTURE"
    using assms
    by (auto simp: read_group_def merge_write_get row_of_group_def signature_row_def is_tombstone_def
        split: option.split)
  moreover have "hm_get (group_members (merge_write now d desc name)) (g', e) = hm_get (group_members d) (g', e)"
    if "g' \<noteq> gd_id desc" for g' e
    unfolding w using assms that by (subst remove_all_members_get) (simp_all add: option.map_ident)
  ultimately show ?thesis
    using assms by (simp add: m)
qed

text \<open>
  Deletion of a group by its tombstone. A newer tombstone descriptor that passes the checks
  leaves the group as a tombstone without a listed member and reports it as tombstoned; the
  members of every other group, and all items, are as before.
\<close>

theorem tombstone_merge_removes_members:
  assumes "is_tombstone desc" and "descriptor_acceptable L d desc"
    and "local_name_if_newer d desc = Some name"
    and "db_fault d = (\<lambda>_. None)" and "hm_wf (group_members d)"
  shows "case merge_descriptors L now d [desc] of (r, d') \<Rightarrow>
    r = \<lparr>mr_upserted = [], mr_tombstoned = [gd_id desc]\<rparr> \<and>
    list_members d' (gd_id desc) = Ok [] \<and>
    (\<exists>row. read_group d' (gd_id desc) = Ok (Some row) \<and> gr_culture row = GROUP_TOMBSTONE_CULTURE) \<and>
    (\<forall>g' e. g' \<noteq> gd_id desc \<longrightarrow> hm_get (group_members d') (g', e) = hm_get (group_members d) (g', e)) \<and>
    l2_items d' = l2_items d"
  by (rule merged_tombstone [OF assms])

definition deletion_w :: group_descriptor where
  "deletion_w =
     \<lparr>gd_id = ''g1'', gd_culture = GROUP_TOMBSTONE_CULTURE, gd_updated_at = ''t2'',
      gd_checksum = compute_checksum L_w ''g1'' GROUP_TOMBSTONE_CULTURE,
      gd_owner_id = Some ''alice'', gd_owner_pubkey = Some ''k'',
      gd_signature = Some (''k'' @ ''g1'' @ newline @ GROUP_TOMBSTONE_CULTURE @ newline @ ''t2'')\<rparr>"

lemma deletion_w_accepted:
  "is_tombstone deletion_w" "descriptor_acceptable L_w db_group_w deletion_w"
  "local_name_if_newer db_group_w deletion_w = Some ''G''"
  "verify_descriptor_signature L_w deletion_w ''k''
     (''k'' @ ''g1'' @ newline @ GROUP_TOMBSTONE_CULTURE @ newline @ ''t2'')"
  by (simp_all add: deletion_w_def is_tombstone_def descriptor_acceptable_def verify_checksum_def
      verify_descriptor_signature_def signing_payload_def as_bytes_def L_w_def local_name_if_newer_def
      read_group_def row_of_group_def db_group_w_evals list_less_def less_eq_list_code
      less_eq_char_simp less_char_simp)

theorem tombstone_merge_removes_members_witness:
  "list_members db_group_w ''g1'' \<noteq> Ok [] \<and>
   list_members (snd (merge_descriptors L_w ''t3'' db_group_w [deletion_w])) ''g1'' = Ok []"
  using tombstone_merge_removes_members [OF deletion_w_accepted(1-3), of "''t3''"]
  by (auto simp: db_group_w_evals hm_wf_def deletion_w_def list_members_def posture_not_removed_def
      split: prod.splits)

definition keyless_tombstone :: "crypto_lib \<Rightarrow> group_id \<Rightarrow> string \<Rightarrow> string \<Rightarrow> group_descriptor" where
  "keyless_tombstone L g t sig =
     \<lparr>gd_id = g, gd_culture = GROUP_TOMBSTONE_CULTURE, gd_updated_at = t,
      gd_checksum = compute_checksum L g GROUP_TOMBSTONE_CULTURE, gd_owner_id = None,
      gd_owner_pubkey = None, gd_signature = Some sig\<rparr>"

text \<open>
  C16. The owner check does not cover a descriptor without an owner key. A signature of any
  content satisfies the rule against unsigned updates of a signed group, and with no key to check
  it against it is not verified: a peer that owns nothing can replace the culture of a signed
  group by the tombstone, so that every member of it is removed.
\<close>

theorem keyless_tombstone_deletes_signed_group:
  assumes "owned_by d g pk" and "hm_get (groups_tab d) g = Some c" and "g_updated_at c < t"
    and "db_fault d = (\<lambda>_. None)" and "hm_wf (group_members d)"
  shows "case merge_descriptors L now d [keyless_tombstone L g t sig] of (r, d') \<Rightarrow>
    mr_tombstoned r = [g] \<and> list_members d' g = Ok [] \<and>
    (\<exists>row. read_group d' g = Ok (Some row) \<and> gr_culture row = GROUP_TOMBSTONE_CULTURE)"
proof -
  let ?desc = "keyless_tombstone L g t sig"
  have d: "is_tombstone ?desc" "gd_id ?desc = g"
    by (simp_all add: keyless_tombstone_def is_tombstone_def)
  have a: "descriptor_acceptable L d ?desc" "local_name_if_newer d ?desc = Some (g_name c)"
    using assms
    by (simp_all add: keyless_tombstone_def is_tombstone_def descriptor_acceptable_def
        verify_checksum_def local_name_if_newer_def read_group_def row_of_group_def split: option.split)
  show ?thesis
    using merged_tombstone [OF d(1) a assms(4,5), of now] d(2) by (simp split: prod.splits)
qed

theorem keyless_tombstone_deletes_signed_group_witness:
  "owned_by db_group_w ''g1'' ''k'' \<and>
   list_members (snd (merge_descriptors L_w ''t3'' db_group_w
     [keyless_tombstone L_w ''g1'' ''t2'' ''anything''])) ''g1'' = Ok []"
proof -
  obtain c where c: "hm_get (groups_tab db_group_w) ''g1'' = Some c" "g_updated_at c = ''t1''"
    by (simp add: db_group_w_evals)
  have "''t1'' < ''t2''"
    by (simp add: less_list_code less_char_simp)
  then show ?thesis
    using keyless_tombstone_deletes_signed_group [OF owned_by_w c(1), of "''t2''" L_w "''t3''" "''anything''"]
      c(2) owned_by_w
    by (auto simp: db_group_w_evals hm_wf_def split: prod.splits)
qed

section \<open>Advertised descriptors\<close>

lemma we_own_it_cong:
  "group_members d = group_members d' \<Longrightarrow> db_fault d = db_fault d' \<Longrightarrow>
   we_own_it d e g \<longleftrightarrow> we_own_it d' e g"
  by (simp add: we_own_it_def is_owner_def get_membership_def query_def)

lemma build_descriptor_frame [simp]:
  "group_members (snd (build_descriptor L ni e d g)) = group_members d"
  "db_fault (snd (build_descriptor L ni e d g)) = db_fault d"
  "l2_items (snd (build_descriptor L ni e d g)) = l2_items d"
  by (simp_all add: build_descriptor_def Let_def)

lemma build_descriptor_cong:
  "group_members d = group_members d' \<Longrightarrow> db_fault d = db_fault d' \<Longrightarrow>
   fst (build_descriptor L ni e d g) = fst (build_descriptor L ni e d' g)"
  using we_own_it_cong [of d d' e g] by (simp add: build_descriptor_def Let_def)

lemma build_all_descriptors: "fst (build_all L ni e d gs) = map (\<lambda>g. fst (build_descriptor L ni e d g)) gs"
proof (induction gs arbitrary: d)
  case (Cons g gs)
  have "fst (build_descriptor L ni e (snd (build_descriptor L ni e d g)) g') = fst (build_descriptor L ni e d g')" for g'
    by (rule build_descriptor_cong) simp_all
  then show ?case
    using Cons.IH [of "snd (build_descriptor L ni e d g)"] by (simp add: split_beta Let_def)
qed simp

lemma build_all_frame [simp]:
  "group_members (snd (build_all L ni e d gs)) = group_members d"
  "db_fault (snd (build_all L ni e d gs)) = db_fault d"
  "l2_items (snd (build_all L ni e d gs)) = l2_items d"
  by (induction gs arbitrary: d) (simp_all add: split_beta Let_def)

lemma build_all_inv: "db_inv L d \<Longrightarrow> db_inv L (snd (build_all L ni e d gs))"
proof (induction gs arbitrary: d)
  case (Cons g gs)
  have "db_inv L (snd (build_descriptor L ni e d g))"
    using Cons.prems by (simp add: build_descriptor_def Let_def write_group_signature_inv)
  then show ?case
    using Cons.IH by (simp add: split_beta Let_def)
qed simp

lemma build_descriptors_inv: "db_inv L d \<Longrightarrow> db_inv L (snd (build_descriptors L ni e d))"
  by (auto simp: build_descriptors_def build_all_inv split_beta split: sum.split)

lemma build_descriptors_frame [simp]:
  "group_members (snd (build_descriptors L ni e d)) = group_members d"
  "db_fault (snd (build_descriptors L ni e d)) = db_fault d"
  "l2_items (snd (build_descriptors L ni e d)) = l2_items d"
  by (auto simp: build_descriptors_def split_beta split: sum.split)

lemma built_from_row:
  assumes "fst (build_descriptors L ni e d) = Some descs" "desc \<in> set descs"
  obtains i c where "(i, c) \<in> set (groups_tab d)" "desc = fst (build_descriptor L ni e d (row_of_group i c))"
proof -
  obtain gs where "list_groups d = Ok gs" "descs = map (\<lambda>g. fst (build_descriptor L ni e d g)) gs"
    using assms(1) by (auto simp: build_descriptors_def split_beta build_all_descriptors
        split: sum.splits if_splits)
  then show ?thesis
    using assms(2) that by (fastforce simp: list_groups_def query_def split: option.splits)
qed

lemma built_id [simp]: "gd_id (fst (build_descriptor L ni e d g)) = gr_id g"
  by (simp add: build_descriptor_def Let_def descriptor_of_group_def)

text \<open>
  C17. A group an owner advertises for the first time reaches its peers. The descriptor the node
  signs for a group it owns is accepted by a peer that does not know the group, which then holds
  the group's culture bound to the owner's key. Ed25519 is assumed to verify what the node signs,
  and hex decoding to invert encoding.
\<close>

theorem signed_descriptor_accepted_by_peer:
  assumes verify: "\<forall>m. lib_ed25519_verify L (ni_public_key ni) m (ni_sign ni m)"
    and hex: "\<forall>b. lib_hex_decode L (lib_hex_encode L b) = Some b"
    and groups: "list_groups d = Ok gs" "g \<in> set gs"
    and own: "we_own_it d e g" "gr_signature g = None" "length (gr_culture g) \<le> 4096"
    and peer: "db_fault p = (\<lambda>_. None)" "hm_get (groups_tab p) (gr_id g) = None"
  shows "\<exists>descs desc row. fst (build_descriptors L ni e d) = Some descs \<and> desc \<in> set descs \<and>
    read_group (snd (merge_descriptors L now p [desc])) (gr_id g) = Ok (Some row) \<and>
    gr_culture row = gr_culture g \<and> gr_owner_id row = Some e \<and>
    gr_owner_pubkey row = Some (lib_hex_encode L (ni_public_key ni)) \<and> gr_signature row \<noteq> None"
proof -
  let ?desc = "fst (build_descriptor L ni e d g)"
  have desc: "gd_id ?desc = gr_id g" "gd_culture ?desc = gr_culture g"
    "gd_owner_id ?desc = Some e" "gd_owner_pubkey ?desc = Some (lib_hex_encode L (ni_public_key ni))"
    "verify_checksum L ?desc"
    "gd_signature ?desc = Some (lib_hex_encode L (ni_sign ni (signing_payload ?desc)))"
    using own by (simp_all add: build_descriptor_def Let_def descriptor_of_group_def verify_checksum_def
        signing_payload_def)
  have a: "descriptor_acceptable L p ?desc" "local_name_if_newer p ?desc = Some (gr_id g)"
    using desc verify hex own peer
    by (simp_all add: descriptor_acceptable_def verify_descriptor_signature_def local_name_if_newer_def
        read_group_def)
  have m: "snd (merge_descriptors L now p [?desc]) = merge_write now p ?desc (gr_id g)"
    using a peer by (simp add: merge_descriptors_def merge_descriptor_def merge_write_def write_group_def Let_def)
  have "\<exists>row. read_group (merge_write now p ?desc (gr_id g)) (gr_id g) = Ok (Some row) \<and>
      gr_culture row = gr_culture g \<and> gr_owner_id row = Some e \<and>
      gr_owner_pubkey row = Some (lib_hex_encode L (ni_public_key ni)) \<and> gr_signature row \<noteq> None"
    using desc peer by (simp add: read_group_def merge_write_get row_of_group_def signature_row_def)
  moreover have "fst (build_descriptors L ni e d) = Some (map (\<lambda>g. fst (build_descriptor L ni e d g)) gs)"
    using groups by (auto simp: build_descriptors_def split_beta build_all_descriptors)
  moreover have "?desc \<in> set (map (\<lambda>g. fst (build_descriptor L ni e d g)) gs)"
    using groups(2) by auto
  ultimately show ?thesis
    unfolding m [symmetric] by blast
qed

text \<open>
  C18. A signed descriptor stops after one hop. The merging node stores the time of the merge in
  place of the descriptor's own \<open>updated_at\<close>, which the signature covers, and advertises the group
  with the stored time and the old signature. When a signature verifies only for the payload it
  was made for, no third node accepts what the second one advertises.
\<close>

theorem merged_descriptor_not_forwarded:
  assumes desc: "gd_owner_id desc = Some oid" "gd_owner_pubkey desc = Some pk" "gd_signature desc = Some sig"
    and unforgeable: "\<forall>pkb sigb m. lib_hex_decode L pk = Some pkb \<longrightarrow> lib_hex_decode L sig = Some sigb \<longrightarrow>
      lib_ed25519_verify L pkb m sigb \<longrightarrow> m = signing_payload desc"
    and merged: "descriptor_acceptable L d desc" "local_name_if_newer d desc \<noteq> None"
    and faults: "db_fault d = (\<lambda>_. None)" and wf: "hm_wf (groups_tab d)"
    and clock: "now \<noteq> gd_updated_at desc"
    and adv: "fst (build_descriptors L ni e (snd (merge_descriptors L now d [desc]))) = Some descs"
      "desc' \<in> set descs" "gd_id desc' = gd_id desc"
  shows "merge_descriptors L now' third [desc'] = (\<lparr>mr_upserted = [], mr_tombstoned = []\<rparr>, third)"
proof -
  obtain name where name: "local_name_if_newer d desc = Some name"
    using merged(2) by auto
  have m: "snd (merge_descriptors L now d [desc]) = merge_write now d desc name"
    using merged(1) name faults
    by (simp add: merge_descriptors_def merge_descriptor_def merge_write_def write_group_def Let_def)
  have "hm_wf (groups_tab (merge_write now d desc name))"
    using wf faults
    by (auto simp: merge_write_def Let_def persist_signature_def write_group_def write_group_signature_def
        hm_wf_intros split: option.split)
  moreover obtain i c where row: "(i, c) \<in> set (groups_tab (merge_write now d desc name))"
    "desc' = fst (build_descriptor L ni e (merge_write now d desc name) (row_of_group i c))"
    using built_from_row [OF adv(1,2)] m by metis
  ultimately have "hm_get (groups_tab (merge_write now d desc name)) (gd_id desc) = Some c"
    using adv(3) by (simp add: hm_get_iff row_of_group_def)
  then have "g_signature c = Some sig" "g_owner_pubkey c = Some pk" "g_updated_at c = now"
    "g_culture c = gd_culture desc"
    using desc faults by (auto simp: merge_write_get signature_row_def split: option.splits)
  then have d': "gd_signature desc' = Some sig" "gd_owner_pubkey desc' = Some pk"
    "gd_updated_at desc' = now" "gd_culture desc' = gd_culture desc"
    by (simp_all add: row(2) build_descriptor_def Let_def descriptor_of_group_def row_of_group_def)
  have "signing_payload desc' \<noteq> signing_payload desc"
    using signing_payload_updated_at [of desc' desc] adv(3) d' clock by auto
  then have "\<not> verify_descriptor_signature L desc' pk sig"
    using unforgeable by (auto simp: verify_descriptor_signature_def split: option.splits)
  then have "\<not> descriptor_acceptable L third desc'"
    using d' by (simp add: descriptor_acceptable_def)
  then show ?thesis
    by (simp add: merge_descriptors_def merge_descriptor_def)
qed

definition ni_w :: node_identity where
  "ni_w = \<lparr>ni_public_key = [107], ni_sign = (\<lambda>m. 107 # m)\<rparr>"

definition L_hex_w :: crypto_lib where
  "L_hex_w = L_w\<lparr>lib_hex_encode := map (\<lambda>b. char_of (unat b))\<rparr>"

lemma hex_w: "lib_hex_decode L_hex_w (lib_hex_encode L_hex_w b) = Some b"
proof -
  have "of_char (char_of (unat x) :: char) = x" for x :: "8 word"
  proof -
    have "unat x < 256"
      using unsigned_less [of x] by simp
    then have "(of_char (char_of (unat x) :: char) :: nat) = unat x"
      by (simp only: of_char_of mod_less)
    then have "of_char (char_of (unat x) :: char) = (of_nat (unat x) :: 8 word)"
      using of_nat_of_char [of "char_of (unat x)", where 'a = "8 word"] by simp
    then show ?thesis
      by simp
  qed
  then show ?thesis
    by (simp add: L_hex_w_def L_w_def as_bytes_def comp_def)
qed

definition db_unsigned_w :: db where
  "db_unsigned_w =
     snd (add_member ''t0'' (snd (write_group ''t1'' db_w ''g1'' ''G'' ''quiet'' ''{}''))
       ''g1'' ''alice'' ''owner'')"

lemma db_unsigned_w_evals:
  "list_groups db_unsigned_w =
     Ok [\<lparr>gr_id = ''g1'', gr_name = ''G'', gr_culture = ''quiet'', gr_security_policy = ''{}'',
          gr_created_at = ''t1'', gr_updated_at = ''t1'', gr_owner_id = None,
          gr_owner_pubkey = None, gr_signature = None\<rparr>]"
  "is_owner db_unsigned_w ''g1'' ''alice''"
  by (simp_all add: db_unsigned_w_def write_group_def add_member_def db_w_def is_owner_def
      get_membership_def row_of_member_def posture_not_removed_def list_groups_def row_of_group_def
      db_of_schema_def schema_checks Let_def insert_l1_stub_def upsert_member_def)

theorem signed_descriptor_accepted_by_peer_witness:
  "\<exists>descs desc row. fst (build_descriptors L_hex_w ni_w ''alice'' db_unsigned_w) = Some descs \<and>
     desc \<in> set descs \<and>
     read_group (snd (merge_descriptors L_hex_w ''t3'' db_w [desc])) ''g1'' = Ok (Some row) \<and>
     gr_culture row = ''quiet'' \<and> gr_owner_id row = Some ''alice''"
proof -
  let ?g = "\<lparr>gr_id = ''g1'', gr_name = ''G'', gr_culture = ''quiet'', gr_security_policy = ''{}'',
    gr_created_at = ''t1'', gr_updated_at = ''t1'', gr_owner_id = None, gr_owner_pubkey = None,
    gr_signature = None\<rparr>"
  have v: "\<forall>m. lib_ed25519_verify L_hex_w (ni_public_key ni_w) m (ni_sign ni_w m)"
    by (simp add: L_hex_w_def L_w_def ni_w_def)
  show ?thesis
    using signed_descriptor_accepted_by_peer [OF v _ db_unsigned_w_evals(1), of ?g "''alice''" db_w "''t3''"]
      db_unsigned_w_evals(2)
    by (auto simp: hex_w we_own_it_def db_w_def db_of_schema_def)
qed

definition update_w :: group_descriptor where
  "update_w =
     \<lparr>gd_id = ''g1'', gd_culture = ''loud'', gd_updated_at = ''t2'',
      gd_checksum = compute_checksum L_w ''g1'' ''loud'',
      gd_owner_id = Some ''alice'', gd_owner_pubkey = Some ''k'',
      gd_signature = Some (''kg1'' @ newline @ ''loud'' @ newline @ ''t2'')\<rparr>"

lemma update_w_accepted:
  "descriptor_acceptable L_w db_group_w update_w" "local_name_if_newer db_group_w update_w = Some ''G''"
  by (simp_all add: update_w_def is_tombstone_def descriptor_acceptable_def verify_checksum_def
      verify_descriptor_signature_def signing_payload_def as_bytes_def L_w_def local_name_if_newer_def
      read_group_def row_of_group_def db_group_w_evals list_less_def less_eq_list_code
      less_eq_char_simp less_char_simp)

lemma update_w_advertised:
  "\<exists>desc'. fst (build_descriptors L_w ni_w ''bob'' (snd (merge_descriptors L_w ''t3'' db_group_w [update_w]))) =
     Some [desc'] \<and> gd_id desc' = ''g1''"
  using update_w_accepted
  by (simp add: merge_descriptors_def merge_descriptor_def write_group_def Let_def db_group_w_evals
      build_descriptors_def list_groups_def split_beta persist_signature_def is_tombstone_def
      update_w_def GROUP_TOMBSTONE_CULTURE_def write_group_signature_def hm_modify_def row_of_group_def)

theorem merged_descriptor_not_forwarded_witness:
  "\<exists>desc'. fst (build_descriptors L_w ni_w ''bob'' (snd (merge_descriptors L_w ''t3'' db_group_w [update_w]))) =
      Some [desc'] \<and>
    merge_descriptors L_w ''t4'' db_w [desc'] = (\<lparr>mr_upserted = [], mr_tombstoned = []\<rparr>, db_w)"
proof -
  obtain desc' where b: "fst (build_descriptors L_w ni_w ''bob''
      (snd (merge_descriptors L_w ''t3'' db_group_w [update_w]))) = Some [desc']" "gd_id desc' = ''g1''"
    using update_w_advertised by (elim exE conjE) (rule that)
  have u: "gd_owner_id update_w = Some ''alice''" "gd_owner_pubkey update_w = Some ''k''"
    "gd_signature update_w = Some (''kg1'' @ newline @ ''loud'' @ newline @ ''t2'')"
    "gd_id update_w = ''g1''" "gd_updated_at update_w = ''t2''"
    by (simp_all add: update_w_def)
  show ?thesis
    using merged_descriptor_not_forwarded [OF u(1-3), of L_w db_group_w "''t3''" ni_w "''bob''" "[desc']" desc']
      update_w_accepted b u
    by (auto simp: db_group_w_evals hm_wf_def L_w_def signing_payload_def update_w_def as_bytes_def)
qed

section \<open>Lazy signing is done once\<close>

definition unsigned_own :: "string \<Rightarrow> db \<Rightarrow> group_row \<Rightarrow> bool" where
  "unsigned_own e d g \<longleftrightarrow> we_own_it d e g \<and> gr_signature g = None"

definition sign_row :: "crypto_lib \<Rightarrow> node_identity \<Rightarrow> string \<Rightarrow> db \<Rightarrow> string \<times> group_cols \<Rightarrow> group_cols" where
  "sign_row L ni e d = (\<lambda>(i, c).
     if unsigned_own e d (row_of_group i c)
     then c\<lparr>g_owner_id := Some e, g_owner_pubkey := Some (lib_hex_encode L (ni_public_key ni)),
            g_signature := Some (lib_hex_encode L (ni_sign ni
              (signing_payload (descriptor_of_group L (row_of_group i c)))))\<rparr>
     else c)"

lemma sort_key_map_same:
  assumes "\<And>x. k (f x) = k x"
  shows "sort_key k (map f xs) = map f (sort_key k xs)"
proof -
  have "insort_key k (f x) (map f ys) = map f (insort_key k x ys)" for x ys
    by (induction ys) (simp_all add: assms)
  then show ?thesis
    by (induction xs) (simp_all add: assms)
qed

definition signs :: "crypto_lib \<Rightarrow> node_identity \<Rightarrow> string \<Rightarrow> db \<Rightarrow> string set \<Rightarrow> db" where
  "signs L ni e d I =
     d\<lparr>groups_tab := map (\<lambda>(i, c). (i, if i \<in> I then sign_row L ni e d (i, c) else c)) (groups_tab d)\<rparr>"

lemma signs_empty [simp]: "signs L ni e d {} = d"
  by (simp add: signs_def case_prod_eta)

lemma signs_frame [simp]:
  "group_members (signs L ni e d I) = group_members d" "db_fault (signs L ni e d I) = db_fault d"
  "map fst (groups_tab (signs L ni e d I)) = map fst (groups_tab d)"
  by (simp_all add: signs_def comp_def split_beta)

lemma sign_row_signs [simp]: "sign_row L ni e (signs L ni e d I) = sign_row L ni e d"
proof
  show "sign_row L ni e (signs L ni e d I) x = sign_row L ni e d x" for x
    using we_own_it_cong [of "signs L ni e d I" d e] by (simp add: sign_row_def unsigned_own_def split_beta)
qed

lemma signs_signs: "I \<inter> J = {} \<Longrightarrow> signs L ni e (signs L ni e d I) J = signs L ni e d (I \<union> J)"
  unfolding signs_def [of L ni e "signs L ni e d I" J] sign_row_signs
  by (auto simp: signs_def disjoint_iff intro!: arg_cong [where f = "\<lambda>t. groups_tab_update (\<lambda>_. t) d"])

lemma build_descriptor_signs:
  assumes "db_fault d OpWriteGroupSignature = None" "hm_wf (groups_tab d)" "(i, c) \<in> set (groups_tab d)"
  shows "snd (build_descriptor L ni e d (row_of_group i c)) = signs L ni e d {i}"
proof -
  have u: "x = c" if "(i, x) \<in> set (groups_tab d)" for x
    using assms(2,3) that by (auto simp: hm_wf_def dest: eq_key_imp_eq_value)
  show ?thesis
  proof (cases "unsigned_own e d (row_of_group i c)")
    case True
    then show ?thesis
      using assms(1) u
      by (auto simp: build_descriptor_def unsigned_own_def Let_def write_group_signature_def signs_def
          sign_row_def hm_modify_def row_of_group_def intro!: arg_cong [where f = "\<lambda>t. groups_tab_update (\<lambda>_. t) d"])
  next
    case False
    then have "map (\<lambda>(j, x). (j, if j \<in> {i} then sign_row L ni e d (j, x) else x)) (groups_tab d) = groups_tab d"
      using u by (intro map_idI) (auto simp: sign_row_def)
    then show ?thesis
      using False by (auto simp: build_descriptor_def unsigned_own_def Let_def signs_def)
  qed
qed

lemma listed_rows:
  "sort_key gr_name (map (\<lambda>(i, c). row_of_group i c) (groups_tab d)) =
   map (\<lambda>(i, c). row_of_group i c) (sort_key (\<lambda>p. g_name (snd p)) (groups_tab d))"
proof -
  have "insort_key gr_name (row_of_group i c) (map (\<lambda>(i, c). row_of_group i c) ps) =
      map (\<lambda>(i, c). row_of_group i c) (insort_key (\<lambda>p. g_name (snd p)) (i, c) ps)" for i c ps
    by (induction ps) (auto simp: row_of_group_def)
  then have "sort_key gr_name (map (\<lambda>(i, c). row_of_group i c) ps) =
      map (\<lambda>(i, c). row_of_group i c) (sort_key (\<lambda>p. g_name (snd p)) ps)" for ps
    by (induction ps) auto
  then show ?thesis .
qed

lemma snd_build_all:
  "snd (build_all L ni e d (g # gs)) = snd (build_all L ni e (snd (build_descriptor L ni e d g)) gs)"
  by (simp add: split_beta Let_def)

lemma build_all_signs:
  assumes "db_fault d OpWriteGroupSignature = None" "hm_wf (groups_tab d)"
    and "distinct (map fst ps)" "set ps \<subseteq> set (groups_tab d)"
  shows "snd (build_all L ni e d (map (\<lambda>(i, c). row_of_group i c) ps)) = signs L ni e d (fst ` set ps)"
  using assms
proof (induction ps arbitrary: d)
  case (Cons p ps)
  obtain i c where p: "p = (i, c)"
    by (rule prod.exhaust)
  have d1: "snd (build_descriptor L ni e d (row_of_group i c)) = signs L ni e d {i}"
    using Cons.prems p by (intro build_descriptor_signs) auto
  have "set ps \<subseteq> set (groups_tab (signs L ni e d {i}))"
    using Cons.prems(3,4) p by (force simp: signs_def)
  then have "snd (build_all L ni e (signs L ni e d {i}) (map (\<lambda>(i, c). row_of_group i c) ps)) =
      signs L ni e (signs L ni e d {i}) (fst ` set ps)"
    using Cons.prems by (intro Cons.IH) (auto simp: hm_wf_def)
  then show ?case
    using Cons.prems(3) d1 p by (simp add: signs_signs snd_build_all del: build_all.simps)
qed simp

text \<open>
  C19. Signing is done once. When the signatures can be stored, a second exchange advertises the
  same descriptors as the first one and writes nothing: the signed rows are read back as the
  descriptors that were sent.
\<close>

theorem build_descriptors_stable:
  assumes "db_fault d OpWriteGroupSignature = None" "hm_wf (groups_tab d)"
    and "build_descriptors L ni e d = (descs, d')"
  shows "build_descriptors L ni e d' = (descs, d')"
proof (cases "descs = None")
  case True
  then have "d' = d"
    using assms(3) by (auto simp: build_descriptors_def split_beta split: sum.splits if_splits)
  then show ?thesis
    using assms(3) by simp
next
  case False
  define ps where "ps = sort_key (\<lambda>p. g_name (snd p)) (groups_tab d)"
  let ?row = "\<lambda>(i, c). row_of_group i c"
  let ?sgn = "\<lambda>(i, c). (i, sign_row L ni e d (i, c))"
  have lists: "list_groups d = Ok (map ?row ps)" "map ?row ps \<noteq> []"
    using assms(3) False listed_rows [of d]
    by (auto simp: build_descriptors_def list_groups_def query_def ps_def split: option.splits if_splits)
  have d': "d' = signs L ni e d (fst ` set (groups_tab d))"
    using build_all_signs [OF assms(1,2), of ps L ni e] assms(2,3) lists
    by (auto simp: build_descriptors_def split_beta ps_def hm_wf_def distinct_map)
  then have tab: "groups_tab d' = map ?sgn (groups_tab d)"
    by (force simp: signs_def)
  have lists': "list_groups d' = Ok (map ?row (map ?sgn ps))"
  proof -
    have "sort_key (\<lambda>p. g_name (snd p)) (map ?sgn (groups_tab d)) = map ?sgn ps"
      unfolding ps_def by (rule sort_key_map_same) (auto simp: sign_row_def)
    then show ?thesis
      using lists(1) listed_rows [of d'] tab d' by (auto simp: list_groups_def query_def split: option.splits)
  qed
  have again: "build_descriptor L ni e d' (?row (?sgn p)) = (fst (build_descriptor L ni e d (?row p)), d')" for p
    using we_own_it_cong [of d' d e] d'
    by (cases p; cases "g_signature (snd p)") (auto simp: build_descriptor_def Let_def sign_row_def unsigned_own_def row_of_group_def
        descriptor_of_group_def signing_payload_def)
  have "build_all L ni e d' (map ?row (map ?sgn qs)) = (map (\<lambda>g. fst (build_descriptor L ni e d g)) (map ?row qs), d')" for qs
    by (induction qs) (simp_all add: again)
  then show ?thesis
    using assms(3) lists lists' by (auto simp: build_descriptors_def split_beta build_all_descriptors)
qed

theorem build_descriptors_stable_witness:
  "fst (build_descriptors L_w ni_w ''alice'' db_unsigned_w) \<noteq> None \<and>
   build_descriptors L_w ni_w ''alice'' (snd (build_descriptors L_w ni_w ''alice'' db_unsigned_w)) =
     build_descriptors L_w ni_w ''alice'' db_unsigned_w"
proof -
  have "db_fault db_unsigned_w OpWriteGroupSignature = None" "hm_wf (groups_tab db_unsigned_w)"
    by (simp_all add: db_unsigned_w_def write_group_def add_member_def db_w_def hm_wf_def
        db_of_schema_def schema_checks Let_def insert_l1_stub_def upsert_member_def)
  moreover have "fst (build_descriptors L_w ni_w ''alice'' db_unsigned_w) \<noteq> None"
    by (simp add: build_descriptors_def db_unsigned_w_evals split_beta)
  ultimately show ?thesis
    using build_descriptors_stable [of db_unsigned_w L_w ni_w "''alice''"] by (metis prod.collapse)
qed

end
