(* ===== verification/Governor.thy ===== *)
theory Governor
  imports Protocol
begin

text \<open>
  The peer governor (\<^verbatim>\<open>cordelia-governor\<close>): the life cycle Cold, Warm, Hot, Banned of the
  known peers, the operations by which the node reports events, and the seven phases of a tick.

  Durations and instants are nanoseconds. A tick reads the clock several times; here each phase
  reads it once, and a tick takes the readings as a function \<open>clk\<close> of the phase number, so
  nothing is assumed about how much time passes between phases. \<open>f64\<close> values (round-trip
  times, scores, the churn fraction) are exact rationals. Counters of type \<open>u32\<close> and
  \<open>u64\<close> are words: they wrap, as release builds do.
\<close>

section \<open>Constants and types\<close>

definition TICK_INTERVAL :: duration where
  "TICK_INTERVAL = from_secs (tick_interval_secs ERA_0)"

definition DEAD_TIMEOUT :: duration where
  "DEAD_TIMEOUT = from_secs (dead_timeout_secs ERA_0)"

definition STALE_TIMEOUT :: duration where
  "STALE_TIMEOUT = from_secs (stale_timeout_secs ERA_0)"

definition DEFAULT_BAN_DURATION :: duration where
  "DEFAULT_BAN_DURATION = from_secs (ban_base_duration_secs ERA_0)"

datatype dial_policy = DialAll | RelaysOnly | TrustedOnly "node_id list"

record governor_targets =
  hot_min :: nat
  hot_max :: nat
  warm_min :: nat
  warm_max :: nat
  cold_max :: nat
  churn_interval_secs :: u64
  churn_fraction :: rat

definition default_governor_targets :: governor_targets where
  "default_governor_targets =
     \<lparr>hot_min = 2, hot_max = 20, warm_min = 10, warm_max = 50, cold_max = 100,
      churn_interval_secs = era_churn_interval_secs ERA_0,
      churn_fraction = era_churn_fraction ERA_0\<rparr>"

datatype peer_state =
    Cold
  | Warm
  | Hot
  | Banned (until: instant) (ban_reason: string) (ban_escalation: u32)

definition is_active :: "peer_state \<Rightarrow> bool" where
  "is_active s = (case s of Warm \<Rightarrow> True | Hot \<Rightarrow> True | _ \<Rightarrow> False)"

definition is_banned :: "peer_state \<Rightarrow> bool" where
  "is_banned s = (case s of Banned _ _ _ \<Rightarrow> True | _ \<Rightarrow> False)"

definition state_name :: "peer_state \<Rightarrow> string" where
  "state_name s =
     (case s of Cold \<Rightarrow> ''cold'' | Warm \<Rightarrow> ''warm'' | Hot \<Rightarrow> ''hot'' | Banned _ _ _ \<Rightarrow> ''banned'')"

record peer_info =
  pi_node_id :: node_id
  pi_addrs :: "multiaddr list"
  pi_state :: peer_state
  pi_groups :: "group_id list"
  pi_rtt_ms :: "rat option"
  pi_last_activity :: instant
  pi_items_delivered :: u64
  pi_connected_since :: "instant option"
  pi_demoted_at :: "instant option"
  pi_disconnect_count :: u32
  pi_last_disconnected :: "instant option"
  pi_is_relay :: bool

definition new_peer_info :: "instant \<Rightarrow> node_id \<Rightarrow> multiaddr list \<Rightarrow> group_id list \<Rightarrow> peer_info" where
  "new_peer_info now i addrs gs =
     \<lparr>pi_node_id = i, pi_addrs = addrs, pi_state = Cold, pi_groups = gs, pi_rtt_ms = None,
      pi_last_activity = now, pi_items_delivered = 0, pi_connected_since = None,
      pi_demoted_at = None, pi_disconnect_count = 0, pi_last_disconnected = None,
      pi_is_relay = False\<rparr>"

definition as_secs_f64 :: "duration \<Rightarrow> rat" where
  "as_secs_f64 t = of_nat t / 1000000000"

definition score :: "instant \<Rightarrow> peer_info \<Rightarrow> rat" where
  "score now p =
     (let elapsed = max 1 (unwrap_or (map_option (\<lambda>s. as_secs_f64 (now - s)) (pi_connected_since p)) 1);
          throughput = of_nat (unat (pi_items_delivered p)) / elapsed;
          rtt_factor = unwrap_or (map_option (\<lambda>r. 1 / (1 + r / 100)) (pi_rtt_ms p)) (1 / 2)
      in throughput * rtt_factor)"

definition has_group_overlap :: "peer_info \<Rightarrow> group_id list \<Rightarrow> bool" where
  "has_group_overlap p gs = list_ex (\<lambda>g. g \<in> set gs) (pi_groups p)"

record governor =
  peers :: "(node_id, peer_info) hashmap"
  targets :: governor_targets
  our_groups :: "group_id list"
  last_churn :: instant
  dial_policy_of :: dial_policy

record governor_actions =
  act_connect :: "node_id list"
  act_disconnect :: "node_id list"
  act_transitions :: "(node_id \<times> string \<times> string) list"

definition no_actions :: governor_actions where
  "no_actions = \<lparr>act_connect = [], act_disconnect = [], act_transitions = []\<rparr>"

section \<open>Events\<close>

definition with_dial_policy ::
  "instant \<Rightarrow> governor_targets \<Rightarrow> group_id list \<Rightarrow> dial_policy \<Rightarrow> governor" where
  "with_dial_policy now ts gs pol =
     \<lparr>peers = [], targets = ts, our_groups = gs, last_churn = now, dial_policy_of = pol\<rparr>"

definition new_governor :: "instant \<Rightarrow> governor_targets \<Rightarrow> group_id list \<Rightarrow> governor" where
  "new_governor now ts gs = with_dial_policy now ts gs DialAll"

definition set_groups :: "group_id list \<Rightarrow> governor \<Rightarrow> governor" where
  "set_groups gs g = g\<lparr>our_groups := gs\<rparr>"

definition upd_peer :: "node_id \<Rightarrow> (peer_info \<Rightarrow> peer_info) \<Rightarrow> governor \<Rightarrow> governor" where
  "upd_peer i f g = g\<lparr>peers := hm_modify i f (peers g)\<rparr>"

definition add_peer ::
  "instant \<Rightarrow> node_id \<Rightarrow> multiaddr list \<Rightarrow> group_id list \<Rightarrow> governor \<Rightarrow> governor" where
  "add_peer now i addrs gs g =
     (case hm_get (peers g) i of
        Some _ \<Rightarrow> upd_peer i (\<lambda>p. p\<lparr>pi_addrs := addrs, pi_groups := gs\<rparr>) g
      | None \<Rightarrow> g\<lparr>peers := hm_insert i (new_peer_info now i addrs gs) (peers g)\<rparr>)"

definition record_activity :: "instant \<Rightarrow> node_id \<Rightarrow> rat option \<Rightarrow> governor \<Rightarrow> governor" where
  "record_activity now i rtt g =
     upd_peer i (\<lambda>p.
       let p = p\<lparr>pi_last_activity := now\<rparr>
       in case rtt of Some r \<Rightarrow> p\<lparr>pi_rtt_ms := Some r\<rparr> | None \<Rightarrow> p) g"

definition gov_record_items_delivered :: "instant \<Rightarrow> node_id \<Rightarrow> u64 \<Rightarrow> governor \<Rightarrow> governor" where
  "gov_record_items_delivered now i n g =
     upd_peer i (\<lambda>p. p\<lparr>pi_items_delivered := pi_items_delivered p + n, pi_last_activity := now\<rparr>) g"

definition mark_connected :: "instant \<Rightarrow> node_id \<Rightarrow> governor \<Rightarrow> governor" where
  "mark_connected now i g =
     upd_peer i (\<lambda>p.
       if pi_state p = Cold
       then p\<lparr>pi_state := Warm, pi_connected_since := Some now, pi_last_activity := now\<rparr>
       else p) g"

definition mark_disconnected :: "instant \<Rightarrow> node_id \<Rightarrow> governor \<Rightarrow> governor" where
  "mark_disconnected now i g =
     upd_peer i (\<lambda>p.
       if is_active (pi_state p)
       then p\<lparr>pi_state := Cold, pi_connected_since := None,
              pi_disconnect_count := pi_disconnect_count p + 1, pi_last_disconnected := Some now\<rparr>
       else p) g"

definition mark_dial_failed :: "instant \<Rightarrow> node_id \<Rightarrow> governor \<Rightarrow> governor" where
  "mark_dial_failed now i g =
     upd_peer i (\<lambda>p.
       p\<lparr>pi_disconnect_count := pi_disconnect_count p + 1, pi_last_disconnected := Some now\<rparr>) g"

text \<open>\<open>u64::saturating_mul\<close>.\<close>

definition saturating_mul :: "u64 \<Rightarrow> u64 \<Rightarrow> u64" where
  "saturating_mul a b = (if unat a * unat b < 2 ^ 64 then a * b else - 1)"

definition reconnect_backoff :: "u32 \<Rightarrow> duration" where
  "reconnect_backoff disconnect_count =
     (if disconnect_count = 0 then 0
      else
        let secs = saturating_mul (reconnect_backoff_base_secs ERA_0)
                     (push_bit (unat (min disconnect_count (backoff_saturation_count ERA_0))) 1)
        in from_secs (min secs (reconnect_backoff_max_secs ERA_0)))"

definition replace_node_id ::
  "node_id \<Rightarrow> node_id \<Rightarrow> group_id list \<Rightarrow> governor \<Rightarrow> bool \<times> governor" where
  "replace_node_id old new gs g =
     (if (case hm_get (peers g) new of Some existing \<Rightarrow> is_active (pi_state existing) | None \<Rightarrow> False)
      then
        (True,
         case hm_get (peers g) old of
           Some old_peer \<Rightarrow>
             (let g1 = g\<lparr>peers := hm_remove old (peers g)\<rparr>
              in if pi_is_relay old_peer then upd_peer new (\<lambda>t. t\<lparr>pi_is_relay := True\<rparr>) g1 else g1)
         | None \<Rightarrow> g)
      else
        case hm_get (peers g) old of
          Some p \<Rightarrow>
            (True,
             g\<lparr>peers := hm_insert new (p\<lparr>pi_node_id := new, pi_groups := gs\<rparr>)
                         (hm_remove old (peers g))\<rparr>)
        | None \<Rightarrow> (False, g))"

definition ban_peer :: "instant \<Rightarrow> node_id \<Rightarrow> string \<Rightarrow> governor \<Rightarrow> governor" where
  "ban_peer now i reason g =
     upd_peer i (\<lambda>p.
       let escalation = (case pi_state p of Banned _ _ e \<Rightarrow> e + 1 | _ \<Rightarrow> 1);
           duration = DEFAULT_BAN_DURATION * unat escalation
       in p\<lparr>pi_state := Banned (now + duration) reason escalation, pi_connected_since := None\<rparr>) g"

definition set_peer_relay :: "node_id \<Rightarrow> bool \<Rightarrow> governor \<Rightarrow> governor" where
  "set_peer_relay i b g = upd_peer i (\<lambda>p. p\<lparr>pi_is_relay := b\<rparr>) g"

definition is_dialable :: "governor \<Rightarrow> peer_info \<Rightarrow> bool" where
  "is_dialable g p =
     (case dial_policy_of g of
        DialAll \<Rightarrow> True
      | RelaysOnly \<Rightarrow> pi_is_relay p
      | TrustedOnly trusted \<Rightarrow> pi_node_id p \<in> set trusted)"

definition gov_peer_state :: "governor \<Rightarrow> node_id \<Rightarrow> peer_state option" where
  "gov_peer_state g i = map_option pi_state (hm_get (peers g) i)"

definition gov_hot_peers_for_group :: "governor \<Rightarrow> group_id \<Rightarrow> peer_info list" where
  "gov_hot_peers_for_group g gid =
     filter (\<lambda>p. pi_state p = Hot \<and> gid \<in> set (pi_groups p)) (hm_values (peers g))"

definition in_state :: "(peer_state \<Rightarrow> bool) \<Rightarrow> governor \<Rightarrow> peer_info list" where
  "in_state P g = filter (\<lambda>p. P (pi_state p)) (hm_values (peers g))"

definition counts :: "governor \<Rightarrow> nat \<times> nat \<times> nat \<times> nat" where
  "counts g =
     foldl (\<lambda>(hot, warm, cold, banned) p.
         case pi_state p of
           Hot \<Rightarrow> (hot + 1, warm, cold, banned)
         | Warm \<Rightarrow> (hot, warm + 1, cold, banned)
         | Cold \<Rightarrow> (hot, warm, cold + 1, banned)
         | Banned _ _ _ \<Rightarrow> (hot, warm, cold, banned + 1))
       (0, 0, 0, 0) (hm_values (peers g))"

section \<open>The phases of a tick\<close>

type_synonym phase = "governor \<times> governor_actions \<Rightarrow> governor \<times> governor_actions"

definition transition :: "node_id \<Rightarrow> string \<Rightarrow> string \<Rightarrow> governor_actions \<Rightarrow> governor_actions" where
  "transition i from to a = a\<lparr>act_transitions := act_transitions a @ [(i, from, to)]\<rparr>"

definition disconnect :: "node_id \<Rightarrow> governor_actions \<Rightarrow> governor_actions" where
  "disconnect i a = a\<lparr>act_disconnect := act_disconnect a @ [i]\<rparr>"

definition connect_all :: "node_id list \<Rightarrow> governor_actions \<Rightarrow> governor_actions" where
  "connect_all is a = a\<lparr>act_connect := act_connect a @ is\<rparr>"

text \<open>\<open>for id in ids { if let Some(peer) = self.peers.get_mut(&id) { ... } }\<close>\<close>

definition for_peers ::
  "(node_id \<Rightarrow> peer_info \<Rightarrow> (peer_info \<Rightarrow> peer_info) \<times> (governor_actions \<Rightarrow> governor_actions)) \<Rightarrow>
     node_id list \<Rightarrow> phase" where
  "for_peers body ids ga =
     foldl (\<lambda>(g, a) i.
         case hm_get (peers g) i of
           Some p \<Rightarrow> (case body i p of (f, h) \<Rightarrow> (upd_peer i f g, h a))
         | None \<Rightarrow> (g, a))
       ga ids"

definition ban_expired :: "instant \<Rightarrow> peer_info \<Rightarrow> bool" where
  "ban_expired now p = (case pi_state p of Banned u _ _ \<Rightarrow> u \<le> now | _ \<Rightarrow> False)"

definition unban_expired :: "instant \<Rightarrow> phase" where
  "unban_expired now ga =
     (case ga of (g, a) \<Rightarrow>
       (g\<lparr>peers := hm_map_values (\<lambda>p. if ban_expired now p then p\<lparr>pi_state := Cold\<rparr> else p) (peers g)\<rparr>,
        foldl (\<lambda>a p. transition (pi_node_id p) (state_name (pi_state p)) ''cold'' a) a
          (filter (ban_expired now) (hm_values (peers g)))))"

definition is_dead :: "instant \<Rightarrow> peer_info \<Rightarrow> bool" where
  "is_dead now p \<longleftrightarrow> is_active (pi_state p) \<and> DEAD_TIMEOUT < now - pi_last_activity p"

definition reap_one ::
  "instant \<Rightarrow> node_id \<Rightarrow> peer_info \<Rightarrow> (peer_info \<Rightarrow> peer_info) \<times> (governor_actions \<Rightarrow> governor_actions)" where
  "reap_one now i p =
     (case pi_state p of
        Hot \<Rightarrow>
          (\<lambda>p. p\<lparr>pi_state := Warm, pi_connected_since := None, pi_demoted_at := Some now\<rparr>,
           transition i (state_name (pi_state p)) ''warm'')
      | Warm \<Rightarrow>
          (\<lambda>p. p\<lparr>pi_state := Cold, pi_connected_since := None\<rparr>,
           \<lambda>a. transition i (state_name (pi_state p)) ''cold'' (disconnect i a))
      | _ \<Rightarrow> (id, id))"

definition reap_dead :: "instant \<Rightarrow> phase" where
  "reap_dead now ga =
     (let dead_ids = map pi_node_id (filter (is_dead now) (hm_values (peers (fst ga))))
      in for_peers (reap_one now) dead_ids ga)"

definition backoff_elapsed :: "instant \<Rightarrow> peer_info \<Rightarrow> bool" where
  "backoff_elapsed now p =
     (case pi_last_disconnected p of
        None \<Rightarrow> True
      | Some t \<Rightarrow> reconnect_backoff (pi_disconnect_count p) \<le> now - t)"

definition promotable :: "instant \<Rightarrow> governor \<Rightarrow> peer_info \<Rightarrow> bool" where
  "promotable now g p \<longleftrightarrow> pi_state p = Cold \<and> is_dialable g p \<and> backoff_elapsed now p"

definition promote_cold_to_warm :: "instant \<Rightarrow> phase" where
  "promote_cold_to_warm now ga =
     (case ga of (g, a) \<Rightarrow>
       case counts g of (hot, warm, cold, _) \<Rightarrow>
         let active = warm + hot in
         if warm_max (targets g) \<le> active then (g, a)
         else
           let needed = warm_max (targets g) - active;
               sorted = take needed
                 (map fst
                   (sort_key (\<lambda>(_, overlap). \<not> overlap)
                     (map (\<lambda>p. (pi_node_id p, has_group_overlap p (our_groups g)))
                       (filter (promotable now g) (hm_values (peers g))))));
               candidates =
                 (if sorted = []
                  then map pi_node_id (take needed (filter (promotable now g) (hm_values (peers g))))
                  else sorted)
           in (g, connect_all candidates a))"

text \<open>
  \<open>Iterator::min_by\<close> on the scores (\<open>None\<close> for no element: the source takes the
  greatest \<open>f64\<close>, which no score exceeds), and \<open>Iterator::max_by\<close>, which returns the
  last of several maximal elements.
\<close>

fun min_score :: "rat list \<Rightarrow> rat option" where
  "min_score [] = None"
| "min_score (x # xs) = Some (foldl min x xs)"

fun max_by_score :: "('a \<Rightarrow> rat) \<Rightarrow> 'a list \<Rightarrow> 'a option" where
  "max_by_score f [] = None"
| "max_by_score f (x # xs) = Some (foldl (\<lambda>m y. if f m \<le> f y then y else m) x xs)"

definition promotion_candidate :: "instant \<Rightarrow> peer_info \<Rightarrow> bool" where
  "promotion_candidate now p \<longleftrightarrow>
     pi_state p = Warm \<and>
     (case pi_demoted_at p of None \<Rightarrow> True | Some d \<Rightarrow> DEAD_TIMEOUT < now - d)"

definition make_hot ::
  "node_id \<Rightarrow> peer_info \<Rightarrow> (peer_info \<Rightarrow> peer_info) \<times> (governor_actions \<Rightarrow> governor_actions)" where
  "make_hot i p =
     (\<lambda>p. p\<lparr>pi_state := Hot, pi_disconnect_count := 0\<rparr>, transition i ''warm'' ''hot'')"

definition promote_warm_to_hot :: "instant \<Rightarrow> phase" where
  "promote_warm_to_hot now ga =
     (case ga of (g, a) \<Rightarrow>
       case counts g of (hot, _) \<Rightarrow>
         if hot_min (targets g) \<le> hot
         then
           let worst_hot_score = min_score (map (score now) (in_state (\<lambda>s. s = Hot) g));
               best_warm = max_by_score (score now) (filter (promotion_candidate now) (hm_values (peers g)))
           in case best_warm of
                Some warm \<Rightarrow>
                  if hot < hot_max (targets g) \<and>
                     (case worst_hot_score of Some w \<Rightarrow> w < score now warm | None \<Rightarrow> False)
                  then for_peers make_hot [pi_node_id warm] (g, a)
                  else (g, a)
              | None \<Rightarrow> (g, a)
         else
           let needed = hot_min (targets g) - hot;
               warm_peers = map (\<lambda>p. (pi_node_id p, score now p))
                 (filter (promotion_candidate now) (hm_values (peers g)));
               sorted = sort_key (\<lambda>(_, s). - s) warm_peers
           in for_peers make_hot (map fst (take needed sorted)) (g, a))"

definition make_warm ::
  "node_id \<Rightarrow> peer_info \<Rightarrow> (peer_info \<Rightarrow> peer_info) \<times> (governor_actions \<Rightarrow> governor_actions)" where
  "make_warm i p = (\<lambda>p. p\<lparr>pi_state := Warm\<rparr>, transition i ''hot'' ''warm'')"

definition demote_excess_hot :: "instant \<Rightarrow> phase" where
  "demote_excess_hot now ga =
     (case ga of (g, a) \<Rightarrow>
       case counts g of (hot, _) \<Rightarrow>
         if hot \<le> hot_max (targets g) then (g, a)
         else
           let excess = hot - hot_max (targets g);
               hot_peers = map (\<lambda>p. (pi_node_id p, score now p, STALE_TIMEOUT < now - pi_last_activity p))
                 (in_state (\<lambda>s. s = Hot) g);
               sorted = sort_key (\<lambda>(_, s, is_stale). (\<not> is_stale, s)) hot_peers
           in for_peers make_warm (map fst (take excess sorted)) (g, a))"

definition make_cold ::
  "node_id \<Rightarrow> peer_info \<Rightarrow> (peer_info \<Rightarrow> peer_info) \<times> (governor_actions \<Rightarrow> governor_actions)" where
  "make_cold i p =
     (\<lambda>p. p\<lparr>pi_state := Cold, pi_connected_since := None\<rparr>,
      \<lambda>a. transition i ''warm'' ''cold'' (disconnect i a))"

definition churn_due :: "instant \<Rightarrow> governor \<Rightarrow> bool" where
  "churn_due now g \<longleftrightarrow> from_secs (churn_interval_secs (targets g)) \<le> now - last_churn g"

definition churn :: "instant \<Rightarrow> phase" where
  "churn now ga =
     (case ga of (g0, a) \<Rightarrow>
       if \<not> churn_due now g0 then (g0, a)
       else
         let g = g0\<lparr>last_churn := now\<rparr> in
         case counts g of (_, warm, cold, _) \<Rightarrow>
           let churn_count = nat \<lceil>of_nat warm * churn_fraction (targets g)\<rceil> in
           if churn_count = 0 \<or> cold = 0 then (g, a)
           else
             let warm_ids = map pi_node_id (take churn_count (in_state (\<lambda>s. s = Warm) g));
                 (g1, a1) = for_peers make_cold warm_ids (g, a);
                 cold_ids = map pi_node_id
                   (take churn_count
                     (filter (\<lambda>p. pi_state p = Cold \<and> is_dialable g1 p) (hm_values (peers g1))))
             in (g1, connect_all cold_ids a1))"

definition evict_excess_cold :: phase where
  "evict_excess_cold ga =
     (case ga of (g, a) \<Rightarrow>
       case counts g of (_, _, cold, _) \<Rightarrow>
         if cold \<le> cold_max (targets g) then (g, a)
         else
           let excess = cold - cold_max (targets g);
               cold_peers = map (\<lambda>p. (pi_node_id p, pi_last_activity p)) (in_state (\<lambda>s. s = Cold) g);
               sorted = sort_key snd cold_peers
           in (g\<lparr>peers := foldl (\<lambda>m (i, _). hm_remove i m) (peers g) (take excess sorted)\<rparr>, a))"

definition tick :: "(nat \<Rightarrow> instant) \<Rightarrow> governor \<Rightarrow> governor \<times> governor_actions" where
  "tick clk g =
     (let ga = (g, no_actions);
          ga = unban_expired (clk 1) ga;
          ga = reap_dead (clk 2) ga;
          ga = promote_cold_to_warm (clk 3) ga;
          ga = promote_warm_to_hot (clk 4) ga;
          ga = demote_excess_hot (clk 5) ga;
          ga = churn (clk 6) ga
      in evict_excess_cold ga)"

end
