(* ===== verification/Governor_Props.thy ===== *)
theory Governor_Props
  imports Governor
begin

text \<open>
  What the governor guarantees. Each phase of a tick meets one contract, the locale
  \<open>gov_phase\<close>: it keeps the well-formedness of the peer table, activates nobody, leaves
  unexpired bans alone, dials only peers the policy allows, and reports as disconnected exactly
  the peers that lose their active state. The contract composes, so a whole tick meets it.
\<close>

section \<open>Well-formedness\<close>

definition peer_ok :: "node_id \<Rightarrow> peer_info \<Rightarrow> bool" where
  "peer_ok i p \<longleftrightarrow>
     pi_node_id p = i \<and> (\<not> is_active (pi_state p) \<longrightarrow> pi_connected_since p = None)"

definition gov_wf :: "governor \<Rightarrow> bool" where
  "gov_wf g \<longleftrightarrow>
     hm_wf (peers g) \<and> (\<forall>i p. hm_get (peers g) i = Some p \<longrightarrow> peer_ok i p)"

lemma gov_wfI:
  "hm_wf (peers g) \<Longrightarrow> (\<And>i p. hm_get (peers g) i = Some p \<Longrightarrow> peer_ok i p) \<Longrightarrow> gov_wf g"
  by (simp add: gov_wf_def)

lemma gov_wf_hm: "gov_wf g \<Longrightarrow> hm_wf (peers g)"
  by (simp add: gov_wf_def)

lemma gov_wf_peer: "gov_wf g \<Longrightarrow> hm_get (peers g) i = Some p \<Longrightarrow> peer_ok i p"
  by (simp add: gov_wf_def)

lemma state_simps [simp]:
  "is_active Warm" "is_active Hot" "\<not> is_active Cold" "\<not> is_active (Banned u r e)"
  "is_banned (Banned u r e)" "\<not> is_banned Cold" "\<not> is_banned Warm" "\<not> is_banned Hot"
  by (simp_all add: is_active_def is_banned_def)

lemma is_active_cases: "is_active s \<longleftrightarrow> s = Warm \<or> s = Hot"
  by (cases s) simp_all

lemma upd_peer_simps [simp]:
  "peers (upd_peer i f g) = hm_modify i f (peers g)" "targets (upd_peer i f g) = targets g"
  "our_groups (upd_peer i f g) = our_groups g" "last_churn (upd_peer i f g) = last_churn g"
  "dial_policy_of (upd_peer i f g) = dial_policy_of g"
  by (simp_all add: upd_peer_def)

lemma upd_peer_wf:
  assumes "gov_wf g" and "\<And>p. hm_get (peers g) i = Some p \<Longrightarrow> peer_ok i p \<Longrightarrow> peer_ok i (f p)"
  shows "gov_wf (upd_peer i f g)"
  using assms
  by (intro gov_wfI) (auto simp: hm_get_simps gov_wf_peer split: if_splits intro: hm_wf_intros gov_wf_hm)

section \<open>Peers by state\<close>

definition ids_in :: "(peer_state \<Rightarrow> bool) \<Rightarrow> governor \<Rightarrow> node_id set" where
  "ids_in P g = {i. \<exists>p. hm_get (peers g) i = Some p \<and> P (pi_state p)}"

abbreviation active_ids :: "governor \<Rightarrow> node_id set" where
  "active_ids g \<equiv> ids_in is_active g"

lemma values_filter_ids:
  assumes "gov_wf g"
  shows "distinct (map pi_node_id (filter P (hm_values (peers g))))"
    and "set (map pi_node_id (filter P (hm_values (peers g)))) =
      {i. \<exists>p. hm_get (peers g) i = Some p \<and> P p}"
proof -
  have eq: "map pi_node_id (filter P (hm_values (peers g))) =
      map fst (filter (\<lambda>(i, p). P p) (peers g))"
  proof -
    have "pi_node_id p = i" if "(i, p) \<in> set (peers g)" for i p
      using that gov_wf_peer [OF assms, of i p] hm_get_iff [OF gov_wf_hm [OF assms]]
      by (simp add: peer_ok_def)
    then show ?thesis
      by (auto simp: hm_values_def filter_map comp_def split_def intro!: map_cong)
  qed
  show "distinct (map pi_node_id (filter P (hm_values (peers g))))"
    unfolding eq using gov_wf_hm [OF assms] by (simp add: hm_wf_def distinct_map_filter)
  show "set (map pi_node_id (filter P (hm_values (peers g)))) =
      {i. \<exists>p. hm_get (peers g) i = Some p \<and> P p}"
    unfolding eq using hm_get_iff [OF gov_wf_hm [OF assms]] by force
qed

lemma in_state_ids:
  assumes "gov_wf g"
  shows "distinct (map pi_node_id (in_state P g))" "set (map pi_node_id (in_state P g)) = ids_in P g"
    "length (in_state P g) = card (ids_in P g)"
proof -
  show d: "distinct (map pi_node_id (in_state P g))" and s: "set (map pi_node_id (in_state P g)) = ids_in P g"
    unfolding in_state_def ids_in_def by (rule values_filter_ids [OF assms])+
  from distinct_card [OF d, unfolded s] show "length (in_state P g) = card (ids_in P g)" by simp
qed

lemma finite_ids_in: "finite (ids_in P g)"
proof -
  have "ids_in P g \<subseteq> fst ` set (peers g)" by (force simp: ids_in_def dest: map_of_SomeD)
  then show ?thesis by (rule finite_subset) simp
qed

lemma counts_fold:
  "foldl (\<lambda>(hot, warm, cold, banned) p.
       case pi_state p of
         Hot \<Rightarrow> (hot + 1, warm, cold, banned)
       | Warm \<Rightarrow> (hot, warm + 1, cold, banned)
       | Cold \<Rightarrow> (hot, warm, cold + 1, banned)
       | Banned _ _ _ \<Rightarrow> (hot, warm, cold, banned + 1)) (h, w, c, b) ps =
     (h + length (filter (\<lambda>p. pi_state p = Hot) ps), w + length (filter (\<lambda>p. pi_state p = Warm) ps),
      c + length (filter (\<lambda>p. pi_state p = Cold) ps),
      b + length (filter (\<lambda>p. is_banned (pi_state p)) ps))"
  by (induction ps arbitrary: h w c b) (simp_all split: peer_state.split)

lemma counts_eq:
  "counts g = (length (in_state (\<lambda>s. s = Hot) g), length (in_state (\<lambda>s. s = Warm) g),
     length (in_state (\<lambda>s. s = Cold) g), length (in_state is_banned g))"
  by (simp add: counts_def counts_fold in_state_def)

section \<open>Loops over peers\<close>

lemma for_peers_Nil [simp]: "for_peers body [] ga = ga"
  by (simp add: for_peers_def)

lemma for_peers_Cons:
  "for_peers body (i # is) (g, a) =
     for_peers body is
       (case hm_get (peers g) i of
          Some p \<Rightarrow> (upd_peer i (fst (body i p)) g, snd (body i p) a) | None \<Rightarrow> (g, a))"
  by (simp add: for_peers_def split: option.split prod.split)

text \<open>What a loop over distinct peers does to the table, and which fields it keeps.\<close>

lemma for_peers_get:
  assumes "distinct ids" and "for_peers body ids (g, a) = (g', a')"
  shows "hm_get (peers g') i =
    (if i \<in> set ids then map_option (\<lambda>p. fst (body i p) p) (hm_get (peers g) i)
     else hm_get (peers g) i)"
  using assms
proof (induction ids arbitrary: g a)
  case (Cons j js)
  show ?case
  proof (cases "hm_get (peers g) j")
    case None
    with Cons show ?thesis by (auto simp: for_peers_Cons)
  next
    case (Some p)
    with Cons.prems have "for_peers body js (upd_peer j (fst (body j p)) g, snd (body j p) a) = (g', a')"
      by (simp add: for_peers_Cons)
    from Cons.IH [OF _ this] Cons.prems(1) Some show ?thesis by (auto simp: hm_get_simps)
  qed
qed simp

lemma for_peers_frame:
  assumes "for_peers body ids (g, a) = (g', a')"
  shows "targets g' = targets g" "our_groups g' = our_groups g" "last_churn g' = last_churn g"
    "dial_policy_of g' = dial_policy_of g" "hm_wf (peers g') = hm_wf (peers g)"
proof -
  have "targets g' = targets g \<and> our_groups g' = our_groups g \<and> last_churn g' = last_churn g \<and>
      dial_policy_of g' = dial_policy_of g \<and> hm_wf (peers g') = hm_wf (peers g)"
    using assms
  proof (induction ids arbitrary: g a)
    case (Cons j js)
    from Cons.IH Cons.prems show ?case
      by (cases "hm_get (peers g) j") (fastforce simp: for_peers_Cons hm_wf_def)+
  qed simp
  then show "targets g' = targets g" "our_groups g' = our_groups g" "last_churn g' = last_churn g"
    "dial_policy_of g' = dial_policy_of g" "hm_wf (peers g') = hm_wf (peers g)"
    by simp_all
qed

text \<open>What a loop adds to the actions, for a body that adds the same for every peer it visits.\<close>

lemma for_peers_actions:
  assumes "for_peers body ids (g, a) = (g', a')" and "distinct ids"
    and con: "\<And>i p a. act_connect (snd (body i p) a) = act_connect a"
    and dis: "\<And>i p a. act_disconnect (snd (body i p) a) =
      act_disconnect a @ (if D p then [i] else [])"
  shows "act_connect a' = act_connect a"
    and "set (act_disconnect a') =
      set (act_disconnect a) \<union> {i \<in> set ids. \<exists>p. hm_get (peers g) i = Some p \<and> D p}"
proof -
  have "act_connect a' = act_connect a \<and>
    set (act_disconnect a') =
      set (act_disconnect a) \<union> {i \<in> set ids. \<exists>p. hm_get (peers g) i = Some p \<and> D p}"
    using assms(1,2)
  proof (induction ids arbitrary: g a)
    case (Cons j js)
    show ?case
    proof (cases "hm_get (peers g) j")
      case None
      with Cons show ?thesis by (fastforce simp: for_peers_Cons)
    next
      case (Some p)
      let ?g = "upd_peer j (fst (body j p)) g" and ?a = "snd (body j p) a"
      from Some Cons.prems have "for_peers body js (?g, ?a) = (g', a')" by (simp add: for_peers_Cons)
      from Cons.IH [OF this] Cons.prems(2) have
        IH: "act_connect a' = act_connect ?a"
          "set (act_disconnect a') = set (act_disconnect ?a) \<union>
             {i \<in> set js. \<exists>p. hm_get (peers ?g) i = Some p \<and> D p}" by simp_all
      have "{i \<in> set js. \<exists>p. hm_get (peers ?g) i = Some p \<and> D p} =
          {i \<in> set js. \<exists>p. hm_get (peers g) i = Some p \<and> D p}"
        using Cons.prems(2) by (auto simp: hm_get_simps)
      with IH Some show ?thesis by (auto simp: con dis)
    qed
  qed simp
  then show "act_connect a' = act_connect a" and "set (act_disconnect a') =
      set (act_disconnect a) \<union> {i \<in> set ids. \<exists>p. hm_get (peers g) i = Some p \<and> D p}"
    by simp_all
qed

section \<open>The contract of a phase\<close>

text \<open>
  How a phase may change one peer, where bans that expire after \<open>t\<close> are still in force.
\<close>

definition ban_in_force :: "instant \<Rightarrow> peer_info \<Rightarrow> bool" where
  "ban_in_force t p = (case pi_state p of Banned u _ _ \<Rightarrow> t < u | _ \<Rightarrow> False)"

definition keeps :: "instant \<Rightarrow> peer_info \<Rightarrow> peer_info \<Rightarrow> bool" where
  "keeps t p p' \<longleftrightarrow>
     pi_node_id p' = pi_node_id p \<and> pi_is_relay p' = pi_is_relay p \<and>
     pi_last_activity p' = pi_last_activity p \<and> pi_last_disconnected p' = pi_last_disconnected p \<and>
     pi_addrs p' = pi_addrs p \<and> pi_groups p' = pi_groups p \<and>
     (is_active (pi_state p') \<longrightarrow> is_active (pi_state p)) \<and>
     (\<not> is_active (pi_state p) \<longrightarrow> pi_disconnect_count p' = pi_disconnect_count p) \<and>
     (ban_in_force t p \<longrightarrow> p' = p)"

lemma keeps_refl [simp]: "keeps t p p"
  by (simp add: keeps_def)

lemma keeps_trans: "keeps t p q \<Longrightarrow> keeps t q r \<Longrightarrow> keeps t p r"
  by (auto simp: keeps_def)

definition same_config :: "governor \<Rightarrow> governor \<Rightarrow> bool" where
  "same_config g g' \<longleftrightarrow>
     targets g' = targets g \<and> our_groups g' = our_groups g \<and> dial_policy_of g' = dial_policy_of g"

definition may_dial :: "instant \<Rightarrow> governor \<Rightarrow> node_id \<Rightarrow> bool" where
  "may_dial t g i \<longleftrightarrow>
     (\<exists>p. hm_get (peers g) i = Some p \<and> is_dialable g p \<and> \<not> ban_in_force t p)"

text \<open>The state of a peer according to a list of reported transitions.\<close>

definition enter :: "string \<Rightarrow> peer_state \<Rightarrow> peer_state" where
  "enter to s = (if to = ''hot'' then Hot else if to = ''warm'' then Warm else s)"

definition follow :: "node_id \<Rightarrow> (node_id \<times> string \<times> string) list \<Rightarrow> peer_state \<Rightarrow> peer_state" where
  "follow i ts s = foldl (\<lambda>s (j, from, to). if j = i then enter to s else s) s ts"

lemma follow_simps [simp]:
  "follow i [] s = s"
  "follow i ((j, from, to) # ts) s = follow i ts (if j = i then enter to s else s)"
  "follow i (ts @ us) s = follow i us (follow i ts s)"
  by (simp_all add: follow_def)

lemma follow_other: "\<forall>(j, from, to)\<in>set ts. j \<noteq> i \<Longrightarrow> follow i ts s = s"
  by (induction ts arbitrary: s) auto

lemma enter_simps [simp]: "enter ''hot'' s = Hot" "enter ''warm'' s = Warm" "enter ''cold'' s = s"
  by (simp_all add: enter_def)

definition phase_contract ::
  "instant \<Rightarrow> governor \<Rightarrow> governor_actions \<Rightarrow> governor \<Rightarrow> governor_actions \<Rightarrow> bool" where
  "phase_contract t g a g' a' \<longleftrightarrow>
     gov_wf g' \<and> same_config g g' \<and>
     (\<forall>i p'. hm_get (peers g') i = Some p' \<longrightarrow> (\<exists>p. hm_get (peers g) i = Some p \<and> keeps t p p')) \<and>
     (\<forall>i p. hm_get (peers g) i = Some p \<longrightarrow> ban_in_force t p \<longrightarrow> hm_get (peers g') i = Some p) \<and>
     set (act_disconnect a') = set (act_disconnect a) \<union> (active_ids g - active_ids g') \<and>
     (\<exists>new. act_connect a' = act_connect a @ new \<and> (\<forall>i\<in>set new. may_dial t g i)) \<and>
     (\<exists>ts. act_transitions a' = act_transitions a @ ts \<and>
        (\<forall>i p p'. hm_get (peers g) i = Some p \<longrightarrow> hm_get (peers g') i = Some p' \<longrightarrow>
           is_active (pi_state p') \<longrightarrow> pi_state p' = follow i ts (pi_state p)))"

lemma active_mono:
  assumes "phase_contract t g a g' a'"
  shows "active_ids g' \<subseteq> active_ids g"
  using assms unfolding phase_contract_def ids_in_def keeps_def by blast

lemma phase_keeps:
  "phase_contract t g a g' a' \<Longrightarrow> hm_get (peers g') i = Some p' \<Longrightarrow>
     \<exists>p. hm_get (peers g) i = Some p \<and> keeps t p p'"
  by (simp add: phase_contract_def)

lemma may_dial_back:
  assumes "phase_contract t g a g' a'" and "may_dial t g' i"
  shows "may_dial t g i"
proof -
  from assms(2) obtain p' where p': "hm_get (peers g') i = Some p'" "is_dialable g' p'"
    "\<not> ban_in_force t p'"
    by (auto simp: may_dial_def)
  with phase_keeps [OF assms(1)] obtain p where p: "hm_get (peers g) i = Some p" "keeps t p p'"
    by blast
  moreover have "same_config g g'" using assms(1) by (simp add: phase_contract_def)
  ultimately have "is_dialable g p" "\<not> ban_in_force t p"
    using p' by (auto simp: is_dialable_def keeps_def same_config_def split: dial_policy.splits)
  with p(1) show ?thesis by (auto simp: may_dial_def)
qed

lemma transitions_trans:
  assumes 1: "phase_contract t g a g1 a1" and 2: "phase_contract t g1 a1 g2 a2"
  shows "\<exists>ts. act_transitions a2 = act_transitions a @ ts \<and>
    (\<forall>i p p2. hm_get (peers g) i = Some p \<longrightarrow> hm_get (peers g2) i = Some p2 \<longrightarrow>
       is_active (pi_state p2) \<longrightarrow> pi_state p2 = follow i ts (pi_state p))"
proof -
  from 1 obtain t1 where t1: "act_transitions a1 = act_transitions a @ t1"
    "\<And>i p p'. hm_get (peers g) i = Some p \<Longrightarrow> hm_get (peers g1) i = Some p' \<Longrightarrow>
       is_active (pi_state p') \<Longrightarrow> pi_state p' = follow i t1 (pi_state p)"
    by (auto simp: phase_contract_def)
  from 2 obtain t2 where t2: "act_transitions a2 = act_transitions a1 @ t2"
    "\<And>i p p'. hm_get (peers g1) i = Some p \<Longrightarrow> hm_get (peers g2) i = Some p' \<Longrightarrow>
       is_active (pi_state p') \<Longrightarrow> pi_state p' = follow i t2 (pi_state p)"
    by (auto simp: phase_contract_def)
  have "pi_state p2 = follow i (t1 @ t2) (pi_state p)"
    if p: "hm_get (peers g) i = Some p" "hm_get (peers g2) i = Some p2" "is_active (pi_state p2)" for i p p2
  proof -
    from phase_keeps [OF 2 p(2)] obtain p1 where p1: "hm_get (peers g1) i = Some p1" "keeps t p1 p2" by blast
    with p(3) have "is_active (pi_state p1)" by (simp add: keeps_def)
    with t1(2) [OF p(1) p1(1)] t2(2) [OF p1(1) p(2) p(3)] show ?thesis by simp
  qed
  with t1(1) t2(1) show ?thesis by (intro exI [of _ "t1 @ t2"]) auto
qed

lemma phase_contract_trans:
  assumes 1: "phase_contract t g a g1 a1" and 2: "phase_contract t g1 a1 g2 a2"
  shows "phase_contract t g a g2 a2"
proof -
  have "active_ids g - active_ids g2 = (active_ids g - active_ids g1) \<union> (active_ids g1 - active_ids g2)"
    using active_mono [OF 1] active_mono [OF 2] by auto
  moreover have "\<exists>p. hm_get (peers g) i = Some p \<and> keeps t p p2"
    if "hm_get (peers g2) i = Some p2" for i p2
  proof -
    from phase_keeps [OF 2 that] obtain p1 where p1: "hm_get (peers g1) i = Some p1" "keeps t p1 p2"
      by blast
    from phase_keeps [OF 1 p1(1)] p1(2) show ?thesis by (metis keeps_trans)
  qed
  moreover have "\<exists>new. act_connect a2 = act_connect a @ new \<and> (\<forall>i\<in>set new. may_dial t g i)"
  proof -
    from 1 2 obtain n1 n2 where n: "act_connect a1 = act_connect a @ n1" "\<forall>i\<in>set n1. may_dial t g i"
      "act_connect a2 = act_connect a1 @ n2" "\<forall>i\<in>set n2. may_dial t g1 i"
      unfolding phase_contract_def by metis
    then have "act_connect a2 = act_connect a @ (n1 @ n2)" "\<forall>i\<in>set (n1 @ n2). may_dial t g i"
      using may_dial_back [OF 1] by auto
    then show ?thesis by blast
  qed
  moreover have "\<exists>ts. act_transitions a2 = act_transitions a @ ts \<and>
        (\<forall>i p p2. hm_get (peers g) i = Some p \<longrightarrow> hm_get (peers g2) i = Some p2 \<longrightarrow>
           is_active (pi_state p2) \<longrightarrow> pi_state p2 = follow i ts (pi_state p))"
    by (rule transitions_trans [OF 1 2])
  ultimately show ?thesis
    using 1 2 by (simp add: phase_contract_def same_config_def Un_assoc)
qed

lemma phase_contract_refl: "gov_wf g \<Longrightarrow> phase_contract t g a g a"
  by (simp add: phase_contract_def same_config_def)

text \<open>Adding dial requests, and loops whose body respects the contract peer by peer.\<close>

lemma phase_contract_connect:
  "gov_wf g \<Longrightarrow> \<forall>i\<in>set new. may_dial t g i \<Longrightarrow> phase_contract t g a g (connect_all new a)"
  by (simp add: phase_contract_def same_config_def connect_all_def)

lemma for_peers_transitions:
  assumes "for_peers body ids (g, a) = (g', a')" and "distinct ids"
    and "\<And>i p a. act_transitions (snd (body i p) a) = act_transitions a @ map (Pair i) (T p)"
  shows "act_transitions a' = act_transitions a @
    concat (map (\<lambda>i. case hm_get (peers g) i of Some p \<Rightarrow> map (Pair i) (T p) | None \<Rightarrow> []) ids)"
  using assms(1,2)
proof (induction ids arbitrary: g a)
  case (Cons j js)
  show ?case
  proof (cases "hm_get (peers g) j")
    case None
    with Cons show ?thesis by (simp add: for_peers_Cons)
  next
    case (Some p)
    let ?g = "upd_peer j (fst (body j p)) g"
    from Some Cons.prems have "for_peers body js (?g, snd (body j p) a) = (g', a')"
      by (simp add: for_peers_Cons)
    note IH = Cons.IH [OF this]
    have eq: "map (\<lambda>i. case hm_get (peers ?g) i of Some p \<Rightarrow> map (Pair i) (T p) | None \<Rightarrow> []) js =
        map (\<lambda>i. case hm_get (peers g) i of Some p \<Rightarrow> map (Pair i) (T p) | None \<Rightarrow> []) js"
      using Cons.prems(2) by (intro map_cong) (auto simp: hm_get_simps)
    show ?thesis using IH [unfolded eq] Some Cons.prems(2) by (simp add: assms(3))
  qed
qed simp

lemma follow_concat:
  assumes "distinct ids" and "i \<in> set ids" and "hm_get m i = Some p"
  shows "follow i (concat (map (\<lambda>i. case hm_get m i of Some p \<Rightarrow> map (Pair i) (f p) | None \<Rightarrow> []) ids)) s =
    follow i (map (Pair i) (f p)) s"
  using assms(1,2)
proof (induction ids arbitrary: s)
  case (Cons j js)
  let ?f = "\<lambda>i. case hm_get m i of Some p \<Rightarrow> map (Pair i) (f p) | None \<Rightarrow> []"
  have other: "follow i (concat (map ?f ks)) s = s" if "i \<notin> set ks" for ks s
    using that by (intro follow_other) (auto split: option.splits)
  show ?case
  proof (cases "j = i")
    case True
    with Cons.prems assms(3) other [of js] show ?thesis by simp
  next
    case False
    have "follow i (?f j) s = s" using False by (intro follow_other) (auto split: option.splits)
    with False Cons show ?thesis by simp
  qed
qed simp

lemma for_peers_contract:
  assumes wf: "gov_wf g" and ids: "distinct ids" and run: "for_peers body ids (g, a) = (g', a')"
    and ok: "\<And>i p. i \<in> set ids \<Longrightarrow> hm_get (peers g) i = Some p \<Longrightarrow> peer_ok i p \<Longrightarrow>
      keeps t p (fst (body i p) p) \<and> peer_ok i (fst (body i p) p) \<and>
      (D p \<longleftrightarrow> is_active (pi_state p) \<and> \<not> is_active (pi_state (fst (body i p) p)))"
    and con: "\<And>i p a. act_connect (snd (body i p) a) = act_connect a"
    and dis: "\<And>i p a. act_disconnect (snd (body i p) a) = act_disconnect a @ (if D p then [i] else [])"
    and trs: "\<And>i p a. act_transitions (snd (body i p) a) = act_transitions a @ map (Pair i) (T p)"
    and states: "\<And>i p. i \<in> set ids \<Longrightarrow> hm_get (peers g) i = Some p \<Longrightarrow>
      is_active (pi_state (fst (body i p) p)) \<Longrightarrow>
      pi_state (fst (body i p) p) = follow i (map (Pair i) (T p)) (pi_state p)"
  shows "phase_contract t g a g' a'"
proof -
  note get = for_peers_get [OF ids run] and frame = for_peers_frame [OF run]
  note acts = for_peers_actions [OF run ids con dis]
  have wf': "gov_wf g'"
  proof (rule gov_wfI)
    show "hm_wf (peers g')" using frame(5) gov_wf_hm [OF wf] by simp
    show "peer_ok i p'" if "hm_get (peers g') i = Some p'" for i p'
      using that ok [of i] gov_wf_peer [OF wf, of i] by (auto simp: get split: if_splits)
  qed
  have keep: "\<exists>p. hm_get (peers g) i = Some p \<and> keeps t p p'" if "hm_get (peers g') i = Some p'" for i p'
    using that ok [of i] gov_wf_peer [OF wf, of i] by (auto simp: get split: if_splits)
  have "active_ids g - active_ids g' = {i \<in> set ids. \<exists>p. hm_get (peers g) i = Some p \<and> D p}"
    using ok gov_wf_peer [OF wf] by (auto simp: ids_in_def get split: if_splits)
  moreover have "hm_get (peers g') i = Some p" if "hm_get (peers g) i = Some p" "ban_in_force t p" for i p
    using that ok [of i p] gov_wf_peer [OF wf, of i p] by (auto simp: get keeps_def)
  moreover have "\<exists>ts. act_transitions a' = act_transitions a @ ts \<and>
      (\<forall>i p p'. hm_get (peers g) i = Some p \<longrightarrow> hm_get (peers g') i = Some p' \<longrightarrow>
         is_active (pi_state p') \<longrightarrow> pi_state p' = follow i ts (pi_state p))"
  proof (intro exI conjI allI impI)
    let ?ts = "concat (map (\<lambda>i. case hm_get (peers g) i of Some p \<Rightarrow> map (Pair i) (T p) | None \<Rightarrow> []) ids)"
    show "act_transitions a' = act_transitions a @ ?ts" by (rule for_peers_transitions [OF run ids trs])
    fix i p p'
    assume p: "hm_get (peers g) i = Some p" "hm_get (peers g') i = Some p'" "is_active (pi_state p')"
    show "pi_state p' = follow i ?ts (pi_state p)"
    proof (cases "i \<in> set ids")
      case True
      with p get have "p' = fst (body i p) p" by simp
      with states [OF True p(1)] p(3) follow_concat [where f = "\<lambda>p. T p", OF ids True p(1)]
      show ?thesis by simp
    next
      case False
      with p get have "p' = p" by simp
      moreover have "follow i ?ts (pi_state p) = pi_state p"
        using False by (intro follow_other) (auto split: option.splits)
      ultimately show ?thesis by simp
    qed
  qed
  ultimately show ?thesis
    using wf' keep acts frame by (simp add: phase_contract_def same_config_def)
qed

locale gov_phase =
  fixes ph :: phase and t :: instant
  assumes contract: "gov_wf g \<Longrightarrow> phase_contract t g a (fst (ph (g, a))) (snd (ph (g, a)))"
begin

lemma extend:
  assumes "phase_contract t g0 a0 (fst ga) (snd ga)"
  shows "phase_contract t g0 a0 (fst (ph ga)) (snd (ph ga))"
proof -
  have "gov_wf (fst ga)" using assms by (simp add: phase_contract_def)
  from phase_contract_trans [OF assms contract [OF this, of "snd ga"]] show ?thesis by simp
qed

end

lemma unban_contract:
  assumes wf: "gov_wf g"
  shows "phase_contract now g a (fst (unban_expired now (g, a))) (snd (unban_expired now (g, a)))"
proof -
  let ?f = "\<lambda>p. if ban_expired now p then p\<lparr>pi_state := Cold\<rparr> else p"
  let ?g = "fst (unban_expired now (g, a))" and ?a = "snd (unban_expired now (g, a))"
  have get: "hm_get (peers ?g) i = map_option ?f (hm_get (peers g) i)" for i
    by (simp add: unban_expired_def hm_get_map_values)
  have acts: "act_connect (foldl (\<lambda>a p. transition (x p) (y p) z a) a ps) = act_connect a \<and>
      act_disconnect (foldl (\<lambda>a p. transition (x p) (y p) z a) a ps) = act_disconnect a" for x y z ps
    by (induction ps arbitrary: a) (simp_all add: transition_def)
  have inactive: "\<not> is_active (pi_state p)" if "ban_expired now p" for p
    using that by (simp add: ban_expired_def split: peer_state.splits)
  have pok: "peer_ok i (?f p)" if "peer_ok i p" for i p
    using that inactive [of p] by (simp add: peer_ok_def)
  have wf': "gov_wf ?g"
    using wf pok by (intro gov_wfI) (auto simp: get gov_wf_peer gov_wf_hm, simp add: unban_expired_def hm_wf_map_values gov_wf_hm)
  have keep: "keeps now p (?f p)" for p
    using inactive [of p] by (auto simp: keeps_def ban_expired_def ban_in_force_def split: peer_state.splits)
  have "\<exists>p. hm_get (peers g) i = Some p \<and> keeps now p p'" if "hm_get (peers ?g) i = Some p'" for i p'
  proof -
    from that get obtain p where "hm_get (peers g) i = Some p" "p' = ?f p" by auto
    with keep [of p] show ?thesis by blast
  qed
  moreover have "active_ids ?g = active_ids g"
    using inactive by (auto simp: ids_in_def get split: if_splits)
  moreover have "hm_get (peers ?g) i = Some p" if "hm_get (peers g) i = Some p" "ban_in_force now p" for i p
    using that by (auto simp: get ban_expired_def ban_in_force_def split: peer_state.splits)
  moreover have "same_config g ?g" "act_connect ?a = act_connect a" "act_disconnect ?a = act_disconnect a"
    by (simp_all add: same_config_def unban_expired_def acts)
  moreover have "\<exists>ts. act_transitions ?a = act_transitions a @ ts \<and>
      (\<forall>i p p'. hm_get (peers g) i = Some p \<longrightarrow> hm_get (peers ?g) i = Some p' \<longrightarrow>
         is_active (pi_state p') \<longrightarrow> pi_state p' = follow i ts (pi_state p))"
  proof (intro exI conjI allI impI)
    let ?ts = "map (\<lambda>p. (pi_node_id p, state_name (pi_state p), ''cold'')) (filter (ban_expired now) (hm_values (peers g)))"
    have "act_transitions (foldl (\<lambda>a p. transition (x p) (y p) z a) a ps) =
        act_transitions a @ map (\<lambda>p. (x p, y p, z)) ps" for x y z and ps :: "peer_info list"
      by (induction ps arbitrary: a) (simp_all add: transition_def)
    then show "act_transitions ?a = act_transitions a @ ?ts" by (simp add: unban_expired_def)
    fix i p p'
    assume p: "hm_get (peers g) i = Some p" "hm_get (peers ?g) i = Some p'" "is_active (pi_state p')"
    have "follow i (map (\<lambda>p. (x p, y p, ''cold'')) ps) s = s" for x y s and ps :: "peer_info list"
      by (induction ps arbitrary: s) simp_all
    moreover from p get have "p' = p" by (auto split: if_splits)
    ultimately show "pi_state p' = follow i ?ts (pi_state p)" by simp
  qed
  ultimately show ?thesis using wf' by (simp add: phase_contract_def)
qed

interpretation unban: gov_phase "unban_expired now" now for now
  by unfold_locales (rule unban_contract)

lemma reap_contract:
  assumes wf: "gov_wf g"
  shows "phase_contract t g a (fst (reap_dead now (g, a))) (snd (reap_dead now (g, a)))"
proof -
  let ?ids = "map pi_node_id (filter (is_dead now) (hm_values (peers g)))"
  obtain g' a' where run: "for_peers (reap_one now) ?ids (g, a) = (g', a')" by fastforce
  have ok: "keeps t p (fst (reap_one now i p) p) \<and> peer_ok i (fst (reap_one now i p) p) \<and>
      (pi_state p = Warm \<longleftrightarrow> is_active (pi_state p) \<and> \<not> is_active (pi_state (fst (reap_one now i p) p)))"
    if "peer_ok i p" for i p
    using that by (simp add: reap_one_def keeps_def peer_ok_def ban_in_force_def split: peer_state.split)
  have "phase_contract t g a g' a'"
    using wf values_filter_ids(1) [OF wf] run ok
    by (rule for_peers_contract [where D = "\<lambda>p. pi_state p = Warm" and
          T = "\<lambda>p. case pi_state p of Hot \<Rightarrow> [(''hot'', ''warm'')] | Warm \<Rightarrow> [(''warm'', ''cold'')] | _ \<Rightarrow> []"])
      (simp_all add: reap_one_def transition_def disconnect_def state_name_def split: peer_state.splits)
  with run show ?thesis by (simp add: reap_dead_def)
qed

interpretation reap: gov_phase "reap_dead now" t for now t
  by unfold_locales (rule reap_contract)

lemma promotable_may_dial:
  assumes "gov_wf g" and "i \<in> set (map pi_node_id (filter (promotable now g) (hm_values (peers g))))"
  shows "may_dial t g i"
  using assms(2) unfolding values_filter_ids(2) [OF assms(1)]
  by (auto simp: may_dial_def promotable_def ban_in_force_def)

text \<open>The ids at the front of a list of peers sorted by some key.\<close>

lemma take_sorted_ids:
  fixes ps :: "peer_info list" and key :: "node_id \<times> 'a \<Rightarrow> 'b::linorder"
    and h :: "peer_info \<Rightarrow> 'a" and n :: nat
  assumes "distinct (map pi_node_id ps)"
  defines "ids \<equiv> map fst (take n (sort_key key (map (\<lambda>p. (pi_node_id p, h p)) ps)))"
  shows "distinct ids" "set ids \<subseteq> set (map pi_node_id ps)" "length ids = min n (length ps)"
proof -
  let ?sorted = "sort_key key (map (\<lambda>p. (pi_node_id p, h p)) ps)"
  have "mset (map fst ?sorted) = mset (map fst (map (\<lambda>p. (pi_node_id p, h p)) ps))"
    by (simp only: mset_map mset_sort)
  then have m: "mset (map fst ?sorted) = mset (map pi_node_id ps)" by (simp add: comp_def)
  have d: "distinct (map fst ?sorted)"
    using mset_eq_imp_distinct_iff [OF m] assms(1) by (rule iffD2)
  have ids: "ids = take n (map fst ?sorted)" by (simp only: ids_def take_map)
  show "distinct ids" unfolding ids using d by (rule distinct_take)
  show "set ids \<subseteq> set (map pi_node_id ps)"
    unfolding ids using set_take_subset mset_eq_setD [OF m] by (rule subset_trans [OF _ equalityD1])
  show "length ids = min n (length ps)" by (simp add: ids_def)
qed

text \<open>The dial requests of the promotion phase: promotable peers, at most as many as are missing.\<close>

lemma promote_cold_cases:
  obtains (none) "promote_cold_to_warm now (g, a) = (g, a)"
  | (some) new where "promote_cold_to_warm now (g, a) = (g, connect_all new a)"
      "set new \<subseteq> set (map pi_node_id (filter (promotable now g) (hm_values (peers g))))"
      "length new \<le> warm_max (targets g) -
         (length (in_state (\<lambda>s. s = Warm) g) + length (in_state (\<lambda>s. s = Hot) g))"
proof -
  let ?act = "length (in_state (\<lambda>s. s = Warm) g) + length (in_state (\<lambda>s. s = Hot) g)"
  let ?ps = "filter (promotable now g) (hm_values (peers g))"
  let ?n = "warm_max (targets g) - ?act"
  let ?sorted = "take ?n (map fst (sort_key (\<lambda>(_, overlap). \<not> overlap)
      (map (\<lambda>p. (pi_node_id p, has_group_overlap p (our_groups g))) ?ps)))"
  let ?new = "if ?sorted = [] then map pi_node_id (take ?n ?ps) else ?sorted"
  have "promote_cold_to_warm now (g, a) =
      (if warm_max (targets g) \<le> ?act then (g, a) else (g, connect_all ?new a))"
    by (simp add: promote_cold_to_warm_def counts_eq Let_def)
  moreover have "set ?sorted \<subseteq> set (map pi_node_id ?ps)"
    by (rule subset_trans [OF set_take_subset]) auto
  then have "set ?new \<subseteq> set (map pi_node_id ?ps)" by (auto dest: in_set_takeD)
  moreover have "length ?new \<le> ?n" by simp
  ultimately show ?thesis using none some by (metis (no_types, lifting))
qed

lemma promote_cold_contract:
  assumes wf: "gov_wf g"
  shows "phase_contract t g a (fst (promote_cold_to_warm now (g, a))) (snd (promote_cold_to_warm now (g, a)))"
proof (cases rule: promote_cold_cases [of now g a])
  case none
  with wf show ?thesis by (simp add: phase_contract_refl)
next
  case (some new)
  from some(2) have "\<forall>i\<in>set new. may_dial t g i"
    using promotable_may_dial [OF wf, of _ now t] by (meson subsetD)
  with some(1) wf show ?thesis by (simp add: phase_contract_connect)
qed

interpretation pcold: gov_phase "promote_cold_to_warm now" t for now t
  by unfold_locales (rule promote_cold_contract)

text \<open>The peers made hot are promotion candidates, and there are at most as many as are missing.\<close>

lemma promote_warm_cases:
  assumes "gov_wf g"
  obtains ids where "promote_warm_to_hot now (g, a) = for_peers make_hot ids (g, a)" "distinct ids"
    "set ids \<subseteq> set (map pi_node_id (filter (promotion_candidate now) (hm_values (peers g))))"
proof -
  let ?ps = "filter (promotion_candidate now) (hm_values (peers g))"
  let ?hot = "length (in_state (\<lambda>s. s = Hot) g)"
  have best: "w \<in> set ps" if "max_by_score f ps = Some w" for f w and ps :: "peer_info list"
  proof (cases ps)
    case (Cons x xs)
    have "foldl (\<lambda>m y. if f m \<le> f y then y else m) x xs \<in> set (x # xs)"
      by (induction xs arbitrary: x) auto
    with that Cons show ?thesis by simp
  qed (use that in simp)
  show ?thesis
  proof (cases "hot_min (targets g) \<le> ?hot")
    case True
    then have "promote_warm_to_hot now (g, a) = for_peers make_hot [] (g, a) \<or>
        (\<exists>w. max_by_score (score now) ?ps = Some w \<and>
           promote_warm_to_hot now (g, a) = for_peers make_hot [pi_node_id w] (g, a))"
      by (simp add: promote_warm_to_hot_def counts_eq Let_def split: option.split)
    with that [of "[]"] that [of "[pi_node_id w]" for w] best show ?thesis by fastforce
  next
    case False
    let ?sorted = "sort_key (\<lambda>(_, s). - s) (map (\<lambda>p. (pi_node_id p, score now p)) ?ps)"
    let ?ids = "map fst (take (hot_min (targets g) - ?hot) ?sorted)"
    note ids = take_sorted_ids(1,2) [OF values_filter_ids(1) [OF assms]]
    have "distinct ?ids" "set ?ids \<subseteq> set (map pi_node_id ?ps)" by (rule ids)+
    moreover have "promote_warm_to_hot now (g, a) = for_peers make_hot ?ids (g, a)"
      using False by (simp add: promote_warm_to_hot_def counts_eq Let_def)
    ultimately show ?thesis using that by blast
  qed
qed

lemma make_hot_contract:
  assumes wf: "gov_wf g" and "distinct ids"
    and cand: "set ids \<subseteq> set (map pi_node_id (filter (promotion_candidate now) (hm_values (peers g))))"
    and run: "for_peers make_hot ids (g, a) = (g', a')"
  shows "phase_contract t g a g' a'"
  using assms(1,2) run
proof (rule for_peers_contract [where D = "\<lambda>_. False" and T = "\<lambda>_. [(''warm'', ''hot'')]"])
  fix i p assume i: "i \<in> set ids" "hm_get (peers g) i = Some p" "peer_ok i p"
  with cand have "pi_state p = Warm"
    unfolding values_filter_ids(2) [OF wf] by (auto simp: promotion_candidate_def)
  with i(3) show "keeps t p (fst (make_hot i p) p) \<and> peer_ok i (fst (make_hot i p) p) \<and>
      False = (is_active (pi_state p) \<and> \<not> is_active (pi_state (fst (make_hot i p) p)))"
    by (simp add: make_hot_def keeps_def peer_ok_def ban_in_force_def)
qed (simp_all add: make_hot_def transition_def)

lemma promote_warm_contract:
  assumes wf: "gov_wf g"
  shows "phase_contract t g a (fst (promote_warm_to_hot now (g, a))) (snd (promote_warm_to_hot now (g, a)))"
proof -
  obtain ids where ids: "promote_warm_to_hot now (g, a) = for_peers make_hot ids (g, a)" "distinct ids"
    "set ids \<subseteq> set (map pi_node_id (filter (promotion_candidate now) (hm_values (peers g))))"
    using promote_warm_cases [OF wf] by metis
  from make_hot_contract [OF wf ids(2,3) surjective_pairing] show ?thesis by (simp only: ids(1))
qed

interpretation pwarm: gov_phase "promote_warm_to_hot now" t for now t
  by unfold_locales (rule promote_warm_contract)

lemma demote_cases:
  assumes "gov_wf g"
  obtains ids where "demote_excess_hot now (g, a) = for_peers make_warm ids (g, a)" "distinct ids"
    "set ids \<subseteq> ids_in (\<lambda>s. s = Hot) g" "length ids = card (ids_in (\<lambda>s. s = Hot) g) - hot_max (targets g)"
proof -
  let ?ps = "in_state (\<lambda>s. s = Hot) g"
  let ?n = "length ?ps - hot_max (targets g)"
  let ?sorted = "sort_key (\<lambda>(_, s, is_stale). (\<not> is_stale, s))
    (map (\<lambda>p. (pi_node_id p, score now p, STALE_TIMEOUT < now - pi_last_activity p)) ?ps)"
  let ?ids = "map fst (take ?n ?sorted)"
  note ids = take_sorted_ids [OF in_state_ids(1) [OF assms]]
  have run: "demote_excess_hot now (g, a) = for_peers make_warm ?ids (g, a)"
    by (simp add: demote_excess_hot_def counts_eq Let_def)
  have "length ?ids = card (ids_in (\<lambda>s. s = Hot) g) - hot_max (targets g)"
    using ids(3) in_state_ids(3) [OF assms] by simp
  moreover have "distinct ?ids" by (rule ids(1))
  moreover have "set ?ids \<subseteq> ids_in (\<lambda>s. s = Hot) g"
    using ids(2) unfolding in_state_ids(2) [OF assms] .
  ultimately show ?thesis using that run by blast
qed

lemma demote_contract:
  assumes wf: "gov_wf g"
  shows "phase_contract t g a (fst (demote_excess_hot now (g, a))) (snd (demote_excess_hot now (g, a)))"
proof -
  obtain ids where ids: "demote_excess_hot now (g, a) = for_peers make_warm ids (g, a)" "distinct ids"
    "set ids \<subseteq> ids_in (\<lambda>s. s = Hot) g"
    using demote_cases [OF wf] by metis
  have "phase_contract t g a (fst (for_peers make_warm ids (g, a))) (snd (for_peers make_warm ids (g, a)))"
    using wf ids(2) surjective_pairing
  proof (rule for_peers_contract [where D = "\<lambda>_. False" and T = "\<lambda>_. [(''hot'', ''warm'')]"])
    fix i p assume i: "i \<in> set ids" "hm_get (peers g) i = Some p" "peer_ok i p"
    with ids(3) have "pi_state p = Hot" by (auto simp: ids_in_def)
    with i(3) show "keeps t p (fst (make_warm i p) p) \<and> peer_ok i (fst (make_warm i p) p) \<and>
        False = (is_active (pi_state p) \<and> \<not> is_active (pi_state (fst (make_warm i p) p)))"
      by (simp add: make_warm_def keeps_def peer_ok_def ban_in_force_def)
  qed (simp_all add: make_warm_def transition_def)
  then show ?thesis by (simp only: ids(1))
qed

interpretation dhot: gov_phase "demote_excess_hot now" t for now t
  by unfold_locales (rule demote_contract)

lemma gov_wf_cong: "peers g' = peers g \<Longrightarrow> gov_wf g' = gov_wf g"
  by (simp add: gov_wf_def)

lemma ids_in_cong: "peers g' = peers g \<Longrightarrow> ids_in P g' = ids_in P g"
  by (simp add: ids_in_def)

lemma phase_contract_same_peers:
  assumes "gov_wf g" and "peers g' = peers g" and "same_config g g'"
  shows "phase_contract t g a g' a"
  using assms by (simp add: phase_contract_def gov_wf_cong [OF assms(2)] ids_in_cong [OF assms(2)])

lemma make_cold_contract:
  assumes wf: "gov_wf g" and "distinct ids" and ids: "set ids \<subseteq> ids_in (\<lambda>s. s = Warm) g"
    and run: "for_peers make_cold ids (g, a) = (g', a')"
  shows "phase_contract t g a g' a'"
  using assms(1,2) run
proof (rule for_peers_contract [where D = "\<lambda>_. True" and T = "\<lambda>_. [(''warm'', ''cold'')]"])
  fix i p assume i: "i \<in> set ids" "hm_get (peers g) i = Some p" "peer_ok i p"
  with ids have "pi_state p = Warm" by (auto simp: ids_in_def)
  with i(3) show "keeps t p (fst (make_cold i p) p) \<and> peer_ok i (fst (make_cold i p) p) \<and>
      True = (is_active (pi_state p) \<and> \<not> is_active (pi_state (fst (make_cold i p) p)))"
    by (simp add: make_cold_def keeps_def peer_ok_def ban_in_force_def)
qed (simp_all add: make_cold_def transition_def disconnect_def)

text \<open>Churn, when it does something: warm peers become cold, and cold peers are dialled.\<close>

lemma churn_cases [consumes 1, case_names idle busy]:
  assumes wf: "gov_wf g"
  obtains (idle) g1 where "churn now (g, a) = (g1, a)" "peers g1 = peers g" "same_config g g1"
  | (busy) ids g1 a1 new where "churn_due now g" "distinct ids" "set ids \<subseteq> ids_in (\<lambda>s. s = Warm) g"
      "for_peers make_cold ids (g\<lparr>last_churn := now\<rparr>, a) = (g1, a1)"
      "churn now (g, a) = (g1, connect_all new a1)"
      "set new \<subseteq> set (map pi_node_id
         (filter (\<lambda>p. pi_state p = Cold \<and> is_dialable g1 p) (hm_values (peers g1))))"
      "length new \<le> nat \<lceil>of_nat (card (ids_in (\<lambda>s. s = Warm) g)) * churn_fraction (targets g)\<rceil>"
proof -
  let ?g = "g\<lparr>last_churn := now\<rparr>"
  let ?n = "nat \<lceil>of_nat (length (in_state (\<lambda>s. s = Warm) ?g)) * churn_fraction (targets ?g)\<rceil>"
  let ?ids = "map pi_node_id (take ?n (in_state (\<lambda>s. s = Warm) ?g))"
  have wf': "gov_wf ?g" using wf by (simp add: gov_wf_def)
  obtain g1 a1 where run: "for_peers make_cold ?ids (?g, a) = (g1, a1)" by fastforce
  let ?new = "map pi_node_id (take ?n
      (filter (\<lambda>p. pi_state p = Cold \<and> is_dialable g1 p) (hm_values (peers g1))))"
  have n: "?n = nat \<lceil>of_nat (card (ids_in (\<lambda>s. s = Warm) g)) * churn_fraction (targets g)\<rceil>"
    using in_state_ids(3) [OF wf', of "\<lambda>s. s = Warm"] by (simp add: ids_in_def)
  have d: "distinct ?ids"
    using in_state_ids(1) [OF wf', of "\<lambda>s. s = Warm"] unfolding take_map [symmetric] by (rule distinct_take)
  have "set ?ids \<subseteq> ids_in (\<lambda>s. s = Warm) ?g"
    unfolding in_state_ids(2) [OF wf', symmetric] take_map [symmetric] by (rule set_take_subset)
  then have s: "set ?ids \<subseteq> ids_in (\<lambda>s. s = Warm) g" by (simp add: ids_in_def)
  have new: "set ?new \<subseteq> set (map pi_node_id
      (filter (\<lambda>p. pi_state p = Cold \<and> is_dialable g1 p) (hm_values (peers g1))))"
    unfolding take_map [symmetric] by (rule set_take_subset)
  have len: "length ?new \<le> ?n" by simp
  have same: "same_config g ?g" by (simp add: same_config_def)
  define idle_now where "idle_now \<longleftrightarrow> ?n = 0 \<or> length (in_state (\<lambda>s. s = Cold) ?g) = 0"
  have "churn now (g, a) =
      (if \<not> churn_due now g then (g, a) else if idle_now then (?g, a) else (g1, connect_all ?new a1))"
    unfolding churn_def counts_eq Let_def prod.case run idle_now_def by simp
  then consider "churn now (g, a) = (g, a)" | "churn now (g, a) = (?g, a)"
    | "churn_due now g" "churn now (g, a) = (g1, connect_all ?new a1)"
    by (cases "churn_due now g"; cases idle_now) simp_all
  then show ?thesis
  proof cases
    case 1
    then show ?thesis by (rule idle) (simp_all add: same_config_def)
  next
    case 2
    then show ?thesis by (rule idle) (simp_all add: same_config_def)
  next
    case 3
    then show ?thesis using busy [OF 3(1) d s run 3(2) new] len n by simp
  qed
qed

lemma cold_may_dial:
  assumes "gov_wf g"
    and "i \<in> set (map pi_node_id (filter (\<lambda>p. pi_state p = Cold \<and> is_dialable g p) (hm_values (peers g))))"
  shows "may_dial t g i"
  using assms(2) unfolding values_filter_ids(2) [OF assms(1)]
  by (auto simp: may_dial_def ban_in_force_def)

lemma churn_contract:
  assumes wf: "gov_wf g"
  shows "phase_contract t g a (fst (churn now (g, a))) (snd (churn now (g, a)))"
  using wf
proof (cases rule: churn_cases [of g now a])
  case (idle g1)
  with wf show ?thesis by (simp add: phase_contract_same_peers)
next
  case (busy ids g1 a1 new)
  let ?g = "g\<lparr>last_churn := now\<rparr>"
  have 1: "phase_contract t g a ?g a"
    using wf by (intro phase_contract_same_peers) (simp_all add: same_config_def)
  have wf': "gov_wf ?g" using wf by (simp add: gov_wf_def)
  have "set ids \<subseteq> ids_in (\<lambda>s. s = Warm) ?g" using busy(3) by (simp add: ids_in_def)
  from phase_contract_trans [OF 1 make_cold_contract [OF wf' busy(2) this busy(4)]]
  have 2: "phase_contract t g a g1 a1" .
  then have wf1: "gov_wf g1" by (simp add: phase_contract_def)
  have "\<forall>i\<in>set new. may_dial t g1 i"
    using busy(6) cold_may_dial [OF wf1, of _ t] by (meson subsetD)
  from phase_contract_trans [OF 2 phase_contract_connect [OF wf1 this]] busy(5) show ?thesis by simp
qed

interpretation chrn: gov_phase "churn now" t for now t
  by unfold_locales (rule churn_contract)

lemma foldl_remove:
  "hm_get (foldl (\<lambda>m (i, _). hm_remove i m) m xs) k = (if k \<in> fst ` set xs then None else hm_get m k)"
  "hm_wf m \<Longrightarrow> hm_wf (foldl (\<lambda>m (i, _). hm_remove i m) m xs)"
  by (induction xs arbitrary: m) (auto simp: hm_get_simps hm.wf_del)

lemma evict_cases:
  assumes wf: "gov_wf g"
  obtains ids where
    "\<And>i. hm_get (peers (fst (evict_excess_cold (g, a)))) i = (if i \<in> ids then None else hm_get (peers g) i)"
    "hm_wf (peers (fst (evict_excess_cold (g, a))))" "same_config g (fst (evict_excess_cold (g, a)))"
    "snd (evict_excess_cold (g, a)) = a" "ids \<subseteq> ids_in (\<lambda>s. s = Cold) g"
    "card ids = card (ids_in (\<lambda>s. s = Cold) g) - cold_max (targets g)"
proof -
  let ?ps = "in_state (\<lambda>s. s = Cold) g"
  let ?n = "length ?ps - cold_max (targets g)"
  let ?sorted = "take ?n (sort_key snd (map (\<lambda>p. (pi_node_id p, pi_last_activity p)) ?ps))"
  note ids = take_sorted_ids [OF in_state_ids(1) [OF wf]]
  have run: "evict_excess_cold (g, a) = (g\<lparr>peers := foldl (\<lambda>m (i, _). hm_remove i m) (peers g) ?sorted\<rparr>, a)"
    by (simp add: evict_excess_cold_def counts_eq Let_def)
  have "card (set (map fst ?sorted)) = length (map fst ?sorted)" by (rule distinct_card [OF ids(1)])
  then have "card (set (map fst ?sorted)) = card (ids_in (\<lambda>s. s = Cold) g) - cold_max (targets g)"
    by (simp add: in_state_ids(3) [OF wf])
  moreover have "set (map fst ?sorted) \<subseteq> ids_in (\<lambda>s. s = Cold) g"
    using ids(2) unfolding in_state_ids(2) [OF wf] .
  ultimately show ?thesis
    using gov_wf_hm [OF wf]
    by (intro that [of "set (map fst ?sorted)"]) (simp_all add: run foldl_remove same_config_def)
qed

lemma evict_contract:
  assumes wf: "gov_wf g"
  shows "phase_contract t g a (fst (evict_excess_cold (g, a))) (snd (evict_excess_cold (g, a)))"
proof (cases rule: evict_cases [OF wf, of a])
  case (1 ids)
  have "active_ids (fst (evict_excess_cold (g, a))) = active_ids g"
    using 1(5) by (auto simp: ids_in_def 1(1) split: if_splits)
  moreover have "gov_wf (fst (evict_excess_cold (g, a)))"
    using wf 1(2) by (intro gov_wfI) (auto simp: 1(1) gov_wf_peer split: if_splits)
  moreover have "hm_get (peers (fst (evict_excess_cold (g, a)))) i = Some p"
    if "hm_get (peers g) i = Some p" "ban_in_force t p" for i p
    using that 1(5) by (auto simp: 1(1) ids_in_def ban_in_force_def)
  ultimately show ?thesis using 1(3,4) by (auto simp: phase_contract_def 1(1) split: if_splits)
qed

interpretation evict: gov_phase evict_excess_cold t for t
  by unfold_locales (rule evict_contract)

section \<open>A whole tick\<close>

lemma tick_phases:
  "tick clk g =
     evict_excess_cold (churn (clk 6) (demote_excess_hot (clk 5) (promote_warm_to_hot (clk 4)
       (promote_cold_to_warm (clk 3) (reap_dead (clk 2) (unban_expired (clk 1) (g, no_actions)))))))"
  by (simp add: tick_def Let_def)

lemma contract_to_churn:
  fixes clk :: "nat \<Rightarrow> instant"
  assumes "gov_wf g"
  defines "ga \<equiv> demote_excess_hot (clk 5) (promote_warm_to_hot (clk 4)
       (promote_cold_to_warm (clk 3) (reap_dead (clk 2) (unban_expired (clk 1) (g, no_actions)))))"
  shows "phase_contract (clk 1) g no_actions (fst ga) (snd ga)"
  unfolding ga_def
  by (intro dhot.extend pwarm.extend pcold.extend reap.extend unban.contract assms(1))

lemma tick_contract:
  assumes "gov_wf g"
  shows "phase_contract (clk 1) g no_actions (fst (tick clk g)) (snd (tick clk g))"
  unfolding tick_phases by (intro evict.extend chrn.extend contract_to_churn assms)

lemma contract_targets: "phase_contract t g a g' a' \<Longrightarrow> targets g' = targets g"
  by (simp add: phase_contract_def same_config_def)

lemma contract_wf: "phase_contract t g a g' a' \<Longrightarrow> gov_wf g'"
  by (simp add: phase_contract_def)

text \<open>
  In every tick, whatever the clock readings, the peers the governor asks to disconnect are
  exactly those that were active (warm or hot) before the tick and are not active after it, and
  no peer becomes active in a tick. So a node that executes the requests keeps its connections
  in step with the governor.
\<close>

theorem tick_disconnects_exactly:
  assumes "gov_wf g" and "tick clk g = (g', a)"
  shows "set (act_disconnect a) = active_ids g - active_ids g' \<and> active_ids g' \<subseteq> active_ids g"
  using tick_contract [OF assms(1), of clk] active_mono [OF tick_contract [OF assms(1), of clk]] assms(2)
  by (simp add: phase_contract_def no_actions_def)

definition peer_w :: "nat \<Rightarrow> peer_state \<Rightarrow> instant \<Rightarrow> node_id \<times> peer_info" where
  "peer_w n s t = (PeerId n, (new_peer_info t (PeerId n) [] [''g1''])\<lparr>pi_state := s\<rparr>)"

definition gov_w :: "(node_id \<times> peer_info) list \<Rightarrow> governor" where
  "gov_w ps = (new_governor 0 default_governor_targets [''g1''])\<lparr>peers := ps\<rparr>"

lemma gov_w_wf: "distinct (map fst ps) \<Longrightarrow> \<forall>(i, p)\<in>set ps. peer_ok i p \<Longrightarrow> gov_wf (gov_w ps)"
  by (auto simp: gov_wf_def gov_w_def hm_wf_def dest: map_of_SomeD)

lemma peer_w_ok: "peer_ok (fst (peer_w n s t)) (snd (peer_w n s t))"
  by (simp add: peer_w_def peer_ok_def new_peer_info_def)

text \<open>A governor with one silent warm peer, one silent hot peer and one fresh warm peer.\<close>

definition gov_dead_w :: governor where
  "gov_dead_w = gov_w [peer_w 1 Warm 0, peer_w 2 Hot 0, peer_w 3 Warm 200000000000]"

lemma gov_dead_w_wf: "gov_wf gov_dead_w"
  unfolding gov_dead_w_def
  by (rule gov_w_wf) (simp_all add: peer_w_def peer_ok_def new_peer_info_def)

theorem tick_disconnects_exactly_witness:
  "set (act_disconnect (snd (tick (\<lambda>_. 200000000000) gov_dead_w))) =
     active_ids gov_dead_w - active_ids (fst (tick (\<lambda>_. 200000000000) gov_dead_w))"
  using tick_disconnects_exactly [OF gov_dead_w_wf surjective_pairing] by blast

section \<open>Bounds\<close>

lemma for_peers_ids_in:
  assumes "distinct ids" and "for_peers body ids (g, a) = (g', a')"
    and "\<And>i p. i \<in> set ids \<Longrightarrow> hm_get (peers g) i = Some p \<Longrightarrow> \<not> P (pi_state (fst (body i p) p))"
  shows "ids_in P g' = ids_in P g - set ids"
  using assms(3) by (auto simp: ids_in_def for_peers_get [OF assms(1,2)] split: if_splits)

lemma demote_hot:
  assumes "gov_wf g"
  shows "card (ids_in (\<lambda>s. s = Hot) (fst (demote_excess_hot now (g, a)))) \<le> hot_max (targets g)"
proof -
  let ?H = "ids_in (\<lambda>s. s = Hot)"
  obtain ids where ids: "demote_excess_hot now (g, a) = for_peers make_warm ids (g, a)" "distinct ids"
    "set ids \<subseteq> ?H g" "length ids = card (?H g) - hot_max (targets g)"
    using demote_cases [OF assms] by metis
  have "?H (fst (demote_excess_hot now (g, a))) = ?H g - set ids"
    unfolding ids(1) by (rule for_peers_ids_in [OF ids(2) surjective_pairing]) (simp add: make_warm_def)
  then have "card (?H (fst (demote_excess_hot now (g, a)))) = card (?H g) - card (set ids)"
    using ids(3) by (simp add: card_Diff_subset finite_ids_in)
  with ids(4) distinct_card [OF ids(2)] show ?thesis by simp
qed

lemma churn_hot:
  assumes "gov_wf g"
  shows "ids_in (\<lambda>s. s = Hot) (fst (churn now (g, a))) \<subseteq> ids_in (\<lambda>s. s = Hot) g"
  using assms
proof (cases rule: churn_cases [of g now a])
  case (idle g1)
  then show ?thesis using ids_in_cong [OF idle(2)] by simp
next
  case (busy ids g1 a1 new)
  have "ids_in (\<lambda>s. s = Hot) g1 = ids_in (\<lambda>s. s = Hot) (g\<lparr>last_churn := now\<rparr>) - set ids"
    by (rule for_peers_ids_in [OF busy(2,4)]) (simp add: make_cold_def)
  with busy(5) show ?thesis by (simp add: ids_in_def)
qed

lemma evict_bounds:
  assumes "gov_wf g"
  shows "ids_in (\<lambda>s. s = Hot) (fst (evict_excess_cold (g, a))) \<subseteq> ids_in (\<lambda>s. s = Hot) g"
    and "card (ids_in (\<lambda>s. s = Cold) (fst (evict_excess_cold (g, a)))) \<le> cold_max (targets g)"
proof -
  obtain ids where get: "\<And>i. hm_get (peers (fst (evict_excess_cold (g, a)))) i =
      (if i \<in> ids then None else hm_get (peers g) i)"
    and c: "ids \<subseteq> ids_in (\<lambda>s. s = Cold) g"
    "card ids = card (ids_in (\<lambda>s. s = Cold) g) - cold_max (targets g)"
    using evict_cases [OF assms] by metis
  have eq: "ids_in P (fst (evict_excess_cold (g, a))) = ids_in P g - ids" for P
    by (auto simp: ids_in_def get split: if_splits)
  show "ids_in (\<lambda>s. s = Hot) (fst (evict_excess_cold (g, a))) \<subseteq> ids_in (\<lambda>s. s = Hot) g"
    by (simp add: eq)
  have "finite ids" using c(1) finite_ids_in by (rule finite_subset)
  with c show "card (ids_in (\<lambda>s. s = Cold) (fst (evict_excess_cold (g, a)))) \<le> cold_max (targets g)"
    by (simp add: eq card_Diff_subset)
qed

text \<open>
  C12. After every tick at most \<open>hot_max\<close> peers are hot and at most \<open>cold_max\<close> peers
  are cold, whatever the state before it.
\<close>

theorem tick_bounds:
  assumes "gov_wf g" and "tick clk g = (g', a)" and "counts g' = (hot, warm, cold, banned)"
  shows "hot \<le> hot_max (targets g) \<and> cold \<le> cold_max (targets g)"
proof -
  let ?H = "ids_in (\<lambda>s. s = Hot)"
  let ?g4 = "promote_warm_to_hot (clk 4) (promote_cold_to_warm (clk 3) (reap_dead (clk 2)
       (unban_expired (clk 1) (g, no_actions))))"
  let ?g5 = "demote_excess_hot (clk 5) ?g4" let ?g6 = "churn (clk 6) ?g5"
  have 4: "phase_contract (clk 1) g no_actions (fst ?g4) (snd ?g4)"
    by (intro pwarm.extend pcold.extend reap.extend unban.contract assms(1))
  have 5: "phase_contract (clk 1) g no_actions (fst ?g5) (snd ?g5)" by (rule contract_to_churn [OF assms(1)])
  have 6: "phase_contract (clk 1) g no_actions (fst ?g6) (snd ?g6)" by (rule chrn.extend [OF 5])
  have g': "g' = fst (evict_excess_cold ?g6)" using assms(2) by (simp add: tick_phases)
  have "card (?H (fst ?g5)) \<le> hot_max (targets g)"
    using demote_hot [OF contract_wf [OF 4], of "clk 5" "snd ?g4"] contract_targets [OF 4] by simp
  moreover have "?H (fst ?g6) \<subseteq> ?H (fst ?g5)"
    using churn_hot [OF contract_wf [OF 5], of "clk 6" "snd ?g5"] by (simp only: prod.collapse)
  moreover have "?H g' \<subseteq> ?H (fst ?g6)"
    unfolding g' using evict_bounds(1) [OF contract_wf [OF 6], of "snd ?g6"] by (simp only: prod.collapse)
  ultimately have H: "card (?H g') \<le> hot_max (targets g)"
    by (meson card_mono finite_ids_in order_trans)
  have C: "card (ids_in (\<lambda>s. s = Cold) g') \<le> cold_max (targets g)"
    using evict_bounds(2) [OF contract_wf [OF 6], of "snd ?g6"] contract_targets [OF 6] g' by simp
  have "gov_wf g'" using contract_wf [OF tick_contract [OF assms(1), of clk]] assms(2) by simp
  with H C assms(3) show ?thesis by (simp add: counts_eq in_state_ids(3))
qed

theorem tick_bounds_witness:
  "\<exists>hot warm cold banned. counts (fst (tick (\<lambda>_. 200000000000) gov_dead_w)) = (hot, warm, cold, banned) \<and>
     hot \<le> 20 \<and> cold \<le> 100"
proof -
  obtain hot warm cold banned where
    c: "counts (fst (tick (\<lambda>_. 200000000000) gov_dead_w)) = (hot, warm, cold, banned)"
    by (rule prod_cases4)
  with tick_bounds [OF gov_dead_w_wf surjective_pairing c] show ?thesis
    by (simp add: gov_dead_w_def gov_w_def new_governor_def with_dial_policy_def
        default_governor_targets_def)
qed

section \<open>Dialling\<close>

text \<open>The first two phases touch neither the backoff data nor the time of the last churn.\<close>

lemma unban_get:
  "hm_get (peers (fst (unban_expired now (g, a)))) i =
     map_option (\<lambda>p. if ban_expired now p then p\<lparr>pi_state := Cold\<rparr> else p) (hm_get (peers g) i)"
  by (simp add: unban_expired_def hm_get_map_values)

lemma reap_get:
  assumes "gov_wf (fst ga)"
  shows "hm_get (peers (fst (reap_dead now ga))) i =
    map_option (\<lambda>p. if is_dead now p then fst (reap_one now i p) p else p) (hm_get (peers (fst ga)) i)"
proof -
  let ?ids = "map pi_node_id (filter (is_dead now) (hm_values (peers (fst ga))))"
  have "hm_get (peers (fst (for_peers (reap_one now) ?ids (fst ga, snd ga)))) i =
      (if i \<in> set ?ids then map_option (\<lambda>p. fst (reap_one now i p) p) (hm_get (peers (fst ga)) i)
       else hm_get (peers (fst ga)) i)"
    by (rule for_peers_get [OF values_filter_ids(1) [OF assms] surjective_pairing])
  then show ?thesis
    unfolding values_filter_ids(2) [OF assms]
    by (cases "hm_get (peers (fst ga)) i") (simp_all add: reap_dead_def)
qed

definition backoff_data :: "peer_info \<Rightarrow> u32 \<times> instant option" where
  "backoff_data p = (pi_disconnect_count p, pi_last_disconnected p)"

lemma backoff_after_reap:
  assumes "gov_wf g"
    and "hm_get (peers (fst (reap_dead now2 (unban_expired now1 (g, a))))) i = Some p2"
  shows "\<exists>p. hm_get (peers g) i = Some p \<and> backoff_data p2 = backoff_data p"
proof -
  let ?ga = "unban_expired now1 (g, a)"
  have wf: "gov_wf (fst ?ga)" by (rule contract_wf [OF unban_contract [OF assms(1)]])
  obtain p1 where p1: "hm_get (peers (fst ?ga)) i = Some p1"
    "p2 = (if is_dead now2 p1 then fst (reap_one now2 i p1) p1 else p1)"
    using assms(2) by (auto simp: reap_get [OF wf])
  obtain p where p: "hm_get (peers g) i = Some p"
    "p1 = (if ban_expired now1 p then p\<lparr>pi_state := Cold\<rparr> else p)"
    using p1(1) by (auto simp: unban_get)
  have "backoff_data p2 = backoff_data p1"
    using p1(2) by (simp add: backoff_data_def reap_one_def split: peer_state.split)
  moreover have "backoff_data p1 = backoff_data p" using p(2) by (simp add: backoff_data_def)
  ultimately show ?thesis using p(1) by simp
qed

lemma last_churn_kept:
  assumes "gov_wf (fst ga)"
  shows "last_churn (fst (unban_expired now ga)) = last_churn (fst ga)"
    "last_churn (fst (reap_dead now ga)) = last_churn (fst ga)"
    "last_churn (fst (promote_cold_to_warm now ga)) = last_churn (fst ga)"
    "last_churn (fst (promote_warm_to_hot now ga)) = last_churn (fst ga)"
    "last_churn (fst (demote_excess_hot now ga)) = last_churn (fst ga)"
proof -
  obtain g a where ga: "ga = (g, a)" by fastforce
  with assms have wf: "gov_wf g" by simp
  have loop: "last_churn (fst (for_peers body ids ga)) = last_churn (fst ga)" for body ids
    using for_peers_frame(3) [OF surjective_pairing] by (simp add: ga)
  show "last_churn (fst (unban_expired now ga)) = last_churn (fst ga)" by (simp add: unban_expired_def ga)
  show "last_churn (fst (reap_dead now ga)) = last_churn (fst ga)"
    unfolding reap_dead_def Let_def by (rule loop)
  show "last_churn (fst (promote_cold_to_warm now ga)) = last_churn (fst ga)"
    unfolding ga by (cases rule: promote_cold_cases [of now g a]) simp_all
  obtain ids where "promote_warm_to_hot now ga = for_peers make_hot ids ga"
    using promote_warm_cases [OF wf, of now a] unfolding ga by metis
  then show "last_churn (fst (promote_warm_to_hot now ga)) = last_churn (fst ga)" by (simp add: loop)
  obtain ids where "demote_excess_hot now ga = for_peers make_warm ids ga"
    using demote_cases [OF wf, of now a] unfolding ga by metis
  then show "last_churn (fst (demote_excess_hot now ga)) = last_churn (fst ga)" by (simp add: loop)
qed

lemma connect_kept:
  assumes "gov_wf (fst ga)"
  shows "act_connect (snd (promote_warm_to_hot now ga)) = act_connect (snd ga)"
    "act_connect (snd (demote_excess_hot now ga)) = act_connect (snd ga)"
proof -
  have loop: "act_connect (snd (for_peers body ids (g, a))) = act_connect a"
    if "\<And>i p a. act_connect (snd (body i p) a) = act_connect a" for body ids g a
    using that by (induction ids arbitrary: g a) (simp_all add: for_peers_Cons split: option.split)
  obtain g a where ga: "ga = (g, a)" by fastforce
  with assms have wf: "gov_wf g" by simp
  obtain ids where "promote_warm_to_hot now ga = for_peers make_hot ids ga"
    using promote_warm_cases [OF wf, of now a] unfolding ga by metis
  then show "act_connect (snd (promote_warm_to_hot now ga)) = act_connect (snd ga)"
    by (simp add: ga loop make_hot_def transition_def)
  obtain ids where "demote_excess_hot now ga = for_peers make_warm ids ga"
    using demote_cases [OF wf, of now a] unfolding ga by metis
  then show "act_connect (snd (demote_excess_hot now ga)) = act_connect (snd ga)"
    by (simp add: ga loop make_warm_def transition_def)
qed

lemma reap_no_connect:
  "act_connect (snd (reap_dead now2 (unban_expired now1 (g, no_actions)))) = []"
proof -
  have loop: "act_connect (snd (for_peers (reap_one now2) ids ga)) = act_connect (snd ga)" for ids ga
    by (induction ids arbitrary: ga)
      (simp_all add: for_peers_def reap_one_def transition_def disconnect_def split: option.split prod.split peer_state.split)
  have "act_connect (foldl (\<lambda>a p. transition (pi_node_id p) (y p) z a) a ps) = act_connect a"
    for y z a and ps :: "peer_info list"
    by (induction ps arbitrary: a) (simp_all add: transition_def)
  then have "act_connect (snd (unban_expired now1 (g, no_actions))) = act_connect no_actions"
    unfolding unban_expired_def prod.case snd_conv by simp
  then show ?thesis by (simp add: reap_dead_def Let_def loop no_actions_def)
qed

lemma churn_idle: "\<not> churn_due now (fst ga) \<Longrightarrow> churn now ga = ga"
  by (cases ga) (simp add: churn_def)

lemma backoff_elapsed_cong:
  "backoff_data p = backoff_data q \<Longrightarrow> backoff_elapsed now p = backoff_elapsed now q"
  by (simp add: backoff_data_def backoff_elapsed_def split: option.split)

lemma connect_of_promotion:
  assumes wf: "gov_wf g" and a: "tick clk g = (g', a)" and quiet: "\<not> churn_due (clk 6) g"
  shows "act_connect a =
    act_connect (snd (promote_cold_to_warm (clk 3) (reap_dead (clk 2) (unban_expired (clk 1) (g, no_actions)))))"
proof -
  let ?g1 = "unban_expired (clk 1) (g, no_actions)"
  let ?g2 = "reap_dead (clk 2) ?g1" let ?g3 = "promote_cold_to_warm (clk 3) ?g2"
  let ?g4 = "promote_warm_to_hot (clk 4) ?g3" let ?g5 = "demote_excess_hot (clk 5) ?g4"
  have 1: "phase_contract (clk 1) g no_actions (fst ?g1) (snd ?g1)" by (rule unban.contract [OF wf])
  note 2 = reap.extend [OF 1, of "clk 2"]
  note 3 = pcold.extend [OF 2, of "clk 3"]
  note 4 = pwarm.extend [OF 3, of "clk 4"]
  note 5 = dhot.extend [OF 4, of "clk 5"]
  note wfs = 1 [THEN contract_wf] 2 [THEN contract_wf] 3 [THEN contract_wf] 4 [THEN contract_wf]
  have "last_churn (fst ?g5) = last_churn g"
    using wf by (simp add: last_churn_kept wfs del: One_nat_def)
  with contract_targets [OF 5] quiet have "\<not> churn_due (clk 6) (fst ?g5)"
    by (simp add: churn_due_def)
  then have "churn (clk 6) ?g5 = ?g5" by (rule churn_idle)
  moreover have "snd (evict_excess_cold ga) = snd ga" for ga
    by (simp add: evict_excess_cold_def Let_def split: prod.split)
  ultimately have "act_connect a = act_connect (snd ?g5)"
    using a by (metis tick_phases snd_conv)
  also have "\<dots> = act_connect (snd ?g3)" by (simp add: connect_kept wfs del: One_nat_def)
  finally show ?thesis .
qed

text \<open>
  A tick asks to dial only peers that were known before it, that the dial policy allows and
  that are not under a ban still in force; and unless the hourly churn is due, only peers whose
  reconnect backoff has elapsed.
\<close>

theorem tick_connect_safe:
  assumes wf: "gov_wf g" and a: "tick clk g = (g', a)" and i: "i \<in> set (act_connect a)"
  shows "\<exists>p. hm_get (peers g) i = Some p \<and> is_dialable g p \<and> \<not> ban_in_force (clk 1) p \<and>
    (\<not> churn_due (clk 6) g \<longrightarrow> backoff_elapsed (clk 3) p)"
proof -
  have "may_dial (clk 1) g i"
    using tick_contract [OF wf, of clk] a i by (auto simp: phase_contract_def no_actions_def)
  then obtain p where p: "hm_get (peers g) i = Some p" "is_dialable g p" "\<not> ban_in_force (clk 1) p"
    by (auto simp: may_dial_def)
  have "backoff_elapsed (clk 3) p" if "\<not> churn_due (clk 6) g"
  proof -
    let ?g2 = "reap_dead (clk 2) (unban_expired (clk 1) (g, no_actions))"
    have 2: "phase_contract (clk 1) g no_actions (fst ?g2) (snd ?g2)"
      by (intro reap.extend unban.contract wf)
    have "i \<in> set (map pi_node_id (filter (promotable (clk 3) (fst ?g2)) (hm_values (peers (fst ?g2)))))"
    proof (cases rule: promote_cold_cases [of "clk 3" "fst ?g2" "snd ?g2"])
      case none
      have "act_connect (snd ?g2) = []"
        by (simp add: reap_no_connect)
      with none connect_of_promotion [OF wf a that] i show ?thesis by simp
    next
      case (some new)
      then show ?thesis
        using connect_of_promotion [OF wf a that] i by (simp add: connect_all_def reap_no_connect) blast
    qed
    then obtain p2 where p2: "hm_get (peers (fst ?g2)) i = Some p2" "promotable (clk 3) (fst ?g2) p2"
      unfolding values_filter_ids(2) [OF contract_wf [OF 2]] by blast
    from backoff_after_reap [OF wf p2(1)] p(1) have "backoff_data p2 = backoff_data p" by simp
    from backoff_elapsed_cong [OF this] p2(2) show ?thesis by (simp add: promotable_def)
  qed
  with p show ?thesis by blast
qed

definition gov_cold_w :: governor where
  "gov_cold_w = gov_w [peer_w 1 Cold 0]"

lemma gov_cold_w_wf: "gov_wf gov_cold_w"
  unfolding gov_cold_w_def
  by (rule gov_w_wf) (simp_all add: peer_w_def peer_ok_def new_peer_info_def)

lemmas tick_evals =
  tick_def Let_def unban_expired_def reap_dead_def promote_cold_to_warm_def promote_warm_to_hot_def
  demote_excess_hot_def churn_def evict_excess_cold_def counts_eq in_state_def hm_values_def
  hm_map_values_def for_peers_def promotable_def promotion_candidate_def is_dead_def ban_expired_def
  churn_due_def backoff_elapsed_def is_dialable_def connect_all_def no_actions_def
  has_group_overlap_def from_secs_def

lemmas gov_w_evals =
  gov_w_def peer_w_def new_peer_info_def new_governor_def with_dial_policy_def
  default_governor_targets_def

theorem tick_connect_safe_witness:
  "act_connect (snd (tick (\<lambda>_. 5) gov_cold_w)) = [PeerId 1] \<and>
   (\<exists>p. hm_get (peers gov_cold_w) (PeerId 1) = Some p \<and> is_dialable gov_cold_w p \<and>
      backoff_elapsed 5 p)"
proof -
  have c: "act_connect (snd (tick (\<lambda>_. 5) gov_cold_w)) = [PeerId 1]"
    by (simp add: gov_cold_w_def gov_w_evals tick_evals)
  moreover have "\<not> churn_due 5 gov_cold_w" by (simp add: gov_cold_w_def gov_w_evals tick_evals)
  ultimately show ?thesis
    using tick_connect_safe [OF gov_cold_w_wf surjective_pairing, of "PeerId 1" "\<lambda>_. 5"] by auto
qed

section \<open>Silent peers\<close>

lemma pwarm_hot:
  assumes "gov_wf g"
  shows "ids_in (\<lambda>s. s = Hot) (fst (promote_warm_to_hot now (g, a))) \<subseteq>
    ids_in (\<lambda>s. s = Hot) g \<union> {i. \<exists>p. hm_get (peers g) i = Some p \<and> promotion_candidate now p}"
proof -
  obtain ids where ids: "promote_warm_to_hot now (g, a) = for_peers make_hot ids (g, a)" "distinct ids"
    "set ids \<subseteq> set (map pi_node_id (filter (promotion_candidate now) (hm_values (peers g))))"
    using promote_warm_cases [OF assms] by metis
  from ids(3) have "set ids \<subseteq> {i. \<exists>p. hm_get (peers g) i = Some p \<and> promotion_candidate now p}"
    unfolding values_filter_ids(2) [OF assms] .
  then show ?thesis
    unfolding ids(1) ids_in_def
    by (auto simp: for_peers_get [OF ids(2) surjective_pairing] split: if_splits)
qed

lemma demote_hot_mono:
  assumes "gov_wf g"
  shows "ids_in (\<lambda>s. s = Hot) (fst (demote_excess_hot now (g, a))) \<subseteq> ids_in (\<lambda>s. s = Hot) g"
proof -
  obtain ids where ids: "demote_excess_hot now (g, a) = for_peers make_warm ids (g, a)" "distinct ids"
    using demote_cases [OF assms] by metis
  have "ids_in (\<lambda>s. s = Hot) (fst (demote_excess_hot now (g, a))) = ids_in (\<lambda>s. s = Hot) g - set ids"
    unfolding ids(1) by (rule for_peers_ids_in [OF ids(2) surjective_pairing]) (simp add: make_warm_def)
  then show ?thesis by blast
qed

text \<open>The last four phases make a peer hot only if it was hot or a promotion candidate.\<close>

lemma hot_after_reap:
  fixes clk :: "nat \<Rightarrow> instant"
  assumes "gov_wf (fst ga)"
  shows "ids_in (\<lambda>s. s = Hot) (fst (evict_excess_cold (churn (clk 6) (demote_excess_hot (clk 5)
      (promote_warm_to_hot (clk 4) (promote_cold_to_warm (clk 3) ga)))))) \<subseteq>
    ids_in (\<lambda>s. s = Hot) (fst ga) \<union>
    {i. \<exists>p. hm_get (peers (fst ga)) i = Some p \<and> promotion_candidate (clk 4) p}"
proof -
  let ?H = "ids_in (\<lambda>s. s = Hot)"
  let ?g3 = "promote_cold_to_warm (clk 3) ga" let ?g4 = "promote_warm_to_hot (clk 4) ?g3"
  let ?g5 = "demote_excess_hot (clk 5) ?g4" let ?g6 = "churn (clk 6) ?g5"
  have 0: "phase_contract 0 (fst ga) (snd ga) (fst ga) (snd ga)" by (rule phase_contract_refl [OF assms])
  note 3 = pcold.extend [OF 0, of "clk 3"]
  note 4 = pwarm.extend [OF 3, of "clk 4"]
  note 5 = dhot.extend [OF 4, of "clk 5"]
  note 6 = chrn.extend [OF 5, of "clk 6"]
  have g3: "peers (fst ?g3) = peers (fst ga)"
    by (cases ga, cases rule: promote_cold_cases [of "clk 3" "fst ga" "snd ga"]) simp_all
  have "?H (fst (evict_excess_cold ?g6)) \<subseteq> ?H (fst ?g6)"
    using evict_bounds(1) [OF contract_wf [OF 6], of "snd ?g6"] by (simp only: prod.collapse)
  also have "\<dots> \<subseteq> ?H (fst ?g5)"
    using churn_hot [OF contract_wf [OF 5], of "clk 6" "snd ?g5"] by (simp only: prod.collapse)
  also have "\<dots> \<subseteq> ?H (fst ?g4)"
    using demote_hot_mono [OF contract_wf [OF 4], of "clk 5" "snd ?g4"] by (simp only: prod.collapse)
  also have "\<dots> \<subseteq> ?H (fst ?g3) \<union>
      {i. \<exists>p. hm_get (peers (fst ?g3)) i = Some p \<and> promotion_candidate (clk 4) p}"
    using pwarm_hot [OF contract_wf [OF 3], of "clk 4" "snd ?g3"] by (simp only: prod.collapse)
  finally show ?thesis by (simp only: g3 ids_in_cong [OF g3])
qed

text \<open>What the first two phases make of a peer that has been silent for too long.\<close>

lemma silent_after_reap:
  assumes wf: "gov_wf g"
    and p2: "hm_get (peers (fst (reap_dead now2 (unban_expired now1 (g, a))))) i = Some p2"
    and silent: "\<And>p. hm_get (peers g) i = Some p \<Longrightarrow> DEAD_TIMEOUT < now2 - pi_last_activity p"
  shows "\<exists>p. hm_get (peers g) i = Some p \<and>
    (if pi_state p = Hot then pi_state p2 = Warm \<and> pi_demoted_at p2 = Some now2
     else \<not> is_active (pi_state p2))"
proof -
  let ?ga = "unban_expired now1 (g, a)"
  have wf1: "gov_wf (fst ?ga)" by (rule contract_wf [OF unban_contract [OF wf]])
  from p2 obtain p1 where p1: "hm_get (peers (fst ?ga)) i = Some p1"
    "p2 = (if is_dead now2 p1 then fst (reap_one now2 i p1) p1 else p1)"
    by (auto simp: reap_get [OF wf1])
  then obtain p where p: "hm_get (peers g) i = Some p"
    "p1 = (if ban_expired now1 p then p\<lparr>pi_state := Cold\<rparr> else p)"
    by (auto simp: unban_get)
  show ?thesis
  proof (intro exI conjI)
    show "if pi_state p = Hot then pi_state p2 = Warm \<and> pi_demoted_at p2 = Some now2
        else \<not> is_active (pi_state p2)"
      using silent [OF p(1)] p(2) p1(2)
      by (cases "pi_state p") (simp_all add: ban_expired_def is_dead_def reap_one_def)
  qed (rule p(1))
qed

lemma silent_tick_not_hot:
  assumes wf: "gov_wf g" and "tick clk g = (g1, a1)"
    and silent: "\<And>p. hm_get (peers g) i = Some p \<Longrightarrow> DEAD_TIMEOUT < clk 2 - pi_last_activity p"
    and quick: "clk 4 - clk 2 \<le> DEAD_TIMEOUT"
  shows "i \<notin> ids_in (\<lambda>s. s = Hot) g1"
proof
  let ?g2 = "reap_dead (clk 2) (unban_expired (clk 1) (g, no_actions))"
  assume "i \<in> ids_in (\<lambda>s. s = Hot) g1"
  moreover have "phase_contract (clk 1) g no_actions (fst ?g2) (snd ?g2)"
    by (intro reap.extend unban.contract wf)
  note wf2 = contract_wf [OF this]
  ultimately obtain p2 where p2: "hm_get (peers (fst ?g2)) i = Some p2"
    "pi_state p2 = Hot \<or> promotion_candidate (clk 4) p2"
    using hot_after_reap [OF wf2, of clk] assms(2) by (auto simp: tick_phases ids_in_def)
  from silent_after_reap [OF wf p2(1) silent] p2(2) quick show False
    by (auto simp: promotion_candidate_def split: if_splits)
qed

text \<open>
  C13. A silent peer is disconnected within two ticks: if a peer has shown no activity for longer
  than the dead timeout at two consecutive ticks (each of which takes at most that long between
  reaping and promotion), it is not active after the second one.
\<close>

theorem silent_peer_dropped:
  assumes wf: "gov_wf g" and 1: "tick clk1 g = (g1, a1)" and 2: "tick clk2 g1 = (g2, a2)"
    and p: "hm_get (peers g) i = Some p"
    and silent: "DEAD_TIMEOUT < clk1 2 - pi_last_activity p" "DEAD_TIMEOUT < clk2 2 - pi_last_activity p"
    and quick: "clk1 4 - clk1 2 \<le> DEAD_TIMEOUT"
  shows "i \<notin> active_ids g2"
proof
  let ?r = "reap_dead (clk2 2) (unban_expired (clk2 1) (g1, no_actions))"
  assume act: "i \<in> active_ids g2"
  have c1: "phase_contract (clk1 1) g no_actions g1 a1" using tick_contract [OF wf, of clk1] 1 by simp
  note wf1 = contract_wf [OF c1]
  have cr: "phase_contract (clk2 1) g1 no_actions (fst ?r) (snd ?r)"
    by (intro reap.extend unban.contract wf1)
  have "phase_contract (clk2 1) (fst ?r) (snd ?r) (fst ?r) (snd ?r)"
    by (rule phase_contract_refl [OF contract_wf [OF cr]])
  then have "phase_contract (clk2 1) (fst ?r) (snd ?r) (fst (tick clk2 g1)) (snd (tick clk2 g1))"
    unfolding tick_phases by (intro evict.extend chrn.extend dhot.extend pwarm.extend pcold.extend)
  from active_mono [OF this] act 2 obtain p2 where
    p2: "hm_get (peers (fst ?r)) i = Some p2" "is_active (pi_state p2)"
    by (auto simp: ids_in_def)
  have "DEAD_TIMEOUT < clk2 2 - pi_last_activity q" if "hm_get (peers g1) i = Some q" for q
    using phase_keeps [OF c1 that] p silent(2) by (auto simp: keeps_def)
  from silent_after_reap [OF wf1 p2(1) this] p2(2) obtain q where
    "hm_get (peers g1) i = Some q" "pi_state q = Hot" by (auto split: if_splits)
  then have "i \<in> ids_in (\<lambda>s. s = Hot) g1" by (auto simp: ids_in_def)
  moreover have "i \<notin> ids_in (\<lambda>s. s = Hot) g1"
    by (rule silent_tick_not_hot [OF wf 1 _ quick]) (use p silent(1) in simp)
  ultimately show False by blast
qed

theorem silent_peer_dropped_witness:
  "PeerId 2 \<notin> active_ids (fst (tick (\<lambda>_. 210000000000) (fst (tick (\<lambda>_. 200000000000) gov_dead_w))))"
  by (rule silent_peer_dropped [OF gov_dead_w_wf surjective_pairing surjective_pairing,
        where p = "snd (peer_w 2 Hot 0)"])
    (simp_all add: gov_dead_w_def gov_w_def peer_w_def new_peer_info_def DEAD_TIMEOUT_def from_secs_def)

section \<open>Reachable states\<close>

text \<open>
  The events of the node, each with its own clock reading; \<open>rehash\<close> changes the iteration
  order of the peer table.
\<close>

inductive gov_step :: "governor \<Rightarrow> governor \<Rightarrow> bool" where
  groups: "gov_step g (set_groups gs g)"
| add: "gov_step g (add_peer now i addrs gs g)"
| activity: "gov_step g (record_activity now i rtt g)"
| items: "gov_step g (gov_record_items_delivered now i n g)"
| connected: "gov_step g (mark_connected now i g)"
| disconnected: "gov_step g (mark_disconnected now i g)"
| dial_failed: "gov_step g (mark_dial_failed now i g)"
| replace: "gov_step g (snd (replace_node_id old new gs g))"
| ban: "gov_step g (ban_peer now i reason g)"
| relay: "gov_step g (set_peer_relay i b g)"
| tick: "gov_step g (fst (tick clk g))"
| rehash: "mset ps = mset (peers g) \<Longrightarrow> gov_step g (g\<lparr>peers := ps\<rparr>)"

lemma add_peer_wf:
  assumes "gov_wf g"
  shows "gov_wf (add_peer now i addrs gs g)"
proof (cases "hm_get (peers g) i")
  case None
  then show ?thesis
    using assms by (intro gov_wfI)
      (auto simp: add_peer_def hm_get_simps hm_wf_update gov_wf_hm gov_wf_peer peer_ok_def
        new_peer_info_def split: if_splits dest: gov_wf_peer)
next
  case (Some p)
  then show ?thesis using assms by (auto simp: add_peer_def peer_ok_def intro!: upd_peer_wf)
qed

lemma event_wf:
  assumes "gov_wf g"
  shows "gov_wf (record_activity now i rtt g)" "gov_wf (gov_record_items_delivered now i n g)"
    "gov_wf (mark_connected now i g)" "gov_wf (mark_disconnected now i g)"
    "gov_wf (mark_dial_failed now i g)" "gov_wf (ban_peer now i reason g)"
    "gov_wf (set_peer_relay i b g)"
  unfolding record_activity_def gov_record_items_delivered_def mark_connected_def mark_disconnected_def
    mark_dial_failed_def ban_peer_def set_peer_relay_def
  using assms by (auto simp: peer_ok_def Let_def intro!: upd_peer_wf split: option.split)

lemma replace_node_id_wf:
  assumes "gov_wf g"
  shows "gov_wf (snd (replace_node_id old new gs g))"
proof -
  have rm: "gov_wf (g\<lparr>peers := hm_remove old (peers g)\<rparr>)"
    using assms by (intro gov_wfI)
      (auto simp: hm_get_simps hm_wf_delete gov_wf_hm gov_wf_peer split: if_splits)
  have mv: "gov_wf (g\<lparr>peers := hm_insert new (p\<lparr>pi_node_id := new, pi_groups := gs\<rparr>) (hm_remove old (peers g))\<rparr>)"
    if "hm_get (peers g) old = Some p" for p
    using assms gov_wf_peer [OF assms that]
    by (intro gov_wfI) (auto simp: hm_get_simps hm_wf_update hm_wf_delete gov_wf_hm peer_ok_def
        split: if_splits dest: gov_wf_peer)
  have relay: "gov_wf (upd_peer new (\<lambda>t. t\<lparr>pi_is_relay := True\<rparr>) (g\<lparr>peers := hm_remove old (peers g)\<rparr>))"
    by (rule upd_peer_wf [OF rm]) (simp add: peer_ok_def)
  show ?thesis
    using assms rm mv relay by (simp add: replace_node_id_def Let_def split: option.split)
qed

lemma gov_step_wf: "gov_step g g' \<Longrightarrow> gov_wf g \<Longrightarrow> gov_wf g'"
proof (induction rule: gov_step.induct)
  case (tick g clk)
  then show ?case by (rule contract_wf [OF tick_contract])
next
  case (rehash ps g)
  then show ?case
    using hm_get_perm [OF gov_wf_hm [OF rehash.prems] rehash.hyps] by (simp add: gov_wf_def)
qed (simp_all add: event_wf add_peer_wf replace_node_id_wf, simp add: set_groups_def gov_wf_def)

lemma gov_step_policy: "gov_step g g' \<Longrightarrow> gov_wf g \<Longrightarrow> targets g' = targets g \<and> dial_policy_of g' = dial_policy_of g"
proof (induction rule: gov_step.induct)
  case (tick g clk)
  from tick_contract [OF this, of clk] show ?case by (simp add: phase_contract_def same_config_def)
qed (simp_all add: set_groups_def add_peer_def record_activity_def gov_record_items_delivered_def
    mark_connected_def mark_disconnected_def mark_dial_failed_def replace_node_id_def ban_peer_def
    set_peer_relay_def Let_def split: option.split)

text \<open>
  In every state the governor can reach from its creation, by any sequence of events and
  ticks with any clock readings and any iteration order of its table, each peer is stored under
  its own id once, only active peers carry a connection time, and the targets and the dial
  policy are the ones it was created with.
\<close>

theorem governor_reachable_wf:
  assumes "gov_step\<^sup>*\<^sup>* (with_dial_policy now ts gs pol) g"
  shows "gov_wf g \<and> targets g = ts \<and> dial_policy_of g = pol"
  using assms
proof (induction rule: rtranclp_induct)
  case base
  then show ?case by (simp add: with_dial_policy_def gov_wf_def hm_wf_def)
next
  case (step g g')
  with gov_step_wf [OF step(2)] gov_step_policy [OF step(2)] show ?case by simp
qed

theorem governor_reachable_wf_witness:
  "gov_wf (mark_connected 7 (PeerId 1)
     (add_peer 3 (PeerId 1) [] [] (with_dial_policy 0 default_governor_targets [] RelaysOnly)))"
proof -
  let ?g = "with_dial_policy 0 default_governor_targets [] RelaysOnly"
  have "gov_step\<^sup>*\<^sup>* ?g (mark_connected 7 (PeerId 1) (add_peer 3 (PeerId 1) [] [] ?g))"
    by (meson gov_step.intros rtranclp.intros)
  from governor_reachable_wf [OF this] show ?thesis by (rule conjunct1)
qed

section \<open>Backoff, bans, identities\<close>

text \<open>
  The reconnect backoff after \<open>n > 0\<close> failures is 30 seconds doubled \<open>n\<close> times,
  capped at 15 minutes, for every 32-bit count: the shift and the multiplication never overflow.
\<close>

theorem reconnect_backoff_closed_form:
  "reconnect_backoff n =
     (if n = 0 then 0 else min (30 * 2 ^ unat n) 900 * 1000000000)"
proof (cases "unat n \<le> 4")
  case True
  then have "n = 0 \<or> n = 1 \<or> n = 2 \<or> n = 3 \<or> n = 4" by unat_arith
  then show ?thesis
    by (elim disjE) (simp_all add: reconnect_backoff_def saturating_mul_def from_secs_def)
next
  case False
  then have "n \<noteq> 0" by auto
  from False have "5 \<le> n" by (simp add: word_le_nat_alt)
  then have "min n 5 = 5" by (rule min_absorb2)
  with \<open>n \<noteq> 0\<close> have "reconnect_backoff n = 900 * 1000000000"
    by (simp add: reconnect_backoff_def saturating_mul_def from_secs_def)
  moreover have "(2::nat) ^ 5 \<le> 2 ^ unat n" using False by (intro power_increasing) simp_all
  ultimately show ?thesis using \<open>n \<noteq> 0\<close> by simp
qed

lemma banned_kept:
  assumes "gov_wf g" and "tick clk g = (g', a)" and "hm_get (peers g) i = Some q" and "ban_in_force (clk 1) q"
  shows "hm_get (peers g') i = Some q" "i \<notin> set (act_connect a)"
proof -
  have c: "phase_contract (clk 1) g no_actions g' a" using tick_contract [OF assms(1), of clk] assms(2) by simp
  with assms(3,4) show "hm_get (peers g') i = Some q" by (simp add: phase_contract_def)
  show "i \<notin> set (act_connect a)"
  proof
    assume "i \<in> set (act_connect a)"
    with c have "may_dial (clk 1) g i" by (auto simp: phase_contract_def no_actions_def)
    with assms(3,4) show False by (simp add: may_dial_def)
  qed
qed



text \<open>
  Replacing the placeholder id of a peer by the id it identifies with: the placeholder is
  gone, other peers are unaffected, and the new id keeps its entry if that is active (becoming a
  relay if the placeholder was one), and otherwise takes over the placeholder's entry with the
  new groups, whatever it was before, a ban included.
\<close>

theorem replace_node_id_moves:
  assumes "old \<noteq> new" and "replace_node_id old new gs g = (r, g')"
  shows "(\<forall>i. i \<noteq> old \<and> i \<noteq> new \<longrightarrow> hm_get (peers g') i = hm_get (peers g) i) \<and>
    hm_get (peers g') old = None \<and>
    (r \<longleftrightarrow> new \<in> active_ids g \<or> hm_get (peers g) old \<noteq> None) \<and>
    hm_get (peers g') new =
      (case (hm_get (peers g) new, hm_get (peers g) old) of
         (Some q, Some p) \<Rightarrow>
           if is_active (pi_state q) then Some (q\<lparr>pi_is_relay := pi_is_relay q \<or> pi_is_relay p\<rparr>)
           else Some (p\<lparr>pi_node_id := new, pi_groups := gs\<rparr>)
       | (None, Some p) \<Rightarrow> Some (p\<lparr>pi_node_id := new, pi_groups := gs\<rparr>)
       | (q, None) \<Rightarrow> q)"
  using assms
  by (cases "hm_get (peers g) new"; cases "hm_get (peers g) old")
    (auto simp: replace_node_id_def ids_in_def hm_get_simps Let_def split: if_splits)

theorem replace_node_id_moves_witness:
  "let g = gov_w [peer_w 1 Cold 0, peer_w 2 (Banned 99 ''spam'' 1) 0];
       g' = snd (replace_node_id (PeerId 1) (PeerId 2) [] g)
   in \<exists>q. hm_get (peers g') (PeerId 2) = Some q \<and> pi_state q = Cold"
  using replace_node_id_moves [of "PeerId 1" "PeerId 2" "[]"
      "gov_w [peer_w 1 Cold 0, peer_w 2 (Banned 99 ''spam'' 1) 0]", OF _ surjective_pairing]
  by (simp add: gov_w_evals)

end
