(* ===== verification/Peer_Pool.thy ===== *)
theory Peer_Pool
  imports Governor_Props
begin

text \<open>
  The pool of connected peers (\<^verbatim>\<open>cordelia-node/src/peer_pool.rs\<close>). The contents of the two
  shared group sets that the pool reads live in its record; the tasks that share them read and
  write these fields. The sets of learned groups are lists used as sets. \<open>gen_range\<close> of
  the crate \<open>rand\<close> is a parameter \<open>rng\<close>: for a positive bound it returns an index
  below it.
\<close>

section \<open>State\<close>

record peer_handle =
  ph_node_id :: node_id
  ph_addrs :: "multiaddr list"
  ph_state :: peer_state
  ph_groups :: "group_id list"
  ph_group_intersection :: "group_id list"
  ph_rtt_ms :: "rat option"
  ph_protocol_version :: u16
  ph_is_relay :: bool
  ph_items_delivered :: u64

record peer_pool =
  pp_inner :: "(node_id, peer_handle) hashmap"
  pp_our_groups :: "group_id list"
  pp_relay_learned_groups :: "string list option"

definition new_pool :: "group_id list \<Rightarrow> peer_pool" where
  "new_pool gs = \<lparr>pp_inner = [], pp_our_groups = gs, pp_relay_learned_groups = None\<rparr>"

definition new_relay_pool :: "group_id list \<Rightarrow> string list \<Rightarrow> peer_pool" where
  "new_relay_pool gs learned =
     \<lparr>pp_inner = [], pp_our_groups = gs, pp_relay_learned_groups = Some learned\<rparr>"

section \<open>Operations\<close>

definition compute_intersection :: "peer_pool \<Rightarrow> group_id list \<Rightarrow> group_id list" where
  "compute_intersection pool peer_groups =
     filter (\<lambda>g. g \<in> set (pp_our_groups pool) \<or>
         (case pp_relay_learned_groups pool of Some learned \<Rightarrow> g \<in> set learned | None \<Rightarrow> False))
       peer_groups"

definition pool_insert ::
  "node_id \<Rightarrow> multiaddr list \<Rightarrow> group_id list \<Rightarrow> peer_state \<Rightarrow> u16 \<Rightarrow> bool \<Rightarrow> peer_pool \<Rightarrow> peer_pool" where
  "pool_insert i addrs peer_groups state version is_relay pool =
     pool\<lparr>pp_inner :=
       hm_insert i
         \<lparr>ph_node_id = i, ph_addrs = addrs, ph_state = state, ph_groups = peer_groups,
          ph_group_intersection = compute_intersection pool peer_groups, ph_rtt_ms = None,
          ph_protocol_version = version, ph_is_relay = is_relay, ph_items_delivered = 0\<rparr>
         (pp_inner pool)\<rparr>"

definition pool_remove :: "node_id \<Rightarrow> peer_pool \<Rightarrow> peer_handle option \<times> peer_pool" where
  "pool_remove i pool =
     (hm_get (pp_inner pool) i, pool\<lparr>pp_inner := hm_remove i (pp_inner pool)\<rparr>)"

definition pool_get :: "peer_pool \<Rightarrow> node_id \<Rightarrow> peer_handle option" where
  "pool_get pool i = hm_get (pp_inner pool) i"

definition hot_peers_for_group :: "peer_pool \<Rightarrow> group_id \<Rightarrow> peer_handle list" where
  "hot_peers_for_group pool g =
     filter (\<lambda>h. ph_state h = Hot \<and> g \<in> set (ph_group_intersection h)) (hm_values (pp_inner pool))"

definition active_peers_for_group :: "peer_pool \<Rightarrow> group_id \<Rightarrow> peer_handle list" where
  "active_peers_for_group pool g =
     filter (\<lambda>h. is_active (ph_state h) \<and> g \<in> set (ph_group_intersection h)) (hm_values (pp_inner pool))"

definition active_peers :: "peer_pool \<Rightarrow> peer_handle list" where
  "active_peers pool = filter (\<lambda>h. is_active (ph_state h)) (hm_values (pp_inner pool))"

definition active_peers_for_group_or_relays :: "peer_pool \<Rightarrow> group_id \<Rightarrow> peer_handle list" where
  "active_peers_for_group_or_relays pool g =
     filter (\<lambda>h. is_active (ph_state h) \<and> (ph_is_relay h \<or> g \<in> set (ph_group_intersection h)))
       (hm_values (pp_inner pool))"

definition pick :: "(nat \<Rightarrow> nat) \<Rightarrow> 'a list \<Rightarrow> 'a option" where
  "pick rng xs = (if xs = [] then None else Some (xs ! rng (length xs)))"

definition random_hot_peer_for_group_or_relays ::
  "(nat \<Rightarrow> nat) \<Rightarrow> peer_pool \<Rightarrow> group_id \<Rightarrow> peer_handle option" where
  "random_hot_peer_for_group_or_relays rng pool gid =
     (let vs = hm_values (pp_inner pool);
          ps = filter (\<lambda>h. ph_state h = Hot \<and> gid \<in> set (ph_group_intersection h)) vs;
          ps = (if ps = [] then filter (\<lambda>h. is_active (ph_state h) \<and> gid \<in> set (ph_group_intersection h)) vs else ps);
          ps = (if ps = [] then filter (\<lambda>h. ph_state h = Hot \<and> ph_is_relay h) vs else ps);
          ps = (if ps = [] then filter (\<lambda>h. is_active (ph_state h) \<and> ph_is_relay h) vs else ps)
      in pick rng ps)"

definition relay_peers :: "peer_pool \<Rightarrow> peer_handle list" where
  "relay_peers pool =
     filter (\<lambda>h. is_active (ph_state h) \<and> ph_is_relay h) (hm_values (pp_inner pool))"

definition peer_count_by_state :: "peer_pool \<Rightarrow> nat \<times> nat" where
  "peer_count_by_state pool =
     (length (filter (\<lambda>h. ph_state h = Warm) (hm_values (pp_inner pool))),
      length (filter (\<lambda>h. ph_state h = Hot) (hm_values (pp_inner pool))))"

definition pool_upd :: "node_id \<Rightarrow> (peer_handle \<Rightarrow> peer_handle) \<Rightarrow> peer_pool \<Rightarrow> peer_pool" where
  "pool_upd i f pool = pool\<lparr>pp_inner := hm_modify i f (pp_inner pool)\<rparr>"

definition update_peer_groups :: "node_id \<Rightarrow> group_id list \<Rightarrow> peer_pool \<Rightarrow> peer_pool" where
  "update_peer_groups i gs pool =
     pool_upd i
       (\<lambda>h. h\<lparr>ph_group_intersection := compute_intersection pool gs, ph_groups := gs\<rparr>) pool"

definition update_addrs :: "node_id \<Rightarrow> multiaddr list \<Rightarrow> peer_pool \<Rightarrow> peer_pool" where
  "update_addrs i addrs = pool_upd i (\<lambda>h. h\<lparr>ph_addrs := addrs\<rparr>)"

definition record_items_delivered :: "node_id \<Rightarrow> u64 \<Rightarrow> peer_pool \<Rightarrow> peer_pool" where
  "record_items_delivered i n = pool_upd i (\<lambda>h. h\<lparr>ph_items_delivered := ph_items_delivered h + n\<rparr>)"

definition update_rtt :: "node_id \<Rightarrow> rat \<Rightarrow> peer_pool \<Rightarrow> peer_pool" where
  "update_rtt i rtt = pool_upd i (\<lambda>h. h\<lparr>ph_rtt_ms := Some rtt\<rparr>)"

definition set_relay :: "node_id \<Rightarrow> bool \<Rightarrow> peer_pool \<Rightarrow> peer_pool" where
  "set_relay i b = pool_upd i (\<lambda>h. h\<lparr>ph_is_relay := b\<rparr>)"

definition set_state :: "node_id \<Rightarrow> peer_state \<Rightarrow> peer_pool \<Rightarrow> peer_pool" where
  "set_state i s = pool_upd i (\<lambda>h. h\<lparr>ph_state := s\<rparr>)"

definition apply_transition :: "node_id \<times> string \<times> string \<Rightarrow> peer_pool \<Rightarrow> peer_pool" where
  "apply_transition tr =
     (case tr of (i, from, to) \<Rightarrow>
       pool_upd i (\<lambda>h.
         if to = ''hot'' then h\<lparr>ph_state := Hot\<rparr>
         else if to = ''warm'' then h\<lparr>ph_state := Warm\<rparr>
         else h))"

definition drop_disconnected :: "node_id list \<times> peer_pool \<Rightarrow> node_id \<Rightarrow> node_id list \<times> peer_pool" where
  "drop_disconnected dp i =
     (case dp of (disconnected, pool) \<Rightarrow>
       case pool_remove i pool of
         (Some _, pool') \<Rightarrow> (disconnected @ [i], pool')
       | (None, pool') \<Rightarrow> (disconnected, pool'))"

definition apply_governor_actions :: "governor_actions \<Rightarrow> peer_pool \<Rightarrow> node_id list \<times> peer_pool" where
  "apply_governor_actions actions pool =
     (let pool1 = foldl (\<lambda>p tr. apply_transition tr p) pool (act_transitions actions)
      in foldl drop_disconnected ([], pool1) (act_disconnect actions))"

definition random_hot_peer_for_group :: "(nat \<Rightarrow> nat) \<Rightarrow> peer_pool \<Rightarrow> group_id \<Rightarrow> peer_handle option" where
  "random_hot_peer_for_group rng pool g =
     (let ps = hot_peers_for_group pool g;
          ps = (if ps = [] then active_peers_for_group pool g else ps)
      in pick rng ps)"

text \<open>The textual forms of ids and addresses come from \<open>libp2p\<close>.\<close>

record peer_detail =
  pd_node_id :: string
  pd_addrs :: "string list"
  pd_state :: string
  pd_rtt_ms :: "rat option"
  pd_items_delivered :: u64
  pd_groups :: "string list"
  pd_group_intersection :: "string list"
  pd_is_relay :: bool
  pd_protocol_version :: u16

definition peer_details ::
  "(node_id \<Rightarrow> string) \<Rightarrow> (multiaddr \<Rightarrow> string) \<Rightarrow> peer_pool \<Rightarrow> peer_detail list" where
  "peer_details to_base58 addr_to_string pool =
     map (\<lambda>h. \<lparr>pd_node_id = to_base58 (ph_node_id h), pd_addrs = map addr_to_string (ph_addrs h),
               pd_state = state_name (ph_state h), pd_rtt_ms = ph_rtt_ms h,
               pd_items_delivered = ph_items_delivered h, pd_groups = ph_groups h,
               pd_group_intersection = ph_group_intersection h, pd_is_relay = ph_is_relay h,
               pd_protocol_version = ph_protocol_version h\<rparr>)
       (hm_values (pp_inner pool))"

section \<open>Pool and governor in step\<close>

text \<open>The pool holds exactly the peers the governor considers active, in the same state.\<close>

definition in_sync :: "governor \<Rightarrow> peer_pool \<Rightarrow> bool" where
  "in_sync g pool \<longleftrightarrow>
     (\<forall>i. (hm_get (pp_inner pool) i \<noteq> None) = (i \<in> active_ids g)) \<and>
     (\<forall>i h p. hm_get (pp_inner pool) i = Some h \<longrightarrow> hm_get (peers g) i = Some p \<longrightarrow>
        ph_state h = pi_state p)"

lemma apply_transitions_get:
  "hm_get (pp_inner (foldl (\<lambda>p tr. apply_transition tr p) pool ts)) i =
     map_option (\<lambda>h. h\<lparr>ph_state := follow i ts (ph_state h)\<rparr>) (hm_get (pp_inner pool) i)"
proof (induction ts arbitrary: pool)
  case Nil
  then show ?case by (cases "hm_get (pp_inner pool) i") simp_all
next
  case (Cons tr ts)
  obtain j fr to where tr: "tr = (j, fr, to)" by (cases tr) auto
  have "hm_get (pp_inner (apply_transition tr pool)) i =
      map_option (\<lambda>h. if j = i then h\<lparr>ph_state := enter to (ph_state h)\<rparr> else h) (hm_get (pp_inner pool) i)"
    by (cases "hm_get (pp_inner pool) i")
      (auto simp: tr apply_transition_def pool_upd_def hm_get_simps enter_def)
  with Cons.IH [of "apply_transition tr pool"] show ?case
    by (cases "hm_get (pp_inner pool) i") (simp_all add: tr)
qed

lemma drop_disconnected_fold:
  "foldl drop_disconnected (ds, pool) is = (ds', pool') \<Longrightarrow>
     hm_get (pp_inner pool') i = (if i \<in> set is then None else hm_get (pp_inner pool) i) \<and>
     set ds' = set ds \<union> {i \<in> set is. hm_get (pp_inner pool) i \<noteq> None}"
proof (induction "is" arbitrary: ds pool)
  case (Cons j js)
  let ?ds = "if hm_get (pp_inner pool) j = None then ds else ds @ [j]"
  let ?pool = "pool\<lparr>pp_inner := hm_remove j (pp_inner pool)\<rparr>"
  have "drop_disconnected (ds, pool) j = (?ds, ?pool)"
    by (simp add: drop_disconnected_def pool_remove_def split: option.split)
  with Cons.prems have "foldl drop_disconnected (?ds, ?pool) js = (ds', pool')" by simp
  from Cons.IH [OF this] show ?case by (auto simp: hm_get_simps)
qed simp

text \<open>
  Pool and governor stay in step: if the pool holds exactly the peers that are active for the
  governor, in the same states, then applying the actions of any tick to the pool makes it agree
  with the governor after the tick, and the peers it reports for disconnection are exactly those
  that lost their active state.
\<close>

theorem tick_keeps_pool_in_sync:
  assumes wf: "gov_wf g" and sync: "in_sync g pool" and tick: "tick clk g = (g', a)"
    and run: "apply_governor_actions a pool = (ds, pool')"
  shows "in_sync g' pool' \<and> set ds = active_ids g - active_ids g'"
proof -
  have c: "phase_contract (clk 1) g no_actions g' a" using tick_contract [OF wf, of clk] tick by simp
  then have disc: "set (act_disconnect a) = active_ids g - active_ids g'"
    by (simp add: phase_contract_def no_actions_def)
  note mono = active_mono [OF c]
  let ?pool = "foldl (\<lambda>p tr. apply_transition tr p) pool (act_transitions a)"
  have "foldl drop_disconnected ([], ?pool) (act_disconnect a) = (ds, pool')"
    using run by (simp add: apply_governor_actions_def Let_def)
  from drop_disconnected_fold [OF this] have
    get: "hm_get (pp_inner pool') i = (if i \<in> set (act_disconnect a) then None
        else map_option (\<lambda>h. h\<lparr>ph_state := follow i (act_transitions a) (ph_state h)\<rparr>) (hm_get (pp_inner pool) i))"
    and ds: "set ds = {i \<in> set (act_disconnect a). hm_get (pp_inner pool) i \<noteq> None}" for i
    by (simp_all add: apply_transitions_get)
  have dom: "(hm_get (pp_inner pool) i \<noteq> None) = (i \<in> active_ids g)" for i
    using sync by (simp add: in_sync_def)
  have "set ds = active_ids g - active_ids g'" using disc dom by (auto simp: ds)
  moreover have "(hm_get (pp_inner pool') i \<noteq> None) = (i \<in> active_ids g')" for i
    using disc dom [of i] mono by (auto simp: get)
  moreover have "ph_state h = pi_state p'"
    if h: "hm_get (pp_inner pool') i = Some h" and p': "hm_get (peers g') i = Some p'" for i h p'
  proof -
    from h disc have ni: "i \<notin> active_ids g - active_ids g'" by (auto simp: get split: if_splits)
    from h obtain h0 where h0: "hm_get (pp_inner pool) i = Some h0"
      "ph_state h = follow i (act_transitions a) (ph_state h0)" by (auto simp: get split: if_splits)
    with dom [of i] ni p' have act: "is_active (pi_state p')" by (auto simp: ids_in_def)
    from phase_keeps [OF c p'] obtain p where p: "hm_get (peers g) i = Some p" by blast
    with sync h0(1) have "ph_state h0 = pi_state p" by (simp add: in_sync_def)
    moreover from c obtain ts where "act_transitions a = ts" "pi_state p' = follow i ts (pi_state p)"
      using p p' act by (auto simp: phase_contract_def no_actions_def)
    ultimately show ?thesis using h0(2) by simp
  qed
  ultimately show ?thesis by (simp add: in_sync_def)
qed

definition handle_w :: "nat \<Rightarrow> peer_state \<Rightarrow> bool \<Rightarrow> node_id \<times> peer_handle" where
  "handle_w n s r =
     (PeerId n, \<lparr>ph_node_id = PeerId n, ph_addrs = [], ph_state = s, ph_groups = [''g1''],
      ph_group_intersection = [''g1''], ph_rtt_ms = None, ph_protocol_version = 1, ph_is_relay = r,
      ph_items_delivered = 0\<rparr>)"

definition pool_w :: peer_pool where
  "pool_w = (new_pool [''g1''])\<lparr>pp_inner := [handle_w 1 Warm False, handle_w 2 Hot False, handle_w 3 Warm False]\<rparr>"

theorem tick_keeps_pool_in_sync_witness:
  "in_sync (fst (tick (\<lambda>_. 200000000000) gov_dead_w))
     (snd (apply_governor_actions (snd (tick (\<lambda>_. 200000000000) gov_dead_w)) pool_w))"
proof -
  have "in_sync gov_dead_w pool_w"
    by (auto simp: in_sync_def ids_in_def gov_dead_w_def gov_w_evals pool_w_def handle_w_def
        new_pool_def split: if_splits)
  from tick_keeps_pool_in_sync [OF gov_dead_w_wf this surjective_pairing surjective_pairing]
  show ?thesis by blast
qed

section \<open>Choosing a peer\<close>

lemma pick_in:
  assumes "\<And>n. 0 < n \<Longrightarrow> rng n < n"
  shows "case pick rng xs of None \<Rightarrow> xs = [] | Some x \<Rightarrow> x \<in> set xs"
  using assms [of "length xs"] by (simp add: pick_def)

text \<open>
  The choice of a sync partner for a group: whatever the random index, a peer is found exactly
  when some active peer shares the group or is a relay; the peer found is active; it is hot and
  shares the group if there is such a peer, and it shares the group if any active peer does.
\<close>

theorem random_peer_priority:
  assumes rng: "\<And>n. 0 < n \<Longrightarrow> rng n < n"
  shows "let vs = set (hm_values (pp_inner pool)) in
    case random_hot_peer_for_group_or_relays rng pool g of
      None \<Rightarrow> \<forall>h\<in>vs. is_active (ph_state h) \<longrightarrow> \<not> ph_is_relay h \<and> g \<notin> set (ph_group_intersection h)
    | Some h \<Rightarrow>
        h \<in> vs \<and> is_active (ph_state h) \<and> (ph_is_relay h \<or> g \<in> set (ph_group_intersection h)) \<and>
        ((\<exists>k\<in>vs. is_active (ph_state k) \<and> g \<in> set (ph_group_intersection k)) \<longrightarrow>
           g \<in> set (ph_group_intersection h)) \<and>
        ((\<exists>k\<in>vs. ph_state k = Hot \<and> g \<in> set (ph_group_intersection k)) \<longrightarrow> ph_state h = Hot)"
proof -
  let ?vs = "hm_values (pp_inner pool)"
  let ?p1 = "filter (\<lambda>h. ph_state h = Hot \<and> g \<in> set (ph_group_intersection h)) ?vs"
  let ?p2 = "filter (\<lambda>h. is_active (ph_state h) \<and> g \<in> set (ph_group_intersection h)) ?vs"
  let ?p3 = "filter (\<lambda>h. ph_state h = Hot \<and> ph_is_relay h) ?vs"
  let ?p4 = "filter (\<lambda>h. is_active (ph_state h) \<and> ph_is_relay h) ?vs"
  have run: "random_hot_peer_for_group_or_relays rng pool g =
      pick rng (if ?p1 \<noteq> [] then ?p1 else if ?p2 \<noteq> [] then ?p2 else if ?p3 \<noteq> [] then ?p3 else ?p4)"
    by (simp add: random_hot_peer_for_group_or_relays_def Let_def)
  consider "?p1 \<noteq> []" | "?p1 = []" "?p2 \<noteq> []" | "?p1 = []" "?p2 = []" "?p3 \<noteq> []"
    | "?p1 = []" "?p2 = []" "?p3 = []" by blast
  then show ?thesis
  proof cases
    case 1
    then show ?thesis
      using pick_in [where rng = rng and xs = ?p1, OF rng] run
      by (auto simp: Let_def split: option.splits)
  next
    case 2
    then show ?thesis
      using pick_in [where rng = rng and xs = ?p2, OF rng] run
      by (auto simp: Let_def filter_empty_conv split: option.splits)
  next
    case 3
    then show ?thesis
      using pick_in [where rng = rng and xs = ?p3, OF rng] run
      by (auto simp: Let_def filter_empty_conv split: option.splits)
  next
    case 4
    then show ?thesis
      using pick_in [where rng = rng and xs = ?p4, OF rng] run
      by (auto simp: Let_def filter_empty_conv split: option.splits)
  qed
qed

theorem random_peer_priority_witness:
  "\<exists>h. random_hot_peer_for_group_or_relays (\<lambda>n. 0) pool_w ''g1'' = Some h \<and> ph_state h = Hot"
proof -
  have "random_hot_peer_for_group_or_relays (\<lambda>n. 0) pool_w ''g1'' \<noteq> None"
    by (simp add: random_hot_peer_for_group_or_relays_def pick_def pool_w_def handle_w_def hm_values_def)
  moreover have "\<exists>k\<in>set (hm_values (pp_inner pool_w)). ph_state k = Hot \<and> ''g1'' \<in> set (ph_group_intersection k)"
    by (simp add: pool_w_def handle_w_def hm_values_def)
  ultimately show ?thesis
    using random_peer_priority [of "\<lambda>n. 0" pool_w "''g1''"] by (auto simp: Let_def split: option.splits)
qed

end
