(* ===== verification/Config.thy ===== *)
theory Config
  imports Protocol
begin

text \<open>
  \<^verbatim>\<open>crates/cordelia-node/src/config.rs\<close>: node roles, relay postures and their textual
  form, the configuration record with its defaults, and the role-dependent caps on the
  governor's targets. The TOML parser is a library: a configuration enters the model as a
  value of \<open>node_config\<close>.
\<close>

section \<open>Lower-casing\<close>

text \<open>
  \<open>str::to_lowercase\<close> on UTF-8 bytes: ASCII letters, and the Kelvin sign (the bytes E2 84
  AA), the one character outside ASCII whose lower-case form is an ASCII letter alone. Other
  characters outside ASCII have a lower-case form that is not pure ASCII, so whether the result
  is one of the ASCII keywords below does not depend on it; they are left as they are.
\<close>

definition ascii_lower :: "char \<Rightarrow> char" where
  "ascii_lower c =
     (let n = (of_char c :: nat) in if 65 \<le> n \<and> n \<le> 90 then char_of (n + 32) else c)"

fun to_lowercase :: "string \<Rightarrow> string" where
  "to_lowercase (a # b # c # s) =
     (if a = CHR 0xE2 \<and> b = CHR 0x84 \<and> c = CHR 0xAA
      then CHR ''k'' # to_lowercase s
      else ascii_lower a # to_lowercase (b # c # s))"
| "to_lowercase (a # s) = ascii_lower a # to_lowercase s"
| "to_lowercase [] = []"

section \<open>Node roles\<close>

datatype node_role = Relay | Personal | Keeper

fun role_as_str :: "node_role \<Rightarrow> string" where
  "role_as_str Relay = ''relay''"
| "role_as_str Personal = ''personal''"
| "role_as_str Keeper = ''keeper''"

definition role_from_str :: "string \<Rightarrow> string + node_role" where
  "role_from_str s =
     (let l = to_lowercase s in
      if l = ''relay'' then Ok Relay
      else if l = ''personal'' then Ok Personal
      else if l = ''keeper'' then Ok Keeper
      else Err (''unknown node role: '' @ l))"

section \<open>Relay postures\<close>

datatype relay_posture = Transparent | Dynamic | Explicit

fun posture_fmt :: "relay_posture \<Rightarrow> string" where
  "posture_fmt Transparent = ''transparent''"
| "posture_fmt Dynamic = ''dynamic''"
| "posture_fmt Explicit = ''explicit''"

definition posture_from_str :: "string \<Rightarrow> string + relay_posture" where
  "posture_from_str s =
     (let l = to_lowercase s in
      if l = ''transparent'' then Ok Transparent
      else if l = ''dynamic'' then Ok Dynamic
      else if l = ''explicit'' then Ok Explicit
      else Err (''unknown relay posture: '' @ l))"

section \<open>Configuration\<close>

record relay_section =
  rs_posture :: string
  rs_allowed_groups :: "string list"
  rs_blocked_groups :: "string list"

definition default_relay_section :: relay_section where
  "default_relay_section =
     \<lparr>rs_posture = ''dynamic'', rs_allowed_groups = [], rs_blocked_groups = []\<rparr>"

record node_section =
  ns_identity_key :: string
  ns_api_transport :: string
  ns_api_socket :: "string option"
  ns_api_addr :: "string option"
  ns_database :: string
  ns_entity_id :: string
  ns_role :: string
  ns_groups :: "string list"

text \<open>\<open>BootnodeEntry\<close> has one field, its address.\<close>

record network_section =
  nw_listen_addr :: string
  nw_bootnodes :: "string list"
  nw_trusted_relays :: "string list"
  nw_external_addr :: "string option"

record governor_section =
  gs_hot_min :: nat
  gs_hot_max :: nat
  gs_warm_min :: nat
  gs_warm_max :: nat
  gs_cold_max :: nat
  gs_churn_interval_secs :: u64
  gs_churn_fraction :: rat

definition default_governor_section :: governor_section where
  "default_governor_section =
     \<lparr>gs_hot_min = 2, gs_hot_max = 20, gs_warm_min = 10, gs_warm_max = 50, gs_cold_max = 100,
      gs_churn_interval_secs = 3600, gs_churn_fraction = 1 / 5\<rparr>"

record replication_section =
  rp_sync_interval_moderate_secs :: u64
  rp_sync_interval_taciturn_secs :: u64
  rp_tombstone_retention_days :: u32
  rp_max_batch_size :: u32

definition default_replication_section :: replication_section where
  "default_replication_section =
     \<lparr>rp_sync_interval_moderate_secs = 300,
      rp_sync_interval_taciturn_secs = SYNC_INTERVAL_TACITURN_SECS,
      rp_tombstone_retention_days = TOMBSTONE_RETENTION_DAYS,
      rp_max_batch_size = MAX_BATCH_SIZE\<rparr>"

record node_config =
  cfg_node :: node_section
  cfg_network :: network_section
  cfg_governor :: governor_section
  cfg_replication :: replication_section
  cfg_relay :: "relay_section option"

text \<open>
  \<open>NodeConfig::default\<close>. The network section is the derived \<open>Default\<close>, whose
  listen address is the empty string: the serde default \<open>0.0.0.0:9474\<close> applies only when a
  file is parsed.
\<close>

definition default_node_config :: node_config where
  "default_node_config =
     \<lparr>cfg_node =
        \<lparr>ns_identity_key = ''~/.cordelia/node.key'', ns_api_transport = ''unix'',
         ns_api_socket = Some ''~/.cordelia/node.sock'', ns_api_addr = None,
         ns_database = ''~/cordelia/memory/cordelia.db'', ns_entity_id = ''default'',
         ns_role = ''personal'', ns_groups = []\<rparr>,
      cfg_network =
        \<lparr>nw_listen_addr = '''', nw_bootnodes = [], nw_trusted_relays = [],
         nw_external_addr = None\<rparr>,
      cfg_governor = default_governor_section,
      cfg_replication = default_replication_section,
      cfg_relay = None\<rparr>"

definition config_role :: "node_config \<Rightarrow> node_role" where
  "config_role cfg = result_or (role_from_str (ns_role (cfg_node cfg))) Personal"

definition config_relay_posture :: "node_config \<Rightarrow> relay_posture" where
  "config_relay_posture cfg =
     (if config_role cfg \<noteq> Relay then Dynamic
      else case cfg_relay cfg of
             Some r \<Rightarrow> result_or (posture_from_str (rs_posture r)) Dynamic
           | None \<Rightarrow> Dynamic)"

definition relay_allowed_groups :: "node_config \<Rightarrow> string set" where
  "relay_allowed_groups cfg =
     (case cfg_relay cfg of Some r \<Rightarrow> set (rs_allowed_groups r) | None \<Rightarrow> {})"

definition relay_blocked_groups :: "node_config \<Rightarrow> string set" where
  "relay_blocked_groups cfg =
     (case cfg_relay cfg of Some r \<Rightarrow> set (rs_blocked_groups r) | None \<Rightarrow> {})"

definition effective_governor_targets :: "node_config \<Rightarrow> governor_section" where
  "effective_governor_targets cfg =
     (let g = cfg_governor cfg in
      case config_role cfg of
        Personal \<Rightarrow>
          g\<lparr>gs_hot_min := min (gs_hot_min g) 2, gs_hot_max := min (gs_hot_max g) 5,
            gs_warm_min := min (gs_warm_min g) 5, gs_warm_max := min (gs_warm_max g) 10\<rparr>
      | Keeper \<Rightarrow>
          g\<lparr>gs_hot_min := min (gs_hot_min g) 1, gs_hot_max := min (gs_hot_max g) 3,
            gs_warm_min := min (gs_warm_min g) 2, gs_warm_max := min (gs_warm_max g) 5\<rparr>
      | Relay \<Rightarrow> g)"

section \<open>Properties\<close>

lemma role_round_trip: "role_from_str (role_as_str r) = Ok r"
  by (cases r) (simp_all add: role_from_str_def ascii_lower_def Let_def)

lemma posture_round_trip: "posture_from_str (posture_fmt p) = Ok p"
  by (cases p) (simp_all add: posture_from_str_def ascii_lower_def Let_def)

end
