(* ===== verification/Swarm.thy ===== *)
theory Swarm
  imports Descriptors Peer_Pool Config "HOL-Library.Multiset"
begin

text \<open>
  The network task (\<^verbatim>\<open>cordelia-node/src/swarm_task.rs\<close>): the commands it takes from the other
  tasks, the events of the network it handles, and the requests of peers it serves. One turn of
  the loop is \<open>swarm_step\<close>; what it sends, answers and reports is its list of outputs.

  The groups shared between the tasks are \<open>pp_our_groups\<close> of the pool. The groups a relay accepts
  are the learned groups of the pool for a dynamic relay, which shares that set with the
  governor, and the configured ones for an explicit relay. libp2p is the environment: it chooses
  the ids of outbound requests and delivers the events; rendering a peer id or an address is a
  parameter. A \<open>try_read\<close> of the accepted groups fails when the lock is held, so an event carries
  whether the lock was free. An event also carries the database clock.
\<close>

section \<open>Inbound requests\<close>

definition handle_sync_request :: "db \<Rightarrow> sync_request \<Rightarrow> sync_response" where
  "handle_sync_request d req =
     (let items = result_or (list_group_items d (sr_group_id req) (sr_since req) (sr_limit req)) []
      in \<lparr>srs_items =
            map (\<lambda>h. \<lparr>ih_item_id = ih_item_id h, ih_item_type = ih_item_type h,
                      ih_checksum = ih_checksum h, ih_updated_at = ih_updated_at h,
                      ih_author_id = ih_author_id h, ih_is_deletion = ih_is_deletion h\<rparr>) items,
          srs_has_more = (length items = unat (sr_limit req))\<rparr>)"

definition handle_fetch_request :: "db \<Rightarrow> fetch_request \<Rightarrow> fetch_response" where
  "handle_fetch_request d req =
     \<lparr>frs_items =
        concat (map (\<lambda>i. case read_l2_item d i of Ok (Some row) \<Rightarrow> [item_of_row row] | _ \<Rightarrow> [])
          (fr_item_ids req))\<rparr>"

definition push_item ::
  "crypto_lib \<Rightarrow> string \<Rightarrow> string list \<Rightarrow> (string \<Rightarrow> bool) option \<Rightarrow>
     push_ack \<times> db \<Rightarrow> fetched_item \<Rightarrow> push_ack \<times> db" where
  "push_item L now groups relay_accepts ad item =
     (case ad of (ack, d) \<Rightarrow>
       case on_receive L \<lparr>en_config = default_replication_config, en_entity_id = []\<rparr> (sqlite_store L now)
              d item groups relay_accepts of
         (Stored, d') \<Rightarrow> (ack\<lparr>ack_stored := ack_stored ack + 1\<rparr>, d')
       | (Duplicate, d') \<Rightarrow> (ack, d')
       | (Rejected _, d') \<Rightarrow> (ack\<lparr>ack_rejected := ack_rejected ack + 1\<rparr>, d'))"

definition handle_push_request ::
  "crypto_lib \<Rightarrow> string \<Rightarrow> db \<Rightarrow> memory_push_request \<Rightarrow> string list \<Rightarrow> (string \<Rightarrow> bool) option \<Rightarrow>
     push_ack \<times> db" where
  "handle_push_request L now d req groups relay_accepts =
     foldl (push_item L now groups relay_accepts) (\<lparr>ack_stored = 0, ack_rejected = 0\<rparr>, d)
       (mp_items req)"

section \<open>State, commands and events\<close>

record swarm_env =
  se_lib :: crypto_lib
  se_identity :: node_identity
  se_entity_id :: string
  se_role :: node_role
  se_posture :: "relay_posture option"
  se_allowed :: "string list"
  se_blocked :: "string list"
  se_peer_string :: "node_id \<Rightarrow> string"
  se_addr_string :: "multiaddr \<Rightarrow> string"

type_synonym request_id = nat
type_synonym channel = nat

record swarm_state =
  sw_db :: db
  sw_pool :: peer_pool
  sw_pending_peer_share :: "(request_id, channel) hashmap"
  sw_pending_sync :: "(request_id, channel) hashmap"
  sw_pending_fetch :: "(request_id, channel) hashmap"
  sw_pending_group_exchange :: "(request_id, channel) hashmap"

datatype swarm_command =
    Dial multiaddr
  | Disconnect node_id
  | SendPeerShareRequest node_id u16 channel
  | SendSyncRequest node_id sync_request channel
  | SendFetchRequest node_id fetch_request channel
  | SendMemoryPush node_id memory_push_request
  | SendGroupExchange node_id group_exchange channel

datatype swarm_event2 =
    PeerConnected node_id "multiaddr list"
  | PeerDisconnected node_id
  | PingRtt node_id rat
  | IdentifyReceived node_id "multiaddr list" multiaddr string
  | ExternalAddrConfirmed multiaddr
  | DialFailure "node_id option"

datatype swarm_reply =
    PeerShareReply "string + peer_address list"
  | SyncReply "string + sync_response"
  | FetchReply "string + fetch_response"
  | GroupExchangeReply "string + group_exchange"

datatype behaviour_event =
    PingOk node_id duration
  | IdentifyInfo node_id "multiaddr list" multiaddr string
  | PeerShareResponseIn request_id "peer_address list"
  | PeerShareFailed request_id string
  | SyncRequestIn sync_request
  | SyncResponseIn request_id sync_response
  | SyncFailed request_id string
  | FetchRequestIn fetch_request
  | FetchResponseIn request_id fetch_response
  | FetchFailed request_id string
  | PushAckIn push_ack
  | GroupExchangeRequestIn node_id group_exchange
  | GroupExchangeResponseIn request_id group_exchange
  | GroupExchangeFailed request_id string
  | OtherBehaviourEvent

datatype swarm_event =
    ConnectionEstablished node_id multiaddr nat
  | ConnectionClosed node_id nat
  | OutgoingConnectionError "node_id option"
  | ExternalAddr multiaddr
  | PeerShareRequestIn u16
  | PushRequestIn node_id memory_push_request bool string
  | Behaviour behaviour_event bool string
  | OtherSwarmEvent

datatype swarm_out =
    DialOut multiaddr
  | DisconnectOut node_id
  | PeerShareOut node_id u16
  | SyncOut node_id sync_request
  | FetchOut node_id fetch_request
  | PushOut node_id memory_push_request
  | GroupExchangeOut node_id group_exchange
  | PeerShareAnswer "peer_address list"
  | SyncAnswer sync_response
  | FetchAnswer fetch_response
  | PushAnswer push_ack
  | GroupExchangeAnswer group_exchange
  | Complete channel swarm_reply
  | Emit swarm_event2

section \<open>Commands\<close>

text \<open>The id libp2p gives the request is the argument \<open>req_id\<close>.\<close>

definition handle_command ::
  "swarm_env \<Rightarrow> swarm_state \<Rightarrow> request_id \<Rightarrow> swarm_command \<Rightarrow> swarm_state \<times> swarm_out list" where
  "handle_command env st req_id cmd =
     (case cmd of
        Dial addr \<Rightarrow> (st, [DialOut addr])
      | Disconnect i \<Rightarrow> (st, [DisconnectOut i])
      | SendPeerShareRequest peer max_peers tx \<Rightarrow>
          (st\<lparr>sw_pending_peer_share := hm_insert req_id tx (sw_pending_peer_share st)\<rparr>,
           [PeerShareOut peer max_peers])
      | SendSyncRequest peer request tx \<Rightarrow>
          (st\<lparr>sw_pending_sync := hm_insert req_id tx (sw_pending_sync st)\<rparr>, [SyncOut peer request])
      | SendFetchRequest peer request tx \<Rightarrow>
          (st\<lparr>sw_pending_fetch := hm_insert req_id tx (sw_pending_fetch st)\<rparr>, [FetchOut peer request])
      | SendMemoryPush peer request \<Rightarrow> (st, [PushOut peer request])
      | SendGroupExchange peer request tx \<Rightarrow>
          (case (if ge_descriptors request = None
                 then build_descriptors (se_lib env) (se_identity env) (se_entity_id env) (sw_db st)
                 else (ge_descriptors request, sw_db st)) of
             (descs, d) \<Rightarrow>
               (st\<lparr>sw_db := d,
                  sw_pending_group_exchange := hm_insert req_id tx (sw_pending_group_exchange st)\<rparr>,
                [GroupExchangeOut peer (request\<lparr>ge_descriptors := descs\<rparr>)])))"

section \<open>Events\<close>

definition relay_accepted_groups :: "swarm_env \<Rightarrow> swarm_state \<Rightarrow> string list option" where
  "relay_accepted_groups env st =
     (case se_posture env of
        Some Dynamic \<Rightarrow> pp_relay_learned_groups (sw_pool st)
      | Some Explicit \<Rightarrow> Some (se_allowed env)
      | _ \<Rightarrow> None)"

definition accepted_snap :: "swarm_env \<Rightarrow> swarm_state \<Rightarrow> bool \<Rightarrow> string list option" where
  "accepted_snap env st lock_free =
     (if se_posture env = Some Dynamic \<or> se_posture env = Some Explicit
      then map_option (\<lambda>a. if lock_free then a else []) (relay_accepted_groups env st)
      else None)"

definition relay_check :: "swarm_env \<Rightarrow> swarm_state \<Rightarrow> bool \<Rightarrow> (string \<Rightarrow> bool) option" where
  "relay_check env st lock_free =
     (if se_posture env = None then None
      else Some (\<lambda>gid.
        if gid \<in> set (se_blocked env) then False
        else if se_posture env = Some Transparent then True
        else case accepted_snap env st lock_free of Some s \<Rightarrow> gid \<in> set s | None \<Rightarrow> False))"

definition forward_peers :: "peer_pool \<Rightarrow> node_id \<Rightarrow> peer_handle list" where
  "forward_peers pool sender = filter (\<lambda>h. ph_node_id h \<noteq> sender) (active_peers pool)"

definition handle_push_event ::
  "swarm_env \<Rightarrow> swarm_state \<Rightarrow> node_id \<Rightarrow> memory_push_request \<Rightarrow> bool \<Rightarrow> string \<Rightarrow>
     swarm_state \<times> swarm_out list" where
  "handle_push_event env st sender request lock_free now =
     (case handle_push_request (se_lib env) now (sw_db st) request (pp_our_groups (sw_pool st))
             (relay_check env st lock_free) of
        (ack, d) \<Rightarrow>
          (st\<lparr>sw_db := d\<rparr>,
           PushAnswer ack #
           (if se_posture env \<noteq> None \<and> 0 < ack_stored ack
            then map (\<lambda>h. PushOut (ph_node_id h) \<lparr>mp_items = mp_items request\<rparr>)
                   (forward_peers (sw_pool st) sender)
            else [])))"

definition handle_peer_share_request :: "swarm_env \<Rightarrow> peer_pool \<Rightarrow> u16 \<Rightarrow> peer_address list" where
  "handle_peer_share_request env pool max_peers =
     map (\<lambda>h. \<lparr>pa_peer_id = se_peer_string env (ph_node_id h),
              pa_addrs = map (se_addr_string env) (ph_addrs h), pa_last_seen = 0,
              pa_groups = ph_groups h,
              pa_role = (if ph_is_relay h then ''relay'' else role_as_str (se_role env))\<rparr>)
       (take (unat max_peers) (relay_peers pool))"

definition advertised_groups :: "swarm_env \<Rightarrow> swarm_state \<Rightarrow> bool \<Rightarrow> string list" where
  "advertised_groups env st lock_free =
     (case relay_accepted_groups env st of
        Some s \<Rightarrow>
          if lock_free
          then foldl (\<lambda>gs g. if g \<in> set gs then gs else gs @ [g]) (pp_our_groups (sw_pool st)) s
          else pp_our_groups (sw_pool st)
      | None \<Rightarrow> pp_our_groups (sw_pool st))"

definition merge_incoming ::
  "crypto_lib \<Rightarrow> string \<Rightarrow> db \<Rightarrow> group_descriptor list option \<Rightarrow> merge_result \<times> db" where
  "merge_incoming L now d descs =
     (case descs of
        Some ds \<Rightarrow> merge_descriptors L now d ds
      | None \<Rightarrow> (\<lparr>mr_upserted = [], mr_tombstoned = []\<rparr>, d))"

text \<open>A response or failure completes the channel that waits under its request id, if any.\<close>

definition settle ::
  "(request_id, channel) hashmap \<Rightarrow> request_id \<Rightarrow> swarm_reply \<Rightarrow>
     (request_id, channel) hashmap \<times> swarm_out list" where
  "settle pending rid reply =
     (case hm_get pending rid of
        Some tx \<Rightarrow> (hm_remove rid pending, [Complete tx reply])
      | None \<Rightarrow> (pending, []))"

definition no_merge :: merge_result where
  "no_merge = \<lparr>mr_upserted = [], mr_tombstoned = []\<rparr>"

definition settle_peer_share ::
  "swarm_state \<Rightarrow> request_id \<Rightarrow> string + peer_address list \<Rightarrow> merge_result \<times> swarm_state \<times> swarm_out list" where
  "settle_peer_share st rid r =
     (case settle (sw_pending_peer_share st) rid (PeerShareReply r) of
        (p, out) \<Rightarrow> (no_merge, st\<lparr>sw_pending_peer_share := p\<rparr>, out))"

definition settle_sync ::
  "swarm_state \<Rightarrow> request_id \<Rightarrow> string + sync_response \<Rightarrow> merge_result \<times> swarm_state \<times> swarm_out list" where
  "settle_sync st rid r =
     (case settle (sw_pending_sync st) rid (SyncReply r) of
        (p, out) \<Rightarrow> (no_merge, st\<lparr>sw_pending_sync := p\<rparr>, out))"

definition settle_fetch ::
  "swarm_state \<Rightarrow> request_id \<Rightarrow> string + fetch_response \<Rightarrow> merge_result \<times> swarm_state \<times> swarm_out list" where
  "settle_fetch st rid r =
     (case settle (sw_pending_fetch st) rid (FetchReply r) of
        (p, out) \<Rightarrow> (no_merge, st\<lparr>sw_pending_fetch := p\<rparr>, out))"

definition handle_group_exchange_request ::
  "swarm_env \<Rightarrow> swarm_state \<Rightarrow> string list \<Rightarrow> string \<Rightarrow> group_exchange \<Rightarrow>
     merge_result \<times> swarm_state \<times> swarm_out list" where
  "handle_group_exchange_request env st groups now request =
     (case merge_incoming (se_lib env) now (sw_db st) (ge_descriptors request) of
        (r, d1) \<Rightarrow>
          case build_descriptors (se_lib env) (se_identity env) (se_entity_id env) d1 of
            (descs, d2) \<Rightarrow>
              (r, st\<lparr>sw_db := d2\<rparr>,
               [GroupExchangeAnswer \<lparr>ge_groups = groups, ge_descriptors = descs\<rparr>]))"

definition handle_group_exchange_response ::
  "swarm_env \<Rightarrow> swarm_state \<Rightarrow> string \<Rightarrow> request_id \<Rightarrow> group_exchange \<Rightarrow>
     merge_result \<times> swarm_state \<times> swarm_out list" where
  "handle_group_exchange_response env st now rid response =
     (case merge_incoming (se_lib env) now (sw_db st) (ge_descriptors response) of
        (r, d1) \<Rightarrow>
          case settle (sw_pending_group_exchange st) rid (GroupExchangeReply (Ok response)) of
            (p, out) \<Rightarrow> (r, st\<lparr>sw_db := d1, sw_pending_group_exchange := p\<rparr>, out))"

definition handle_behaviour_event ::
  "swarm_env \<Rightarrow> swarm_state \<Rightarrow> string list \<Rightarrow> string \<Rightarrow> behaviour_event \<Rightarrow>
     merge_result \<times> swarm_state \<times> swarm_out list" where
  "handle_behaviour_event env st groups now ev =
     (case ev of
        PingOk peer rtt \<Rightarrow> (no_merge, st, [Emit (PingRtt peer (of_nat rtt / 10 ^ 6))])
      | IdentifyInfo peer addrs observed agent \<Rightarrow>
          (no_merge, st, [Emit (IdentifyReceived peer addrs observed agent)])
      | PeerShareResponseIn rid response \<Rightarrow> settle_peer_share st rid (Ok response)
      | PeerShareFailed rid error \<Rightarrow> settle_peer_share st rid (Err error)
      | SyncRequestIn request \<Rightarrow> (no_merge, st, [SyncAnswer (handle_sync_request (sw_db st) request)])
      | SyncResponseIn rid response \<Rightarrow> settle_sync st rid (Ok response)
      | SyncFailed rid error \<Rightarrow> settle_sync st rid (Err error)
      | FetchRequestIn request \<Rightarrow> (no_merge, st, [FetchAnswer (handle_fetch_request (sw_db st) request)])
      | FetchResponseIn rid response \<Rightarrow> settle_fetch st rid (Ok response)
      | FetchFailed rid error \<Rightarrow> settle_fetch st rid (Err error)
      | PushAckIn _ \<Rightarrow> (no_merge, st, [])
      | GroupExchangeRequestIn peer request \<Rightarrow>
          handle_group_exchange_request env st groups now request
      | GroupExchangeResponseIn rid response \<Rightarrow> handle_group_exchange_response env st now rid response
      | GroupExchangeFailed rid error \<Rightarrow>
          (case settle (sw_pending_group_exchange st) rid (GroupExchangeReply (Err error)) of
             (p, out) \<Rightarrow> (no_merge, st\<lparr>sw_pending_group_exchange := p\<rparr>, out))
      | OtherBehaviourEvent \<Rightarrow> (no_merge, st, []))"

definition drop_shared_groups :: "string list \<Rightarrow> swarm_state \<Rightarrow> swarm_state" where
  "drop_shared_groups gids st =
     st\<lparr>sw_pool := (sw_pool st)\<lparr>pp_our_groups :=
          foldl (\<lambda>groups gid. filter (\<lambda>g. g \<noteq> gid) groups) (pp_our_groups (sw_pool st)) gids\<rparr>\<rparr>"

definition handle_event :: "swarm_env \<Rightarrow> swarm_state \<Rightarrow> swarm_event \<Rightarrow> swarm_state \<times> swarm_out list" where
  "handle_event env st ev =
     (case ev of
        ConnectionEstablished peer addr conns \<Rightarrow>
          (st, if conns = 1 then [Emit (PeerConnected peer [addr])] else [])
      | ConnectionClosed peer num_established \<Rightarrow>
          (st, if num_established = 0 then [Emit (PeerDisconnected peer)] else [])
      | OutgoingConnectionError peer \<Rightarrow> (st, [Emit (DialFailure peer)])
      | ExternalAddr addr \<Rightarrow> (st, [Emit (ExternalAddrConfirmed addr)])
      | PeerShareRequestIn max_peers \<Rightarrow>
          (st, [PeerShareAnswer (handle_peer_share_request env (sw_pool st) max_peers)])
      | PushRequestIn peer request lock_free now \<Rightarrow> handle_push_event env st peer request lock_free now
      | Behaviour bev lock_free now \<Rightarrow>
          (case handle_behaviour_event env st (advertised_groups env st lock_free) now bev of
             (r, st', out) \<Rightarrow> (drop_shared_groups (mr_tombstoned r) st', out))
      | OtherSwarmEvent \<Rightarrow> (st, []))"

datatype swarm_input = Command request_id swarm_command | Event swarm_event

definition swarm_step :: "swarm_env \<Rightarrow> swarm_state \<Rightarrow> swarm_input \<Rightarrow> swarm_state \<times> swarm_out list" where
  "swarm_step env st inp =
     (case inp of
        Command req_id cmd \<Rightarrow> handle_command env st req_id cmd
      | Event ev \<Rightarrow> handle_event env st ev)"

fun run_swarm_loop :: "swarm_env \<Rightarrow> swarm_state \<Rightarrow> swarm_input list \<Rightarrow> swarm_state \<times> swarm_out list" where
  "run_swarm_loop env st [] = (st, [])"
| "run_swarm_loop env st (inp # inps) =
     (case swarm_step env st inp of
        (st1, out1) \<Rightarrow>
          case run_swarm_loop env st1 inps of (st2, out2) \<Rightarrow> (st2, out1 @ out2))"

end
