(* ===== verification/Replication_Task.thy ===== *)
theory Replication_Task
  imports Swarm
begin

text \<open>
  The replication task (\<^verbatim>\<open>cordelia-node/src/replication_task.rs\<close>): local writes are buffered,
  flushed as batches to the peers of their group, retried with growing delays, and complemented
  by anti-entropy rounds per group. One turn of the loop is \<open>repl_step\<close> on the event the
  \<open>select!\<close> picks; its outputs are the commands sent to the network task.

  The parser of the culture JSON is a parameter of the environment. A round waits for the replies
  of a peer: an event carries the network as the replies it gives and, for each wait, what the other
  tasks do to the database meanwhile. The order of an association list stands for the iteration
  order of a \<open>HashMap\<close>. Instants read within one event are functions of the group they are
  read for.
\<close>

section \<open>State\<close>

record write_notification =
  wn_item_id :: string
  wn_item_type :: string
  wn_group_id :: "string option"
  wn_data :: bytes
  wn_key_version :: u32
  wn_parent_id :: "string option"
  wn_is_copy :: bool

record replication_stats =
  st_items_pushed :: u64
  st_items_synced :: u64
  st_items_rejected :: u64
  st_items_duplicate :: u64
  st_push_retries_exhausted :: u64
  st_sync_rounds :: u64
  st_sync_rounds_with_diff :: u64
  st_sync_errors :: u64
  st_write_buffer_depth :: u64
  st_pending_push_count :: u64

definition new_stats :: replication_stats where
  "new_stats =
     \<lparr>st_items_pushed = 0, st_items_synced = 0, st_items_rejected = 0, st_items_duplicate = 0,
      st_push_retries_exhausted = 0, st_sync_rounds = 0, st_sync_rounds_with_diff = 0,
      st_sync_errors = 0, st_write_buffer_depth = 0, st_pending_push_count = 0\<rparr>"

record pending_push =
  pp_items :: "fetched_item list"
  pp_group_id :: string
  pp_attempt :: nat
  pp_next_at :: instant

record repl_env =
  re_lib :: crypto_lib
  re_engine :: replication_engine
  re_is_relay :: bool
  re_blocked :: "string list"
  re_parse_culture :: "string \<Rightarrow> group_culture option"

record repl_state =
  rt_db :: db
  rt_pool :: peer_pool
  rt_stats :: replication_stats
  rt_pending_pushes :: "pending_push list"
  rt_next_sync_at :: "(string, instant) hashmap"
  rt_last_sync_at :: "(string, string) hashmap"
  rt_sync_cycle_count :: "(string, u32) hashmap"
  rt_write_buffer :: "(string, fetched_item list) hashmap"

definition FULL_SYNC_EVERY :: u32 where
  "FULL_SYNC_EVERY = 10"

section \<open>Cultures and batches\<close>

definition load_group_culture :: "repl_env \<Rightarrow> db \<Rightarrow> string \<Rightarrow> group_culture option" where
  "load_group_culture env d g =
     (case read_group d g of
        Ok (Some row) \<Rightarrow>
          (case re_parse_culture env (gr_culture row) of
             Some culture \<Rightarrow> Some culture
           | None \<Rightarrow> Some (default_group_culture\<lparr>gc_broadcast_eagerness := gr_culture row\<rparr>))
      | Ok None \<Rightarrow> None
      | Err _ \<Rightarrow> None)"

definition item_size :: "fetched_item \<Rightarrow> nat" where
  "item_size item = length (fi_encrypted_blob item) + length (fi_item_id item) + 256"

fun split_loop ::
  "fetched_item list list \<Rightarrow> fetched_item list \<Rightarrow> nat \<Rightarrow> fetched_item list \<Rightarrow> fetched_item list list" where
  "split_loop batches current_batch current_size [] =
     (if current_batch \<noteq> [] then batches @ [current_batch] else batches)"
| "split_loop batches current_batch current_size (item # items) =
     (if current_batch \<noteq> [] \<and> MAX_MESSAGE_BYTES < current_size + item_size item
      then split_loop (batches @ [current_batch]) [item] (item_size item) items
      else split_loop batches (current_batch @ [item]) (current_size + item_size item) items)"

definition split_into_batches :: "fetched_item list \<Rightarrow> fetched_item list list" where
  "split_into_batches items = split_loop [] [] 0 items"

section \<open>Pushes\<close>

definition on_write_notification ::
  "repl_env \<Rightarrow> string \<Rightarrow> repl_state \<Rightarrow> write_notification \<Rightarrow> repl_state" where
  "on_write_notification env rfc3339_now st notif =
     (case wn_group_id notif of
        None \<Rightarrow> st
      | Some g \<Rightarrow>
          let culture = unwrap_or (load_group_culture env (rt_db st) g) default_group_culture
          in case on_local_write (re_lib env) rfc3339_now (re_engine env) g culture (wn_item_id notif)
                    (wn_item_type notif) (wn_data notif) (wn_key_version notif) (wn_parent_id notif)
                    (wn_is_copy notif) of
               BroadcastItem g' item \<Rightarrow>
                 st\<lparr>rt_write_buffer :=
                     hm_insert g' (unwrap_or (hm_get (rt_write_buffer st) g') [] @ [item])
                       (rt_write_buffer st)\<rparr>
             | NoAction \<Rightarrow> st)"

text \<open>
  Sending every batch to every peer. A send fails only when the network task has gone, so the
  argument \<open>up\<close> says whether it is there.
\<close>

definition send_push ::
  "bool \<Rightarrow> swarm_command list \<times> peer_pool \<Rightarrow> fetched_item list \<times> peer_handle \<Rightarrow> swarm_command list \<times> peer_pool" where
  "send_push up cp bh =
     (case cp of (cmds, pool) \<Rightarrow> case bh of (batch, peer) \<Rightarrow>
       if up
       then (cmds @ [SendMemoryPush (ph_node_id peer) \<lparr>mp_items = batch\<rparr>],
             record_items_delivered (ph_node_id peer) (of_nat (length batch)) pool)
       else (cmds, pool))"

definition push_batches ::
  "bool \<Rightarrow> fetched_item list list \<Rightarrow> peer_handle list \<Rightarrow> peer_pool \<Rightarrow> swarm_command list \<times> peer_pool" where
  "push_batches up batches handles pool = foldl (send_push up) ([], pool) (List.product batches handles)"

definition flush_group ::
  "bool \<Rightarrow> (string \<Rightarrow> instant) \<Rightarrow> repl_state \<times> swarm_command list \<Rightarrow> string \<times> fetched_item list \<Rightarrow>
     repl_state \<times> swarm_command list" where
  "flush_group up clk so gi =
     (case so of (st, out) \<Rightarrow> case gi of (g, items) \<Rightarrow>
       if items = [] then (st, out)
       else
         let peers = active_peers_for_group_or_relays (rt_pool st) g;
             retry = \<lparr>pp_items = items, pp_group_id = g, pp_attempt = 0,
                      pp_next_at = clk g + from_secs (push_retry_backoffs CURRENT_ERA ! 0)\<rparr>
         in if peers = []
            then (st\<lparr>rt_pending_pushes := rt_pending_pushes st @ [retry]\<rparr>, out)
            else
              case push_batches up (split_into_batches items) peers (rt_pool st) of
                (cmds, pool) \<Rightarrow>
                  (st\<lparr>rt_pool := pool,
                     rt_stats := (rt_stats st)\<lparr>st_items_pushed :=
                       st_items_pushed (rt_stats st) + of_nat (length items)\<rparr>,
                     rt_pending_pushes := rt_pending_pushes st @ [retry]\<rparr>,
                   out @ cmds))"

definition flush :: "bool \<Rightarrow> (string \<Rightarrow> instant) \<Rightarrow> repl_state \<Rightarrow> repl_state \<times> swarm_command list" where
  "flush up clk st =
     foldl (flush_group up clk) (st\<lparr>rt_write_buffer := []\<rparr>, []) (rt_write_buffer st)"

text \<open>
  A due push is sent once more; indexing the table of delays beyond its end would panic, which is
  \<open>None\<close>.
\<close>

definition retry_push ::
  "bool \<Rightarrow> instant \<Rightarrow> repl_state \<times> swarm_command list \<Rightarrow> pending_push \<Rightarrow>
     (repl_state \<times> swarm_command list) option" where
  "retry_push up now so p =
     (case so of (st, out) \<Rightarrow>
       if now < pp_next_at p
       then Some (st\<lparr>rt_pending_pushes := rt_pending_pushes st @ [p]\<rparr>, out)
       else
         case (let peers = active_peers_for_group_or_relays (rt_pool st) (pp_group_id p)
               in if peers \<noteq> []
                  then push_batches up (split_into_batches (pp_items p)) peers (rt_pool st)
                  else ([], rt_pool st)) of
           (cmds, pool) \<Rightarrow>
             let attempt = pp_attempt p + 1
             in if unat (push_retry_count CURRENT_ERA) \<le> attempt
                then Some (st\<lparr>rt_pool := pool,
                             rt_stats := (rt_stats st)\<lparr>st_push_retries_exhausted :=
                               st_push_retries_exhausted (rt_stats st) + 1\<rparr>\<rparr>, out @ cmds)
                else if attempt < length (push_retry_backoffs CURRENT_ERA)
                then Some (st\<lparr>rt_pool := pool,
                             rt_pending_pushes := rt_pending_pushes st @
                               [p\<lparr>pp_attempt := attempt,
                                  pp_next_at := now + from_secs (push_retry_backoffs CURRENT_ERA ! attempt)\<rparr>]\<rparr>,
                           out @ cmds)
                else None)"

fun retry_all ::
  "bool \<Rightarrow> instant \<Rightarrow> repl_state \<times> swarm_command list \<Rightarrow> pending_push list \<Rightarrow>
     (repl_state \<times> swarm_command list) option" where
  "retry_all up now so [] = Some so"
| "retry_all up now so (p # ps) =
     (case retry_push up now so p of
        Some so' \<Rightarrow> retry_all up now so' ps
      | None \<Rightarrow> None)"

definition retry_tick :: "bool \<Rightarrow> instant \<Rightarrow> repl_state \<Rightarrow> (repl_state \<times> swarm_command list) option" where
  "retry_tick up now st = retry_all up now (st\<lparr>rt_pending_pushes := []\<rparr>, []) (rt_pending_pushes st)"

section \<open>Anti-entropy\<close>

datatype repl_error =
    SendFailed
  | ChannelClosed
  | RequestFailed string
  | LocalStorage storage_error
  | ZeroChunkSize

record peer_net =
  nt_sync :: "node_id \<Rightarrow> sync_request \<Rightarrow> repl_error + sync_response"
  nt_fetch :: "node_id \<Rightarrow> fetch_request \<Rightarrow> repl_error + fetch_response"
  nt_others :: "nat \<Rightarrow> db \<Rightarrow> db"

text \<open>\<open>slice::chunks\<close> for a positive size.\<close>

function chunks :: "nat \<Rightarrow> 'a list \<Rightarrow> 'a list list" where
  "chunks n xs = (if xs = [] \<or> n = 0 then [] else take n xs # chunks n (drop n xs))"
  by pat_completeness auto
termination
  by (relation "measure (\<lambda>(n, xs). length xs)") auto

declare chunks.simps [simp del]

definition max_str :: "string list \<Rightarrow> string option" where
  "max_str ts = (if ts = [] then None else Some (Max (set ts)))"

record round_counts =
  cnt_stored :: u64
  cnt_rejected :: u64
  cnt_duplicate :: u64

definition receive_fetched ::
  "repl_env \<Rightarrow> string \<Rightarrow> string list \<Rightarrow> string list option \<Rightarrow> round_counts \<times> db \<Rightarrow> fetched_item \<Rightarrow>
     round_counts \<times> db" where
  "receive_fetched env now groups relay_accept_set cd item =
     (case cd of (c, d) \<Rightarrow>
       case on_receive (re_lib env) (re_engine env) (sqlite_store (re_lib env) now) d item groups
              (map_option (\<lambda>s gid. gid \<in> set s) relay_accept_set) of
         (Stored, d') \<Rightarrow> (c\<lparr>cnt_stored := cnt_stored c + 1\<rparr>, d')
       | (Duplicate, d') \<Rightarrow> (c\<lparr>cnt_duplicate := cnt_duplicate c + 1\<rparr>, d')
       | (Rejected _, d') \<Rightarrow> (c\<lparr>cnt_rejected := cnt_rejected c + 1\<rparr>, d'))"

fun fetch_chunks ::
  "repl_env \<Rightarrow> peer_net \<Rightarrow> string \<Rightarrow> string list \<Rightarrow> string list option \<Rightarrow> node_id \<Rightarrow> nat \<Rightarrow>
     string list list \<Rightarrow> round_counts \<times> db \<Rightarrow> (repl_error + round_counts) \<times> db" where
  "fetch_chunks env net now groups ras peer k [] cd = (Ok (fst cd), snd cd)"
| "fetch_chunks env net now groups ras peer k (chunk # rest) cd =
     (case nt_fetch net peer \<lparr>fr_item_ids = chunk\<rparr> of
        Err e \<Rightarrow> (Err e, nt_others net k (snd cd))
      | Ok resp \<Rightarrow>
          fetch_chunks env net now groups ras peer (k + 1) rest
            (foldl (receive_fetched env now groups ras) (fst cd, nt_others net k (snd cd)) (frs_items resp)))"

definition run_anti_entropy ::
  "repl_env \<Rightarrow> (nat \<Rightarrow> nat) \<Rightarrow> peer_net \<Rightarrow> string \<Rightarrow> repl_state \<Rightarrow> string \<Rightarrow> string list \<Rightarrow> string option \<Rightarrow>
     string list option \<Rightarrow> (repl_error + string option) \<times> repl_state" where
  "run_anti_entropy env rng net now st g groups since relay_accept_set =
     (case (if re_is_relay env then random_hot_peer_for_group_or_relays rng (rt_pool st) g
            else random_hot_peer_for_group rng (rt_pool st) g) of
        None \<Rightarrow> (Ok None, st)
      | Some peer \<Rightarrow>
          let limit = engine_max_batch_size (re_engine env);
              d0 = nt_others net 0 (rt_db st)
          in case nt_sync net (ph_node_id peer) \<lparr>sr_group_id = g, sr_since = since, sr_limit = limit\<rparr> of
               Err e \<Rightarrow> (Err e, st\<lparr>rt_db := d0\<rparr>)
             | Ok remote \<Rightarrow>
                 let latest_ts = max_str (map ih_updated_at (srs_items remote))
                 in case list_group_items d0 g since limit of
                      Err e \<Rightarrow> (Err (LocalStorage e), st\<lparr>rt_db := d0\<rparr>)
                    | Ok local_headers \<Rightarrow>
                        let needed = diff_headers local_headers (srs_items remote)
                        in if needed = [] then (Ok latest_ts, st\<lparr>rt_db := d0\<rparr>)
                           else
                             let st1 = st\<lparr>rt_db := d0,
                                   rt_stats := (rt_stats st)\<lparr>st_sync_rounds_with_diff :=
                                     st_sync_rounds_with_diff (rt_stats st) + 1\<rparr>\<rparr>
                             in if limit = 0 then (Err ZeroChunkSize, st1)
                                else
                                  case fetch_chunks env net now groups relay_accept_set (ph_node_id peer) 1
                                         (chunks (unat limit) needed)
                                         (\<lparr>cnt_stored = 0, cnt_rejected = 0, cnt_duplicate = 0\<rparr>, d0) of
                                    (Err e, d) \<Rightarrow> (Err e, st1\<lparr>rt_db := d\<rparr>)
                                  | (Ok c, d) \<Rightarrow>
                                      (Ok latest_ts,
                                       st1\<lparr>rt_db := d,
                                         rt_stats := (rt_stats st1)\<lparr>
                                           st_items_synced := st_items_synced (rt_stats st1) + cnt_stored c,
                                           st_items_rejected := st_items_rejected (rt_stats st1) + cnt_rejected c,
                                           st_items_duplicate := st_items_duplicate (rt_stats st1) + cnt_duplicate c\<rparr>\<rparr>))"

text \<open>What the loop does with the result of a round.\<close>

definition finish_round :: "string \<Rightarrow> (repl_error + string option) \<times> repl_state \<Rightarrow> repl_state" where
  "finish_round g rs =
     (case rs of
        (Ok latest_ts, st) \<Rightarrow>
          st\<lparr>rt_stats := (rt_stats st)\<lparr>st_sync_rounds := st_sync_rounds (rt_stats st) + 1\<rparr>,
             rt_last_sync_at :=
               (case latest_ts of
                  Some ts \<Rightarrow> hm_insert g ts (rt_last_sync_at st)
                | None \<Rightarrow> rt_last_sync_at st)\<rparr>
      | (Err _, st) \<Rightarrow>
          st\<lparr>rt_stats := (rt_stats st)\<lparr>st_sync_errors := st_sync_errors (rt_stats st) + 1\<rparr>\<rparr>)"

definition add_missing :: "string list \<Rightarrow> string list \<Rightarrow> string list" where
  "add_missing gs new = foldl (\<lambda>gs g. if g \<in> set gs then gs else gs @ [g]) gs new"

definition sync_groups :: "repl_env \<Rightarrow> repl_state \<Rightarrow> string list" where
  "sync_groups env st =
     (let own = pp_our_groups (rt_pool st);
          current =
            (if re_is_relay env
             then
               let learned = (case pp_relay_learned_groups (rt_pool st) of
                                Some s \<Rightarrow> add_missing own s | None \<Rightarrow> own)
               in (case list_stored_group_ids (rt_db st) of
                     Ok stored \<Rightarrow> add_missing learned stored | Err _ \<Rightarrow> learned)
             else own)
      in filter (\<lambda>g. g \<notin> set (re_blocked env)) current)"

definition sync_group ::
  "repl_env \<Rightarrow> (nat \<Rightarrow> nat) \<Rightarrow> (string \<Rightarrow> peer_net) \<Rightarrow> instant \<Rightarrow> string \<Rightarrow> string list \<Rightarrow> repl_state \<Rightarrow> string \<Rightarrow> repl_state" where
  "sync_group env rng nets now db_now current_groups st g =
     (if (case hm_get (rt_next_sync_at st) g of Some deadline \<Rightarrow> now < deadline | None \<Rightarrow> False) then st
      else
        let culture = unwrap_or (load_group_culture env (rt_db st) g) default_group_culture;
            cycle = unwrap_or (hm_get (rt_sync_cycle_count st) g) 0 + 1;
            st1 = st\<lparr>rt_next_sync_at :=
                       hm_insert g (now + from_secs (sync_interval (re_engine env) culture)) (rt_next_sync_at st),
                     rt_sync_cycle_count := hm_insert g cycle (rt_sync_cycle_count st)\<rparr>;
            since = (if cycle mod FULL_SYNC_EVERY = 0 then None else hm_get (rt_last_sync_at st) g);
            relay_accept_set = (if re_is_relay env then Some current_groups else None)
        in finish_round g (run_anti_entropy env rng (nets g) db_now st1 g current_groups since relay_accept_set))"

definition sync_tick ::
  "repl_env \<Rightarrow> (nat \<Rightarrow> nat) \<Rightarrow> (string \<Rightarrow> peer_net) \<Rightarrow> instant \<Rightarrow> string \<Rightarrow> repl_state \<Rightarrow> repl_state" where
  "sync_tick env rng nets now db_now st =
     (let current_groups = sync_groups env st
      in foldl (sync_group env rng nets now db_now current_groups) st current_groups)"

definition bootstrap_sync ::
  "repl_env \<Rightarrow> (nat \<Rightarrow> nat) \<Rightarrow> peer_net \<Rightarrow> string \<Rightarrow> repl_state \<Rightarrow> string \<Rightarrow> repl_state" where
  "bootstrap_sync env rng net db_now st g =
     (let st1 = st\<lparr>rt_next_sync_at := hm_remove g (rt_next_sync_at st),
                  rt_last_sync_at := hm_remove g (rt_last_sync_at st),
                  rt_sync_cycle_count := hm_remove g (rt_sync_cycle_count st)\<rparr>;
          current_groups = pp_our_groups (rt_pool st);
          relay_accept_set = (if re_is_relay env then Some current_groups else None)
      in finish_round g (run_anti_entropy env rng net db_now st1 g current_groups None relay_accept_set))"

definition gc_tick :: "repl_env \<Rightarrow> (u32 \<Rightarrow> string) \<Rightarrow> repl_state \<Rightarrow> repl_state" where
  "gc_tick env datetime_ago st =
     st\<lparr>rt_db := snd (purge_deleted_groups datetime_ago (rt_db st) GROUP_TOMBSTONE_CULTURE
                      (engine_tombstone_retention_days (re_engine env)))\<rparr>"

section \<open>The loop\<close>

datatype repl_event =
    LocalWrite string write_notification
  | WriteLagged
  | FlushTick bool "string \<Rightarrow> instant"
  | RetryTick bool instant
  | SyncTick "nat \<Rightarrow> nat" "string \<Rightarrow> peer_net" instant string
  | BootstrapSync "nat \<Rightarrow> nat" peer_net string string
  | GcTick "u32 \<Rightarrow> string"

definition update_gauges :: "repl_state \<Rightarrow> repl_state" where
  "update_gauges st =
     st\<lparr>rt_stats := (rt_stats st)\<lparr>
          st_write_buffer_depth := sum_list (map (\<lambda>items. of_nat (length items)) (hm_values (rt_write_buffer st))),
          st_pending_push_count := of_nat (length (rt_pending_pushes st))\<rparr>\<rparr>"

definition repl_step :: "repl_env \<Rightarrow> repl_state \<Rightarrow> repl_event \<Rightarrow> (repl_state \<times> swarm_command list) option" where
  "repl_step env st0 ev =
     (let st = update_gauges st0 in
      case ev of
        LocalWrite rfc3339_now notif \<Rightarrow> Some (on_write_notification env rfc3339_now st notif, [])
      | WriteLagged \<Rightarrow> Some (st, [])
      | FlushTick up clk \<Rightarrow> Some (flush up clk st)
      | RetryTick up now \<Rightarrow> retry_tick up now st
      | SyncTick rng nets now db_now \<Rightarrow> Some (sync_tick env rng nets now db_now st, [])
      | BootstrapSync rng net db_now g \<Rightarrow> Some (bootstrap_sync env rng net db_now st g, [])
      | GcTick datetime_ago \<Rightarrow> Some (gc_tick env datetime_ago st, []))"

fun run_replication_loop ::
  "repl_env \<Rightarrow> repl_state \<Rightarrow> repl_event list \<Rightarrow> (repl_state \<times> swarm_command list) option" where
  "run_replication_loop env st [] = Some (st, [])"
| "run_replication_loop env st (ev # evs) =
     (case repl_step env st ev of
        None \<Rightarrow> None
      | Some (st1, out1) \<Rightarrow>
          case run_replication_loop env st1 evs of
            None \<Rightarrow> None
          | Some (st2, out2) \<Rightarrow> Some (st2, out1 @ out2))"

end
