(* ===== verification/Swarm_Props.thy ===== *)
theory Swarm_Props
  imports Swarm
begin

text \<open>
  Properties of the network task: requests of the other tasks are answered at most once and by
  their own protocol, what a push can change and forward, the effect of a group tombstone on
  replication, and that every turn keeps the invariant of the database.
\<close>

section \<open>Pending requests\<close>

datatype protocol_tag = TPeerShare | TSync | TFetch | TGroupExchange

fun reply_tag :: "swarm_reply \<Rightarrow> protocol_tag" where
  "reply_tag (PeerShareReply _) = TPeerShare"
| "reply_tag (SyncReply _) = TSync"
| "reply_tag (FetchReply _) = TFetch"
| "reply_tag (GroupExchangeReply _) = TGroupExchange"

fun issued :: "swarm_input \<Rightarrow> (protocol_tag \<times> channel) list" where
  "issued (Command _ (SendPeerShareRequest _ _ tx)) = [(TPeerShare, tx)]"
| "issued (Command _ (SendSyncRequest _ _ tx)) = [(TSync, tx)]"
| "issued (Command _ (SendFetchRequest _ _ tx)) = [(TFetch, tx)]"
| "issued (Command _ (SendGroupExchange _ _ tx)) = [(TGroupExchange, tx)]"
| "issued _ = []"

fun completed :: "swarm_out list \<Rightarrow> (protocol_tag \<times> channel) list" where
  "completed [] = []"
| "completed (Complete tx r # outs) = (reply_tag r, tx) # completed outs"
| "completed (_ # outs) = completed outs"

lemma completed_append [simp]: "completed (xs @ ys) = completed xs @ completed ys"
  by (induction xs rule: completed.induct) simp_all

definition waiting :: "protocol_tag \<Rightarrow> (request_id, channel) hashmap \<Rightarrow> (protocol_tag \<times> channel) multiset" where
  "waiting t m = mset (map (Pair t) (hm_values m))"

definition pending :: "swarm_state \<Rightarrow> (protocol_tag \<times> channel) multiset" where
  "pending st =
     waiting TPeerShare (sw_pending_peer_share st) + waiting TSync (sw_pending_sync st) +
     waiting TFetch (sw_pending_fetch st) + waiting TGroupExchange (sw_pending_group_exchange st)"

lemma waiting_insert: "waiting t (hm_insert k v m) \<subseteq># add_mset (t, v) (waiting t m)"
proof (induction m)
  case (Cons p m)
  then show ?case
    by (cases p) (auto simp: waiting_def hm_values_def intro: subset_mset.order_trans)
qed (simp add: waiting_def hm_values_def)

lemma waiting_remove: "waiting t (hm_remove k m) \<subseteq># waiting t m"
  unfolding waiting_def hm_values_def AList.delete_eq
  by (simp add: image_mset_subseteq_mono multiset_filter_subset)

lemma waiting_settle:
  assumes "settle m rid r = (m', out)"
  shows "mset (completed out) + waiting (reply_tag r) m' \<subseteq># waiting (reply_tag r) m"
proof (cases "hm_get m rid")
  case None
  then show ?thesis
    using assms by (auto simp: settle_def)
next
  case (Some tx)
  have "add_mset (t, tx) (waiting t (hm_remove rid m)) \<subseteq># waiting t m" for t
    using Some
  proof (induction m)
    case (Cons p m)
    then show ?case
      using waiting_remove [of t rid m]
      by (cases p) (auto simp: waiting_def hm_values_def intro: subset_mset.order_trans split: if_splits)
  qed simp
  then show ?thesis
    using assms Some by (auto simp: settle_def)
qed

lemma drop_shared_groups_simps [simp]:
  "sw_db (drop_shared_groups gids st) = sw_db st"
  "pending (drop_shared_groups gids st) = pending st"
  "pending (st\<lparr>sw_db := d\<rparr>) = pending st"
  by (simp_all add: drop_shared_groups_def pending_def)

lemma pending_behaviour:
  assumes "handle_behaviour_event env st gs now bev = (r, st', out)"
  shows "mset (completed out) + pending st' \<subseteq># pending st"
proof -
  have ps: "mset (completed o') + waiting TPeerShare p \<subseteq># waiting TPeerShare (sw_pending_peer_share st)"
    if "settle (sw_pending_peer_share st) rid (PeerShareReply x) = (p, o')" for rid x p o'
    using waiting_settle [OF that] by simp
  have sy: "mset (completed o') + waiting TSync p \<subseteq># waiting TSync (sw_pending_sync st)"
    if "settle (sw_pending_sync st) rid (SyncReply x) = (p, o')" for rid x p o'
    using waiting_settle [OF that] by simp
  have fe: "mset (completed o') + waiting TFetch p \<subseteq># waiting TFetch (sw_pending_fetch st)"
    if "settle (sw_pending_fetch st) rid (FetchReply x) = (p, o')" for rid x p o'
    using waiting_settle [OF that] by simp
  have ge: "mset (completed o') + waiting TGroupExchange p \<subseteq># waiting TGroupExchange (sw_pending_group_exchange st)"
    if "settle (sw_pending_group_exchange st) rid (GroupExchangeReply x) = (p, o')" for rid x p o'
    using waiting_settle [OF that] by simp
  show ?thesis
    using assms
    by (cases bev)
      (auto simp: handle_behaviour_event_def settle_peer_share_def settle_sync_def settle_fetch_def
        handle_group_exchange_request_def handle_group_exchange_response_def pending_def ac_simps
        split: prod.splits dest!: ps sy fe ge
        intro: subset_mset.add_left_mono subset_mset.add_right_mono)
qed

lemma completed_map_push [simp]: "completed (map (\<lambda>h. PushOut (f h) (g h)) hs) = []"
  by (induction hs) simp_all

lemma pending_command:
  assumes "handle_command env st req_id cmd = (st', out)"
  shows "mset (completed out) + pending st' \<subseteq># pending st + mset (issued (Command req_id cmd))"
  using assms waiting_insert [of TPeerShare req_id _ "sw_pending_peer_share st"]
    waiting_insert [of TSync req_id _ "sw_pending_sync st"]
    waiting_insert [of TFetch req_id _ "sw_pending_fetch st"]
    waiting_insert [of TGroupExchange req_id _ "sw_pending_group_exchange st"]
  by (cases cmd) (auto simp: handle_command_def pending_def subset_mset.add_mono split: prod.splits)

lemma pending_step:
  assumes "swarm_step env st inp = (st', out)"
  shows "mset (completed out) + pending st' \<subseteq># pending st + mset (issued inp)"
proof (cases inp)
  case (Command req_id cmd)
  then show ?thesis
    using assms pending_command [of env st req_id cmd st' out] by (simp add: swarm_step_def)
next
  case (Event ev)
  then show ?thesis
    using assms
    by (cases ev)
      (auto simp: swarm_step_def handle_event_def handle_push_event_def
        split: prod.splits dest!: pending_behaviour)
qed

lemma pending_run:
  assumes "run_swarm_loop env st inps = (st', outs)"
  shows "mset (completed outs) + pending st' \<subseteq># pending st + mset (concat (map issued inps))"
  using assms
proof (induction inps arbitrary: st outs)
  case (Cons inp inps)
  obtain st1 out1 out2 where s: "swarm_step env st inp = (st1, out1)"
    "run_swarm_loop env st1 inps = (st', out2)" "outs = out1 @ out2"
    using Cons.prems by (auto split: prod.splits)
  have "mset (completed out1) + (mset (completed out2) + pending st') \<subseteq>#
      mset (completed out1) + (pending st1 + mset (concat (map issued inps)))"
    using Cons.IH [OF s(2)] by simp
  also have "\<dots> \<subseteq># pending st + mset (issued inp) + mset (concat (map issued inps))"
    using pending_step [OF s(1)] by (metis add.assoc subset_mset.add_right_mono)
  finally show ?case
    by (simp add: s(3) ac_simps)
qed simp

lemma distinct_submset:
  assumes "mset xs \<subseteq># mset ys" "distinct ys"
  shows "distinct xs"
proof -
  obtain zs where "mset ys = mset (xs @ zs)"
    using assms(1) by (metis ex_mset mset_append mset_subset_eq_exists_conv)
  then show ?thesis
    using assms(2) mset_eq_imp_distinct_iff [of ys "xs @ zs"] by simp
qed

text \<open>
  C20. Requests and replies. In every run that starts with no request outstanding and in which the
  tasks hand over each reply channel once, each channel is completed at most once, only after
  it was handed over, and by a response or failure of the protocol it was handed over for;
  repeated, late and unknown responses complete nothing.
\<close>

theorem replies_at_most_once:
  assumes "pending st = {#}" and "distinct (concat (map issued inps))"
  shows "distinct (completed (snd (run_swarm_loop env st inps))) \<and>
    set (completed (snd (run_swarm_loop env st inps))) \<subseteq> set (concat (map issued inps))"
proof -
  obtain st' outs where r: "run_swarm_loop env st inps = (st', outs)"
    by (rule prod.exhaust)
  have "mset (completed outs) \<subseteq># mset (concat (map issued inps))"
    using pending_run [OF r] assms(1) by (metis add_0 mset_subset_eq_add_left subset_mset.order_trans)
  then show ?thesis
    using distinct_submset [OF _ assms(2)] set_mset_mono r by fastforce
qed

definition env_w :: "relay_posture option \<Rightarrow> swarm_env" where
  "env_w posture =
     \<lparr>se_lib = L_w, se_identity = ni_w, se_entity_id = ''bob'', se_role = Personal, se_posture = posture,
      se_allowed = [], se_blocked = [''g9''], se_peer_string = (\<lambda>_. ''''), se_addr_string = (\<lambda>_. '''')\<rparr>"

definition swarm_w :: "db \<Rightarrow> peer_pool \<Rightarrow> swarm_state" where
  "swarm_w d pool =
     \<lparr>sw_db = d, sw_pool = pool, sw_pending_peer_share = [], sw_pending_sync = [],
      sw_pending_fetch = [], sw_pending_group_exchange = []\<rparr>"

lemma pending_w: "pending (swarm_w d pool) = {#}"
  by (simp add: pending_def swarm_w_def waiting_def hm_values_def)

definition sync_twice_w :: "swarm_input list" where
  "sync_twice_w =
     [Command 1 (SendSyncRequest (PeerId 2) \<lparr>sr_group_id = ''g1'', sr_since = None, sr_limit = 100\<rparr> 7),
      Event (Behaviour (SyncFailed 1 ''timeout'') True ''t''),
      Event (Behaviour (SyncResponseIn 1 \<lparr>srs_items = [], srs_has_more = False\<rparr>) True ''t'')]"

theorem replies_at_most_once_witness:
  "completed (snd (run_swarm_loop (env_w None) (swarm_w db_w (new_pool [''g1''])) sync_twice_w)) = [(TSync, 7)] \<and>
   distinct (completed (snd (run_swarm_loop (env_w None) (swarm_w db_w (new_pool [''g1''])) sync_twice_w)))"
  using replies_at_most_once [OF pending_w, of sync_twice_w "env_w None" db_w "new_pool [''g1'']"]
  by (simp add: sync_twice_w_def swarm_step_def handle_command_def swarm_w_def handle_event_def
      handle_behaviour_event_def settle_sync_def settle_def no_merge_def drop_shared_groups_def)

section \<open>Pushes\<close>

abbreviation push_engine :: replication_engine where
  "push_engine \<equiv> \<lparr>en_config = default_replication_config, en_entity_id = []\<rparr>"

lemma push_item_db:
  "snd (push_item L now gs ra ad x) = snd (on_receive L push_engine (sqlite_store L now) (snd ad) x gs ra)"
  by (simp add: push_item_def split: prod.split receive_outcome.split)

lemma push_db:
  "snd (handle_push_request L now d req gs ra) =
   foldl (\<lambda>d x. snd (on_receive L push_engine (sqlite_store L now) d x gs ra)) d (mp_items req)"
proof -
  have "snd (foldl (push_item L now gs ra) ad xs) =
      foldl (\<lambda>d x. snd (on_receive L push_engine (sqlite_store L now) d x gs ra)) (snd ad) xs" for ad xs
    by (induction xs arbitrary: ad) (simp_all add: push_item_db)
  then show ?thesis
    by (simp add: handle_push_request_def)
qed

lemma push_changes:
  assumes "row_in (foldl (\<lambda>d x. snd (on_receive L eng (sqlite_store L now) d x gs ra)) d xs) i \<noteq> row_in d i"
  shows "\<exists>x \<in> set xs. fi_item_id x = i \<and> admissible L gs ra x"
  using assms
proof (induction xs arbitrary: d)
  case (Cons x xs)
  let ?r = "on_receive L eng (sqlite_store L now) d x gs ra"
  show ?case
  proof (cases "row_in (snd ?r) i = row_in d i")
    case True
    then show ?thesis
      using Cons.IH [of "snd ?r"] Cons.prems by auto
  next
    case False
    then have "fi_item_id x = i \<and> admissible L gs ra x"
      using receive_effect [of L eng now d x gs ra "fst ?r" "snd ?r"]
      by (cases "fi_item_id x = i") auto
    then show ?thesis
      by simp
  qed
qed simp

text \<open>The groups whose items the node takes from a push.\<close>

definition replicates :: "swarm_env \<Rightarrow> peer_pool \<Rightarrow> bool \<Rightarrow> group_id \<Rightarrow> bool" where
  "replicates env pool lock_free g =
     (case se_posture env of
        None \<Rightarrow> g \<in> set (pp_our_groups pool)
      | Some posture \<Rightarrow>
          g \<notin> set (se_blocked env) \<and>
          (case posture of
             Transparent \<Rightarrow> True
           | Dynamic \<Rightarrow> lock_free \<and> (\<exists>learned. pp_relay_learned_groups pool = Some learned \<and> g \<in> set learned)
           | Explicit \<Rightarrow> lock_free \<and> g \<in> set (se_allowed env)))"

lemma group_accepted_push:
  "group_accepted x (pp_our_groups (sw_pool st)) (relay_check env st lock_free) \<longleftrightarrow>
   replicates env (sw_pool st) lock_free (fi_group_id x)"
proof (cases "se_posture env")
  case (Some p)
  then show ?thesis
    by (cases p; cases "pp_relay_learned_groups (sw_pool st)")
      (simp_all add: group_accepted_def relay_check_def accepted_snap_def relay_accepted_groups_def replicates_def)
qed (simp add: group_accepted_def relay_check_def replicates_def)

text \<open>
  C21. What a push can change. Whatever the database state and the failures, a row that differs
  after a push of a peer is the row of an item of that push, within the size limit, whose group
  the node replicates: on a relay a group that is not blocked and that its posture accepts (every
  group, the learned ones, or the configured ones, none while their lock is held), elsewhere
  one of the node's own groups. The pool, and so the set of these groups, does not change, and
  nothing is sent but the acknowledgement and, by a relay that stored something, copies of
  the push to other peers than its sender.
\<close>

theorem push_changes_only_accepted:
  assumes "handle_push_event env st sender req lock_free now = (st', outs)"
  shows "sw_pool st' = sw_pool st \<and>
    (\<forall>i. row_in (sw_db st') i = row_in (sw_db st) i \<or>
       (\<exists>x \<in> set (mp_items req). fi_item_id x = i \<and> length (fi_encrypted_blob x) \<le> MAX_ITEM_BYTES \<and>
          replicates env (sw_pool st) lock_free (fi_group_id x))) \<and>
    (\<exists>ack fwd. outs = PushAnswer ack # map (\<lambda>i. PushOut i req) fwd \<and> sender \<notin> set fwd \<and>
       (fwd = [] \<or> se_posture env \<noteq> None \<and> ack_stored ack \<noteq> 0))"
proof -
  let ?L = "se_lib env" and ?gs = "pp_our_groups (sw_pool st)" and ?ra = "relay_check env st lock_free"
  obtain ack d where p: "handle_push_request ?L now (sw_db st) req ?gs ?ra = (ack, d)"
    by (rule prod.exhaust)
  define fwd where "fwd = (if se_posture env \<noteq> None \<and> 0 < ack_stored ack
    then map ph_node_id (forward_peers (sw_pool st) sender) else [])"
  have e: "st' = st\<lparr>sw_db := d\<rparr>" "outs = PushAnswer ack # map (\<lambda>i. PushOut i req) fwd"
    using assms by (auto simp: handle_push_event_def p fwd_def)
  have "sender \<notin> set fwd" "fwd = [] \<or> se_posture env \<noteq> None \<and> ack_stored ack \<noteq> 0"
    by (auto simp: forward_peers_def fwd_def)
  then have "\<exists>ack fwd. outs = PushAnswer ack # map (\<lambda>i. PushOut i req) fwd \<and> sender \<notin> set fwd \<and>
       (fwd = [] \<or> se_posture env \<noteq> None \<and> ack_stored ack \<noteq> 0)"
    using e(2) by (intro exI conjI)
  moreover have "row_in d i = row_in (sw_db st) i \<or>
      (\<exists>x \<in> set (mp_items req). fi_item_id x = i \<and> admissible ?L ?gs ?ra x)" for i
    using p push_db [of ?L now "sw_db st" req ?gs ?ra]
      push_changes [of ?L push_engine now ?gs ?ra "sw_db st" "mp_items req" i] by auto
  ultimately show ?thesis
    unfolding admissible_def group_accepted_push using e(1) by auto
qed

theorem push_changes_only_accepted_witness:
  "row_in (sw_db (fst (handle_push_event (env_w (Some Transparent)) (swarm_w db_w (new_pool [])) (PeerId 2)
     \<lparr>mp_items = [(version_w [1] ''2026'')\<lparr>fi_group_id := ''g9''\<rparr>]\<rparr> True ''t''))) ''i1'' = row_in db_w ''i1''"
proof -
  let ?env = "env_w (Some Transparent)" and ?st = "swarm_w db_w (new_pool [])"
    and ?req = "\<lparr>mp_items = [(version_w [1] ''2026'')\<lparr>fi_group_id := ''g9''\<rparr>]\<rparr>"
  obtain st' outs where h: "handle_push_event ?env ?st (PeerId 2) ?req True ''t'' = (st', outs)"
    by (rule prod.exhaust)
  have "\<not> replicates ?env (sw_pool ?st) True ''g9''"
    by (simp add: replicates_def env_w_def)
  then show ?thesis
    using push_changes_only_accepted [OF h] h by (auto simp: swarm_w_def)
qed

text \<open>An item that would not be stored, and so would leave the database as it is.\<close>

definition settled :: "crypto_lib \<Rightarrow> string list \<Rightarrow> (string \<Rightarrow> bool) option \<Rightarrow> db \<Rightarrow> fetched_item \<Rightarrow> bool" where
  "settled L gs ra d x \<longleftrightarrow>
     fi_item_type x \<noteq> TOMBSTONE_TYPE \<and>
     (admissible L gs ra x \<longrightarrow> \<not> wins (stored_items d (fi_item_id x)) x)"

lemma receive_settled:
  assumes "healthy L d" "settled L gs ra d x"
  shows "\<exists>out. on_receive L eng (sqlite_store L now) d x gs ra = (out, d) \<and> out \<noteq> Stored"
proof (cases "admissible L gs ra x")
  case True
  obtain out d' where r: "on_receive L eng (sqlite_store L now) d x gs ra = (out, d')"
    "receive_spec x (stored_items d) = (out = Stored, stored_items d')" "out = Stored \<or> out = Duplicate \<and> d' = d"
    using sq.receive_refines [OF assms(1) True, of eng now, folded stored_items_def]
    by (elim exE conjE) (rule that)
  have "\<not> fst (receive_spec x (stored_items d))"
    using True assms(2) by (simp add: settled_def receive_spec_def)
  then have "out \<noteq> Stored"
    by (simp add: r(2))
  then show ?thesis
    using r(1,3) by simp
next
  case False
  then show ?thesis
    using sq.receive_rejects [OF assms(1) False, of eng now] by simp
qed

lemma receive_step:
  assumes "healthy L d"
  obtains d' where "snd (on_receive L eng (sqlite_store L now) d x gs ra) = d'" "healthy L d'"
    "fi_item_type x \<noteq> TOMBSTONE_TYPE \<Longrightarrow> settled L gs ra d' x"
    "\<And>j. j \<noteq> fi_item_id x \<Longrightarrow> stored_items d' j = stored_items d j"
proof (cases "admissible L gs ra x")
  case True
  obtain out d' where "on_receive L eng (sqlite_store L now) d x gs ra = (out, d')" "healthy L d'"
    "receive_spec x (stored_items d) = (out = Stored, stored_items d')"
    using sq.receive_refines [OF assms True, of eng now, folded stored_items_def]
    by (elim exE conjE) (rule that)
  then show ?thesis
    by (intro that [of d'])
      (auto simp: receive_spec_def settled_def wins_def fun_eq_iff split: if_splits option.splits)
next
  case False
  then show ?thesis
    using sq.receive_rejects [OF assms False, of eng now] assms
    by (intro that [of d]) (auto simp: settled_def)
qed

lemma receive_batch_settles:
  assumes "healthy L d" "distinct (map fi_item_id xs)" "\<forall>x \<in> set xs. fi_item_type x \<noteq> TOMBSTONE_TYPE"
  shows "healthy L (foldl (\<lambda>d x. snd (on_receive L eng (sqlite_store L now) d x gs ra)) d xs) \<and>
    (\<forall>j. j \<notin> fi_item_id ` set xs \<longrightarrow>
      stored_items (foldl (\<lambda>d x. snd (on_receive L eng (sqlite_store L now) d x gs ra)) d xs) j = stored_items d j) \<and>
    (\<forall>x \<in> set xs. settled L gs ra (foldl (\<lambda>d x. snd (on_receive L eng (sqlite_store L now) d x gs ra)) d xs) x)"
  using assms
proof (induction xs arbitrary: d)
  case (Cons x xs)
  obtain d' where d': "snd (on_receive L eng (sqlite_store L now) d x gs ra) = d'" "healthy L d'"
    "fi_item_type x \<noteq> TOMBSTONE_TYPE \<Longrightarrow> settled L gs ra d' x"
    "\<And>j. j \<noteq> fi_item_id x \<Longrightarrow> stored_items d' j = stored_items d j"
    using receive_step [OF Cons.prems(1), of eng now x gs ra] by metis
  then show ?case
    using Cons.IH [OF d'(2)] Cons.prems(2,3) d'(3) by (auto simp: settled_def)
qed simp

lemma push_settled:
  assumes "healthy L d" "\<forall>x \<in> set xs. settled L gs ra d x"
  shows "\<exists>ack'. foldl (push_item L now gs ra) (ack, d) xs = (ack', d) \<and> ack_stored ack' = ack_stored ack"
  using assms(2)
proof (induction xs arbitrary: ack)
  case (Cons x xs)
  obtain out where out: "on_receive L push_engine (sqlite_store L now) d x gs ra = (out, d)" "out \<noteq> Stored"
    using receive_settled [OF assms(1), of gs ra x push_engine now] Cons.prems by auto
  then obtain ack1 where "push_item L now gs ra (ack, d) x = (ack1, d)" "ack_stored ack1 = ack_stored ack"
    by (cases out) (auto simp: push_item_def)
  then show ?case
    using Cons.IH [of ack1] Cons.prems by auto
qed simp


definition push_w :: memory_push_request where
  "push_w = \<lparr>mp_items = [version_w [1] ''2026'']\<rparr>"


text \<open>
  Loop prevention fails for tombstones. A push of an item followed by its tombstone ends with
  the item absent, so every repetition stores the item and deletes it again and is acknowledged
  with two stored items: a relay forwards it every time, and two connected relays send it to each
  other without end.
\<close>

theorem tombstone_push_forwarded_again:
  assumes "healthy L d" and "stored_items d (fi_item_id x) = None"
    and "admissible L gs ra x" "fi_item_type x \<noteq> TOMBSTONE_TYPE"
    and "admissible L gs ra k" "fi_item_type k = TOMBSTONE_TYPE" "fi_item_id k = fi_item_id x"
    and "handle_push_request L now d \<lparr>mp_items = [x, k]\<rparr> gs ra = (ack, d')"
  shows "ack_stored ack = 2 \<and> healthy L d' \<and> stored_items d' (fi_item_id x) = None"
proof -
  obtain out1 d1 where r1: "on_receive L push_engine (sqlite_store L now) d x gs ra = (out1, d1)" "healthy L d1"
    "receive_spec x (stored_items d) = (out1 = Stored, stored_items d1)"
    using sq.receive_refines [OF assms(1,3), of push_engine now, folded stored_items_def]
    by (elim exE conjE) (rule that)
  obtain out2 d2 where r2: "on_receive L push_engine (sqlite_store L now) d1 k gs ra = (out2, d2)" "healthy L d2"
    "receive_spec k (stored_items d1) = (out2 = Stored, stored_items d2)"
    using sq.receive_refines [OF r1(2) assms(5), of push_engine now, folded stored_items_def]
    by (elim exE conjE) (rule that)
  have s1: "out1 = Stored" "stored_items d1 (fi_item_id x) = Some x"
    using arg_cong [OF r1(3), of fst] arg_cong [OF r1(3), of snd, symmetric] assms(2,4)
    by (simp_all add: receive_spec_def wins_def)
  have s2: "out2 = Stored" "stored_items d2 (fi_item_id x) = None"
    using arg_cong [OF r2(3), of fst] arg_cong [OF r2(3), of snd, symmetric] assms(6,7) s1(2)
    by (simp_all add: receive_spec_def)
  have "handle_push_request L now d \<lparr>mp_items = [x, k]\<rparr> gs ra = (\<lparr>ack_stored = 2, ack_rejected = 0\<rparr>, d2)"
    by (simp add: handle_push_request_def push_item_def r1(1) r2(1) s1(1) s2(1))
  then show ?thesis
    using assms(8) r2(2) s2(2) by simp
qed

theorem tombstone_push_forwarded_again_witness:
  "ack_stored (fst (handle_push_request L_w ''t'' db_w
     \<lparr>mp_items = [version_w [1] ''2026'', (version_w [1] ''2026'')\<lparr>fi_item_type := TOMBSTONE_TYPE\<rparr>]\<rparr> [''g1''] None)) = 2"
proof -
  let ?x = "version_w [1] ''2026''"
  let ?k = "?x\<lparr>fi_item_type := TOMBSTONE_TYPE\<rparr>"
  obtain ack d' where h: "handle_push_request L_w ''t'' db_w \<lparr>mp_items = [?x, ?k]\<rparr> [''g1''] None = (ack, d')"
    by (rule prod.exhaust)
  have "admissible L_w [''g1''] None ?x" "admissible L_w [''g1''] None ?k"
    by (simp_all add: admissible_def version_w_def group_accepted_def validate_checksum_def
        check_l2_type_def MAX_ITEM_BYTES_def)
  then show ?thesis
    using tombstone_push_forwarded_again [OF healthy_w _ _ _ _ _ _ h] h
    by (simp add: stored_items_w) (simp add: version_w_def TOMBSTONE_TYPE_def)
qed

section \<open>Tombstones of groups\<close>

lemma drop_shared_groups_pool:
  "sw_pool (drop_shared_groups gids st) =
     (sw_pool st)\<lparr>pp_our_groups := filter (\<lambda>g. g \<notin> set gids) (pp_our_groups (sw_pool st))\<rparr>"
proof -
  have "foldl (\<lambda>groups gid. filter (\<lambda>g. g \<noteq> gid) groups) gs gids = filter (\<lambda>g. g \<notin> set gids) gs" for gs
    by (induction gids arbitrary: gs) (auto intro: filter_cong)
  then show ?thesis
    by (simp add: drop_shared_groups_def)
qed


definition exchange_w :: group_exchange where
  "exchange_w = \<lparr>ge_groups = [], ge_descriptors = Some [deletion_w]\<rparr>"


section \<open>The database invariant\<close>

lemma push_inv: "db_inv L d \<Longrightarrow> db_inv L (snd (handle_push_request L now d req gs ra))"
proof -
  assume "db_inv L d"
  then have "db_inv L (foldl (\<lambda>d x. snd (on_receive L push_engine (sqlite_store L now) d x gs ra)) d xs)" for xs
    by (induction xs arbitrary: d) (simp_all add: receive_inv)
  then show ?thesis
    by (simp add: push_db)
qed

lemma merge_incoming_inv: "db_inv L d \<Longrightarrow> db_inv L (snd (merge_incoming L now d descs))"
  by (cases descs) (simp_all add: merge_incoming_def merge_descriptors_inv)

lemma settle_db [simp]:
  "sw_db (fst (snd (settle_peer_share st rid x))) = sw_db st"
  "sw_db (fst (snd (settle_sync st rid y))) = sw_db st"
  "sw_db (fst (snd (settle_fetch st rid z))) = sw_db st"
  by (simp_all add: settle_peer_share_def settle_sync_def settle_fetch_def split_beta)

lemma behaviour_inv:
  assumes "db_inv (se_lib env) (sw_db st)"
  shows "db_inv (se_lib env) (sw_db (fst (snd (handle_behaviour_event env st gs now bev))))"
  using assms
  by (cases bev)
    (simp_all add: handle_behaviour_event_def handle_group_exchange_request_def
      handle_group_exchange_response_def split_beta merge_incoming_inv build_descriptors_inv)

lemma swarm_step_inv:
  assumes "db_inv (se_lib env) (sw_db st)"
  shows "db_inv (se_lib env) (sw_db (fst (swarm_step env st inp)))"
proof (cases inp)
  case (Command req_id cmd)
  have "db_inv (se_lib env) (snd (build_descriptors (se_lib env) (se_identity env) (se_entity_id env) (sw_db st)))"
    using assms by (rule build_descriptors_inv)
  then show ?thesis
    using Command assms
    by (cases cmd) (auto simp: swarm_step_def handle_command_def split: prod.splits)
next
  case (Event ev)
  have "db_inv (se_lib env) (snd (handle_push_request (se_lib env) now (sw_db st) req gs ra))" for now req gs ra
    using assms by (rule push_inv)
  moreover have "db_inv (se_lib env) (sw_db (fst (snd (handle_behaviour_event env st gs now bev))))" for gs now bev
    using assms by (rule behaviour_inv)
  ultimately show ?thesis
    using Event assms
    by (cases ev) (simp_all add: swarm_step_def handle_event_def handle_push_event_def split_beta)
qed

end
