(* ===== verification/Replication_Task_Props.thy ===== *)
theory Replication_Task_Props
  imports Replication_Task Swarm_Props
begin

text \<open>
  Properties of the replication task: how writes are cut into batches, that the retries of a push
  end and never leave the table of delays, what an anti-entropy round with a peer achieves, and
  how far successive rounds reach.
\<close>

section \<open>Batches\<close>

definition batch_size :: "fetched_item list \<Rightarrow> nat" where
  "batch_size b = sum_list (map item_size b)"

definition batch_ok :: "fetched_item list \<Rightarrow> bool" where
  "batch_ok b \<longleftrightarrow> b \<noteq> [] \<and> (batch_size b \<le> MAX_MESSAGE_BYTES \<or> length b = 1)"

text \<open>No batch could have taken the first item of the next one.\<close>

fun greedy :: "fetched_item list list \<Rightarrow> bool" where
  "greedy (b # b' # bs) \<longleftrightarrow> MAX_MESSAGE_BYTES < batch_size b + item_size (hd b') \<and> greedy (b' # bs)"
| "greedy _ \<longleftrightarrow> True"

lemma greedy_snoc:
  "greedy (bs @ [b, b']) \<longleftrightarrow> greedy (bs @ [b]) \<and> MAX_MESSAGE_BYTES < batch_size b + item_size (hd b')"
  by (induction bs rule: greedy.induct) auto

lemma greedy_last: "b \<noteq> [] \<Longrightarrow> greedy (bs @ [b @ c]) \<longleftrightarrow> greedy (bs @ [b])"
  by (induction bs rule: greedy.induct) auto

lemma split_loop_correct:
  assumes "\<forall>b \<in> set batches. batch_ok b" "cur \<noteq> [] \<longrightarrow> batch_ok cur" "n = batch_size cur"
    and "greedy (batches @ (if cur = [] then [] else [cur]))" "cur = [] \<longrightarrow> batches = []"
  shows "concat (split_loop batches cur n items) = concat batches @ cur @ items \<and>
    (\<forall>b \<in> set (split_loop batches cur n items). batch_ok b) \<and> greedy (split_loop batches cur n items)"
  using assms
proof (induction batches cur n items rule: split_loop.induct)
  case (1 batches cur n)
  then show ?case
    by (auto split: if_splits)
next
  case (2 batches cur n item items)
  show ?case
  proof (cases "cur \<noteq> [] \<and> MAX_MESSAGE_BYTES < n + item_size item")
    case True
    have "greedy (batches @ [cur])"
      using 2(6) True by simp
    moreover have "MAX_MESSAGE_BYTES < batch_size cur + item_size (hd [item])"
      using True 2(5) by simp
    ultimately have "greedy ((batches @ [cur]) @ [[item]])"
      using greedy_snoc [of batches cur "[item]"] by simp
    then have "concat (split_loop (batches @ [cur]) [item] (item_size item) items) = concat (batches @ [cur]) @ [item] @ items \<and>
      (\<forall>b \<in> set (split_loop (batches @ [cur]) [item] (item_size item) items). batch_ok b) \<and>
      greedy (split_loop (batches @ [cur]) [item] (item_size item) items)"
      by (intro 2(1) [OF True]) (use 2(3,4) True in \<open>simp_all add: batch_ok_def [of "[item]"] batch_size_def\<close>)
    then show ?thesis
      using True by simp
  next
    case False
    have "batch_ok (cur @ [item])"
      using False 2(5) by (cases "cur = []") (auto simp: batch_ok_def batch_size_def)
    moreover have "greedy (batches @ [cur @ [item]])"
      using 2(6,7) by (cases "cur = []") (simp_all add: greedy_last)
    ultimately have "concat (split_loop batches (cur @ [item]) (n + item_size item) items) = concat batches @ (cur @ [item]) @ items \<and>
      (\<forall>b \<in> set (split_loop batches (cur @ [item]) (n + item_size item) items). batch_ok b) \<and>
      greedy (split_loop batches (cur @ [item]) (n + item_size item) items)"
      by (intro 2(2) [OF False]) (use 2(3,5) in \<open>simp_all add: batch_size_def\<close>)
    then show ?thesis
      using False by auto
  qed
qed

text \<open>
  C27. Cutting writes into messages. The batches hold exactly the given items in their order; none
  is empty; each keeps the size estimate within the message limit, unless it is a single item
  that exceeds it alone; and cutting is greedy, so no batch has room for the next batch's first
  item.
\<close>

theorem split_into_batches_correct:
  "concat (split_into_batches items) = items \<and> (\<forall>b \<in> set (split_into_batches items). batch_ok b) \<and>
   greedy (split_into_batches items)"
  using split_loop_correct [of "[]" "[]" 0 items] by (simp add: split_into_batches_def batch_size_def)

theorem split_into_batches_correct_witness:
  "split_into_batches [version_w [1] ''a''] = [[version_w [1] ''a'']] \<and>
   concat (split_into_batches [version_w [1] ''a'']) = [version_w [1] ''a'']"
  using split_into_batches_correct [of "[version_w [1] ''a'']"] by (simp add: split_into_batches_def)

section \<open>Retries\<close>

text \<open>What a retry tick does to one pending push.\<close>

definition advance :: "instant \<Rightarrow> pending_push \<Rightarrow> pending_push option" where
  "advance now p =
     (if now < pp_next_at p then Some p
      else if 3 \<le> pp_attempt p then None
      else Some (p\<lparr>pp_attempt := pp_attempt p + 1,
                   pp_next_at := now + from_secs (push_retry_backoffs ERA_0 ! (pp_attempt p + 1))\<rparr>))"

definition attempts_ok :: "repl_state \<Rightarrow> bool" where
  "attempts_ok st \<longleftrightarrow> (\<forall>p \<in> set (rt_pending_pushes st). pp_attempt p < 4)"

lemma retry_push_advance:
  assumes "pp_attempt p < 4"
  shows "\<exists>st' out'. retry_push up now (st, out) p = Some (st', out') \<and>
    rt_pending_pushes st' = rt_pending_pushes st @ (case advance now p of Some q \<Rightarrow> [q] | None \<Rightarrow> [])"
  using assms by (auto simp: retry_push_def advance_def Let_def split: prod.split)

lemma retry_all_advance:
  assumes "\<forall>p \<in> set ps. pp_attempt p < 4"
  shows "\<exists>st' out'. retry_all up now (st, out) ps = Some (st', out') \<and>
    rt_pending_pushes st' = rt_pending_pushes st @ List.map_filter (advance now) ps"
  using assms
proof (induction ps arbitrary: st out)
  case (Cons p ps)
  obtain st1 out1 where r: "retry_push up now (st, out) p = Some (st1, out1)"
    "rt_pending_pushes st1 = rt_pending_pushes st @ (case advance now p of Some q \<Rightarrow> [q] | None \<Rightarrow> [])"
    using retry_push_advance [of p up now st out] Cons.prems by auto
  then show ?case
    using Cons.IH [of st1 out1] Cons.prems by (auto split: option.split)
qed simp

lemma retry_tick_advance:
  assumes "attempts_ok st"
  shows "\<exists>st' out. retry_tick up now st = Some (st', out) \<and>
    rt_pending_pushes st' = List.map_filter (advance now) (rt_pending_pushes st)"
  using retry_all_advance [of "rt_pending_pushes st" up now "st\<lparr>rt_pending_pushes := []\<rparr>" "[]"] assms
  by (auto simp: retry_tick_def attempts_ok_def)

lemma advance_attempt: "advance now p = Some q \<Longrightarrow> pp_attempt p < 4 \<Longrightarrow> pp_attempt q < 4"
  by (auto simp: advance_def split: if_splits)

lemma update_gauges_frame [simp]:
  "rt_pending_pushes (update_gauges st) = rt_pending_pushes st" "rt_db (update_gauges st) = rt_db st"
  "rt_pool (update_gauges st) = rt_pool st" "rt_write_buffer (update_gauges st) = rt_write_buffer st"
  "rt_last_sync_at (update_gauges st) = rt_last_sync_at st"
  by (simp_all add: update_gauges_def)

lemma attempts_gauges [simp]: "attempts_ok (update_gauges st) \<longleftrightarrow> attempts_ok st"
  by (simp add: attempts_ok_def)

lemma flush_attempts: "attempts_ok st \<Longrightarrow> attempts_ok (fst (flush up clk st))"
proof -
  have "attempts_ok (fst so) \<Longrightarrow> attempts_ok (fst (flush_group up clk so gi))" for so gi
    by (cases so; cases gi) (auto simp: flush_group_def attempts_ok_def Let_def split: prod.split)
  then have "attempts_ok (fst so) \<Longrightarrow> attempts_ok (fst (foldl (flush_group up clk) so gis))" for so gis
    by (induction gis arbitrary: so) simp_all
  from this [of "(st\<lparr>rt_write_buffer := []\<rparr>, [])"] show "attempts_ok st \<Longrightarrow> ?thesis"
    by (simp add: flush_def attempts_ok_def)
qed

lemma round_pending [simp]:
  "rt_pending_pushes (snd (run_anti_entropy env rng net now st g gs since ras)) = rt_pending_pushes st"
  by (simp add: run_anti_entropy_def Let_def split: option.split sum.split prod.split)

lemma finish_pending [simp]: "rt_pending_pushes (finish_round g rs) = rt_pending_pushes (snd rs)"
  by (simp add: finish_round_def split: prod.split sum.split)

lemma sync_group_pending [simp]:
  "rt_pending_pushes (sync_group env rng nets now db_now gs st g) = rt_pending_pushes st"
  by (simp add: sync_group_def Let_def)

lemma sync_tick_pending [simp]:
  "rt_pending_pushes (sync_tick env rng nets now db_now st) = rt_pending_pushes st"
proof -
  have "rt_pending_pushes (foldl (sync_group env rng nets now db_now gs) st gs') = rt_pending_pushes st" for gs gs'
    by (induction gs' arbitrary: st) simp_all
  then show ?thesis
    by (simp add: sync_tick_def Let_def)
qed

lemma step_no_panic:
  assumes "attempts_ok st"
  shows "\<exists>st' out. repl_step env st ev = Some (st', out) \<and> attempts_ok st'"
proof (cases ev)
  case (RetryTick up now)
  obtain st' out where r: "retry_tick up now (update_gauges st) = Some (st', out)"
    "rt_pending_pushes st' = List.map_filter (advance now) (rt_pending_pushes st)"
    using retry_tick_advance [of "update_gauges st" up now] assms by auto
  have "attempts_ok st'"
    using assms advance_attempt by (force simp: attempts_ok_def r(2) map_filter_def)
  then show ?thesis
    using RetryTick r(1) by (simp add: repl_step_def Let_def)
next
  case (FlushTick up clk)
  then show ?thesis
    using flush_attempts [of "update_gauges st" up clk] assms
    by (cases "flush up clk (update_gauges st)") (simp add: repl_step_def Let_def)
next
  case (LocalWrite t notif)
  have "rt_pending_pushes (on_write_notification env t (update_gauges st) notif) = rt_pending_pushes st"
    by (simp add: on_write_notification_def Let_def split: option.split outbound_action.split)
  then show ?thesis
    using LocalWrite assms by (simp add: repl_step_def Let_def attempts_ok_def)
qed (use assms in \<open>simp_all add: repl_step_def Let_def attempts_ok_def bootstrap_sync_def gc_tick_def\<close>)

lemma run_no_panic:
  assumes "attempts_ok st"
  shows "\<exists>st' out. run_replication_loop env st evs = Some (st', out) \<and> attempts_ok st'"
  using assms
proof (induction evs arbitrary: st)
  case (Cons ev evs)
  obtain st1 out1 where "repl_step env st ev = Some (st1, out1)" "attempts_ok st1"
    using step_no_panic [OF Cons.prems, of env ev] by auto
  then show ?case
    using Cons.IH [of st1] by auto
qed simp

lemma retry_due:
  assumes "\<forall>p \<in> set (rt_pending_pushes st). k \<le> pp_attempt p \<and> pp_attempt p < 4 \<and> pp_next_at p \<le> t"
    and "from_secs 300 \<le> \<delta>"
  shows "\<exists>st' out. repl_step env st (RetryTick up t) = Some (st', out) \<and>
    (\<forall>p \<in> set (rt_pending_pushes st'). Suc k \<le> pp_attempt p \<and> pp_attempt p < 4 \<and> pp_next_at p \<le> t + \<delta>)"
proof -
  have "attempts_ok (update_gauges st)"
    using assms(1) by (simp add: attempts_ok_def)
  then obtain st' out where r: "retry_tick up t (update_gauges st) = Some (st', out)"
    "rt_pending_pushes st' = List.map_filter (advance t) (rt_pending_pushes st)"
    using retry_tick_advance [of "update_gauges st" up t] by auto
  have b: "from_secs ([5, 15, 60, 300] ! Suc n) \<le> \<delta>" if "n < 3" for n
    using that assms(2) by (auto simp: from_secs_def less_Suc_eq numeral_3_eq_3)
  have "Suc k \<le> pp_attempt q \<and> pp_attempt q < 4 \<and> pp_next_at q \<le> t + \<delta>"
    if "p \<in> set (rt_pending_pushes st)" "advance t p = Some q" for p q
    using that assms(1) b [of "pp_attempt p"] by (auto simp: advance_def split: if_splits)
  then show ?thesis
    using r by (auto simp: repl_step_def Let_def map_filter_def)
qed

text \<open>
  C25. Retries end. A task that starts with no pending push never panics, whatever the events: the
  index into the table of retry delays stays in range. From every state it reaches, four retry ticks
  after all deadlines, spaced by at least the longest delay, empty the queue, with peers or
  without; what is not delivered by then is left to anti-entropy.
\<close>

theorem pushes_expire:
  assumes "rt_pending_pushes st = []"
  shows "\<exists>st1 out1. run_replication_loop env st evs = Some (st1, out1) \<and>
    (\<forall>up t \<delta>. (\<forall>p \<in> set (rt_pending_pushes st1). pp_next_at p \<le> t) \<longrightarrow> from_secs 300 \<le> \<delta> \<longrightarrow>
      (\<exists>st2 out2. run_replication_loop env st1
          [RetryTick up t, RetryTick up (t + \<delta>), RetryTick up (t + \<delta> + \<delta>), RetryTick up (t + \<delta> + \<delta> + \<delta>)] =
        Some (st2, out2) \<and> rt_pending_pushes st2 = []))"
proof -
  have "attempts_ok st"
    using assms by (simp add: attempts_ok_def)
  then obtain st1 out1 where r: "run_replication_loop env st evs = Some (st1, out1)" "attempts_ok st1"
    using run_no_panic [of st env evs] by auto
  have "\<exists>st2 out2. run_replication_loop env st1
      [RetryTick up t, RetryTick up (t + \<delta>), RetryTick up (t + \<delta> + \<delta>), RetryTick up (t + \<delta> + \<delta> + \<delta>)] =
      Some (st2, out2) \<and> rt_pending_pushes st2 = []"
    if due: "\<forall>p \<in> set (rt_pending_pushes st1). pp_next_at p \<le> t" and \<delta>: "from_secs 300 \<le> \<delta>" for up t \<delta>
  proof -
    have 0: "\<forall>p \<in> set (rt_pending_pushes st1). 0 \<le> pp_attempt p \<and> pp_attempt p < 4 \<and> pp_next_at p \<le> t"
      using due r(2) by (simp add: attempts_ok_def)
    obtain s1 o1 where 1: "repl_step env st1 (RetryTick up t) = Some (s1, o1)"
      "\<forall>p \<in> set (rt_pending_pushes s1). Suc 0 \<le> pp_attempt p \<and> pp_attempt p < 4 \<and> pp_next_at p \<le> t + \<delta>"
      using retry_due [OF 0 \<delta>, of env up] by (elim exE conjE) (rule that)
    obtain s2 o2 where 2: "repl_step env s1 (RetryTick up (t + \<delta>)) = Some (s2, o2)"
      "\<forall>p \<in> set (rt_pending_pushes s2). Suc (Suc 0) \<le> pp_attempt p \<and> pp_attempt p < 4 \<and> pp_next_at p \<le> t + \<delta> + \<delta>"
      using retry_due [OF 1(2) \<delta>, of env up] by (elim exE conjE) (rule that)
    obtain s3 o3 where 3: "repl_step env s2 (RetryTick up (t + \<delta> + \<delta>)) = Some (s3, o3)"
      "\<forall>p \<in> set (rt_pending_pushes s3). Suc (Suc (Suc 0)) \<le> pp_attempt p \<and> pp_attempt p < 4 \<and> pp_next_at p \<le> t + \<delta> + \<delta> + \<delta>"
      using retry_due [OF 2(2) \<delta>, of env up] by (elim exE conjE) (rule that)
    obtain s4 o4 where 4: "repl_step env s3 (RetryTick up (t + \<delta> + \<delta> + \<delta>)) = Some (s4, o4)"
      "\<forall>p \<in> set (rt_pending_pushes s4). Suc (Suc (Suc (Suc 0))) \<le> pp_attempt p \<and> pp_attempt p < 4 \<and> pp_next_at p \<le> t + \<delta> + \<delta> + \<delta> + \<delta>"
      using retry_due [OF 3(2) \<delta>, of env up] by (elim exE conjE) (rule that)
    have "rt_pending_pushes s4 = []"
      using 4(2) by (cases "rt_pending_pushes s4") auto
    then show ?thesis
      using 1(1) 2(1) 3(1) 4(1) by simp
  qed
  then show ?thesis
    using r(1) by blast
qed

definition repl_env_w :: repl_env where
  "repl_env_w =
     \<lparr>re_lib = L_w, re_engine = eng_w, re_is_relay = False, re_blocked = [],
      re_parse_culture = (\<lambda>_. None)\<rparr>"

definition repl_w :: "db \<Rightarrow> peer_pool \<Rightarrow> repl_state" where
  "repl_w d pool =
     \<lparr>rt_db = d, rt_pool = pool, rt_stats = new_stats, rt_pending_pushes = [], rt_next_sync_at = [],
      rt_last_sync_at = [], rt_sync_cycle_count = [], rt_write_buffer = []\<rparr>"

definition notif_w :: write_notification where
  "notif_w =
     \<lparr>wn_item_id = ''i1'', wn_item_type = ''learning'', wn_group_id = Some ''g1'', wn_data = [1],
      wn_key_version = 1, wn_parent_id = None, wn_is_copy = False\<rparr>"

lemma flushed_w:
  "\<exists>st1 out1. run_replication_loop repl_env_w (repl_w db_w (new_pool []))
      [LocalWrite ''2026'' notif_w, FlushTick True (\<lambda>_. 0)] = Some (st1, out1) \<and>
    (\<exists>p. rt_pending_pushes st1 = [p] \<and> pp_next_at p = from_secs 5)"
  by (simp add: repl_step_def on_write_notification_def load_group_culture_def read_group_def
      repl_w_def db_w_def db_of_schema_def notif_w_def on_local_write_def MAX_ITEM_BYTES_def strategy_def
      default_group_culture_def unwrap_or_def flush_def flush_group_def new_pool_def
      active_peers_for_group_or_relays_def hm_values_def update_gauges_def Let_def)

theorem pushes_expire_witness:
  "\<exists>st1 out1 st2 out2. run_replication_loop repl_env_w (repl_w db_w (new_pool []))
      [LocalWrite ''2026'' notif_w, FlushTick True (\<lambda>_. 0)] = Some (st1, out1) \<and>
    rt_pending_pushes st1 \<noteq> [] \<and>
    run_replication_loop repl_env_w st1
      [RetryTick True (from_secs 5), RetryTick True (from_secs 5 + from_secs 300),
       RetryTick True (from_secs 5 + from_secs 300 + from_secs 300),
       RetryTick True (from_secs 5 + from_secs 300 + from_secs 300 + from_secs 300)] = Some (st2, out2) \<and>
    rt_pending_pushes st2 = []"
proof -
  obtain st1 out1 p where r: "run_replication_loop repl_env_w (repl_w db_w (new_pool []))
      [LocalWrite ''2026'' notif_w, FlushTick True (\<lambda>_. 0)] = Some (st1, out1)"
    "rt_pending_pushes st1 = [p]" "pp_next_at p = from_secs 5"
    using flushed_w by (elim exE conjE) (rule that)
  have "rt_pending_pushes (repl_w db_w (new_pool [])) = []"
    by (simp add: repl_w_def)
  from pushes_expire [OF this, of repl_env_w "[LocalWrite ''2026'' notif_w, FlushTick True (\<lambda>_. 0)]"]
  have "\<exists>st2 out2. run_replication_loop repl_env_w st1
      [RetryTick True (from_secs 5), RetryTick True (from_secs 5 + from_secs 300),
       RetryTick True (from_secs 5 + from_secs 300 + from_secs 300),
       RetryTick True (from_secs 5 + from_secs 300 + from_secs 300 + from_secs 300)] = Some (st2, out2) \<and>
    rt_pending_pushes st2 = []"
    using r by (simp del: run_replication_loop.simps)
  then show ?thesis
    using r(1,2) by (simp del: run_replication_loop.simps)
qed

section \<open>An anti-entropy round\<close>

lemma concat_chunks: "n \<noteq> 0 \<Longrightarrow> concat (chunks n xs) = xs"
proof (induction n xs rule: chunks.induct)
  case (1 n xs)
  then show ?case
    by (subst chunks.simps) auto
qed

lemma fetched_items:
  assumes "healthy L p"
  shows "frs_items (handle_fetch_request p \<lparr>fr_item_ids = ids\<rparr>) = List.map_filter (stored_items p) ids"
proof -
  have "read_l2_item p i = Ok (row_in p i)" for i
    using sq.read_row [OF assms, of undefined i] by (simp add: sqlite_store_def)
  then show ?thesis
    by (induction ids)
      (auto simp: handle_fetch_request_def stored_items_def replica_of_def split: option.split)
qed

lemma receive_fetched_db:
  "snd (receive_fetched env now gs ras cd x) =
   snd (on_receive (re_lib env) (re_engine env) (sqlite_store (re_lib env) now) (snd cd) x gs
     (map_option (\<lambda>s gid. gid \<in> set s) ras))"
  by (simp add: receive_fetched_def split: prod.split receive_outcome.split)

lemma map_filter_append: "List.map_filter f (xs @ ys) = List.map_filter f xs @ List.map_filter f ys"
  by (simp add: map_filter_def)

lemma fetch_chunks_honest:
  assumes "\<forall>i req. nt_fetch net i req = Ok (handle_fetch_request p req)" "\<forall>k d. nt_others net k d = d"
    and "healthy L p"
  shows "\<exists>c. fetch_chunks env net now gs ras peer k chs cd =
    (Ok c, foldl (\<lambda>d x. snd (on_receive (re_lib env) (re_engine env) (sqlite_store (re_lib env) now) d x gs
       (map_option (\<lambda>s gid. gid \<in> set s) ras))) (snd cd) (List.map_filter (stored_items p) (concat chs)))"
proof (induction chs arbitrary: k cd)
  case (Cons ch chs)
  have "snd (foldl (receive_fetched env now gs ras) cd xs) =
      foldl (\<lambda>d x. snd (on_receive (re_lib env) (re_engine env) (sqlite_store (re_lib env) now) d x gs
        (map_option (\<lambda>s gid. gid \<in> set s) ras))) (snd cd) xs" for xs
    by (induction xs arbitrary: cd) (simp_all add: receive_fetched_db)
  then show ?case
    using Cons.IH [of "k + 1" "foldl (receive_fetched env now gs ras) cd (List.map_filter (stored_items p) ch)"] assms(1,2)
    by (simp add: fetched_items [OF assms(3)] map_filter_append)
qed simp

lemma served_headers:
  assumes "db_fault p OpListGroupItems = None"
  shows "srs_items (handle_sync_request p \<lparr>sr_group_id = g, sr_since = since, sr_limit = limit\<rparr>) =
    map header_of_l2 (take (unat limit) (group_rows p g since))"
  using assms by (simp add: handle_sync_request_def list_group_items_rows result_or_def Let_def comp_def)

lemma header_map_get:
  "hm_get (header_map hs) i = Some cs \<Longrightarrow> \<exists>h \<in> set hs. ih_item_id h = i \<and> ih_checksum h = cs"
proof -
  have "hm_get (foldl (\<lambda>m h. hm_insert (ih_item_id h) (ih_checksum h) m) m hs) i = Some cs \<Longrightarrow>
      hm_get m i = Some cs \<or> (\<exists>h \<in> set hs. ih_item_id h = i \<and> ih_checksum h = cs)" for m
    by (induction hs arbitrary: m) (fastforce simp: hm_get_simps split: if_splits)+
  from this [of "[]"] show "hm_get (header_map hs) i = Some cs \<Longrightarrow> ?thesis"
    by (simp add: header_map_def)
qed

lemma page_item:
  assumes "healthy L p" "(i, c) \<in> set (take n (group_rows p g since))"
  shows "stored_items p i = Some (item_of_row (row_of_l2 i c))" "hm_get (l2_items p) i = Some c"
proof -
  have "(i, c) \<in> set (group_rows p g since)"
    using assms(2) by (rule in_set_takeD)
  then show "hm_get (l2_items p) i = Some c"
    using group_rows_iff [of L p i c g since] assms(1) by (simp add: healthy_def)
  then show "stored_items p i = Some (item_of_row (row_of_l2 i c))"
    by (simp add: stored_items_def replica_of_def row_in_def)
qed

lemma item_checksum: "fi_checksum (item_of_row (row_of_l2 i c)) = ih_checksum (header_of_l2 (i, c))"
  "fi_item_id (item_of_row (row_of_l2 i c)) = i" "fi_item_type (item_of_row (row_of_l2 i c)) = l2_type c"
  by (simp_all add: item_of_row_def row_of_l2_def header_of_l2_def)

definition honest_peer :: "peer_net \<Rightarrow> db \<Rightarrow> bool" where
  "honest_peer net p \<longleftrightarrow>
     (\<forall>i req. nt_sync net i req = Ok (handle_sync_request p req)) \<and>
     (\<forall>i req. nt_fetch net i req = Ok (handle_fetch_request p req)) \<and>
     (\<forall>k d. nt_others net k d = d)"

definition chosen_peer :: "repl_env \<Rightarrow> (nat \<Rightarrow> nat) \<Rightarrow> repl_state \<Rightarrow> string \<Rightarrow> peer_handle option" where
  "chosen_peer env rng st g =
     (if re_is_relay env then random_hot_peer_for_group_or_relays rng (rt_pool st) g
      else random_hot_peer_for_group rng (rt_pool st) g)"

text \<open>What a round against an honest peer comes down to.\<close>

lemma honest_round:
  assumes "honest_peer net p" "chosen_peer env rng st g = Some peer"
    and "healthy (re_lib env) (rt_db st)" "healthy (re_lib env) p"
    and "engine_max_batch_size (re_engine env) = limit" "limit \<noteq> 0"
    and "page = take (unat limit) (group_rows p g since)"
    and "own = map header_of_l2 (take (unat limit) (group_rows (rt_db st) g since))"
  shows "\<exists>st'. run_anti_entropy env rng net now st g gs since ras =
      (Ok (max_str (map (\<lambda>r. l2_updated_at (snd r)) page)), st') \<and>
    rt_db st' = foldl (\<lambda>d x. snd (on_receive (re_lib env) (re_engine env) (sqlite_store (re_lib env) now) d x gs
       (map_option (\<lambda>s gid. gid \<in> set s) ras))) (rt_db st)
       (List.map_filter (stored_items p) (diff_headers own (map header_of_l2 page))) \<and>
    rt_last_sync_at st' = rt_last_sync_at st \<and> rt_sync_cycle_count st' = rt_sync_cycle_count st \<and>
    rt_next_sync_at st' = rt_next_sync_at st \<and> rt_pool st' = rt_pool st"
proof -
  let ?recv = "\<lambda>d x. snd (on_receive (re_lib env) (re_engine env) (sqlite_store (re_lib env) now) d x gs
    (map_option (\<lambda>s gid. gid \<in> set s) ras))"
  let ?needed = "diff_headers own (map header_of_l2 page)"
  have f: "db_fault p OpListGroupItems = None" "db_fault (rt_db st) OpListGroupItems = None"
    using assms(3,4) by (simp_all add: healthy_def)
  have h: "nt_sync net (ph_node_id peer) \<lparr>sr_group_id = g, sr_since = since, sr_limit = limit\<rparr> =
      Ok (handle_sync_request p \<lparr>sr_group_id = g, sr_since = since, sr_limit = limit\<rparr>)"
    "nt_others net 0 (rt_db st) = rt_db st"
    using assms(1) by (simp_all add: honest_peer_def)
  have own: "list_group_items (rt_db st) g since limit = Ok own"
    using f(2) assms(8) by (simp add: list_group_items_rows)
  have ts: "map (ih_updated_at \<circ> header_of_l2) page = map (\<lambda>r. l2_updated_at (snd r)) page"
    by (simp add: split_beta)
  obtain c where c: "fetch_chunks env net now gs ras (ph_node_id peer) 1 (chunks (unat limit) ?needed)
      (\<lparr>cnt_stored = 0, cnt_rejected = 0, cnt_duplicate = 0\<rparr>, rt_db st) =
      (Ok c, foldl ?recv (rt_db st) (List.map_filter (stored_items p) ?needed))"
    using fetch_chunks_honest [of net p "re_lib env" env now gs ras "ph_node_id peer" 1 "chunks (unat limit) ?needed"
        "(\<lparr>cnt_stored = 0, cnt_rejected = 0, cnt_duplicate = 0\<rparr>, rt_db st)"]
      assms(1,4,6) concat_chunks [of "unat limit" ?needed]
    by (auto simp: honest_peer_def unat_eq_zero)
  show ?thesis
  proof (cases "?needed = []")
    case True
    then show ?thesis
      using assms(2,5) h own
      by (simp add: run_anti_entropy_def chosen_peer_def [symmetric] Let_def served_headers [OF f(1)] assms(7) [symmetric] ts)
  next
    case False
    then show ?thesis
      using assms(2,5,6) h own c
      by (simp add: run_anti_entropy_def chosen_peer_def [symmetric] Let_def served_headers [OF f(1)] assms(7) [symmetric] ts)
  qed
qed

lemma page_not_tombstone:
  assumes "healthy L p" "stored_items p i = Some x"
  shows "fi_item_id x = i \<and> fi_item_type x \<noteq> TOMBSTONE_TYPE"
proof -
  obtain c where c: "hm_get (l2_items p) i = Some c" "x = item_of_row (row_of_l2 i c)"
    using assms(2) by (auto simp: stored_items_def replica_of_def row_in_def)
  then have "check_l2_type (l2_type c)"
    using inv_l2_row [of L p i c] assms(1) by (simp add: healthy_def l2_row_ok_def)
  then show ?thesis
    by (auto simp: c(2) item_checksum check_l2_type_def TOMBSTONE_TYPE_def)
qed

lemma set_map_filter: "x \<in> set (List.map_filter f ids) \<longleftrightarrow> (\<exists>i \<in> set ids. f i = Some x)"
  by (induction ids) (auto split: option.split)

lemma map_filter_stored:
  assumes "healthy L p"
  shows "map fi_item_id (List.map_filter (stored_items p) ids) = filter (\<lambda>i. stored_items p i \<noteq> None) ids"
    "x \<in> set (List.map_filter (stored_items p) ids) \<longleftrightarrow> fi_item_id x \<in> set ids \<and> stored_items p (fi_item_id x) = Some x"
proof -
  have k: "fi_item_id y = i" if "stored_items p i = Some y" for i y
    using page_not_tombstone [OF assms that] by simp
  show "map fi_item_id (List.map_filter (stored_items p) ids) = filter (\<lambda>i. stored_items p i \<noteq> None) ids"
    by (induction ids) (simp_all split: option.split add: k)
  show "x \<in> set (List.map_filter (stored_items p) ids) \<longleftrightarrow> fi_item_id x \<in> set ids \<and> stored_items p (fi_item_id x) = Some x"
    unfolding set_map_filter using k by blast
qed

lemma same_checksum_settled:
  assumes "stored_items d i = Some y" "fi_checksum y = fi_checksum x" "fi_item_id x = i" "fi_item_type x \<noteq> TOMBSTONE_TYPE"
  shows "settled L gs ra d x"
  using assms by (simp add: settled_def wins_def)

lemma settled_spelled:
  "settled L gs ra d x \<Longrightarrow> admissible L gs ra x \<Longrightarrow>
   \<exists>y. stored_items d (fi_item_id x) = Some y \<and> (fi_checksum y = fi_checksum x \<or> fi_updated_at x \<le> fi_updated_at y)"
  by (auto simp: settled_def wins_def split: option.splits)

lemma not_in_diff:
  assumes "h \<in> set remote" "ih_item_id h \<notin> set (diff_headers local remote)"
  shows "hm_get (header_map local) (ih_item_id h) = Some (ih_checksum h)"
  using assms by (cases "hm_get (header_map local) (ih_item_id h)") (auto simp: diff_headers_def Let_def)

text \<open>An item of the page that is not asked for is stored locally with the same checksum.\<close>

lemma skipped_settled:
  assumes "healthy L d" "healthy L p" "(i, c) \<in> set (take n (group_rows p g since))"
    and "i \<notin> set (diff_headers (map header_of_l2 (take m (group_rows d g since)))
      (map header_of_l2 (take n (group_rows p g since))))"
  shows "settled L gs ra d (item_of_row (row_of_l2 i c))"
proof -
  let ?own = "map header_of_l2 (take m (group_rows d g since))"
  have "header_of_l2 (i, c) \<in> set (map header_of_l2 (take n (group_rows p g since)))"
    using assms(3) by (simp del: set_take_subset)
  from not_in_diff [OF this, of ?own] have "hm_get (header_map ?own) i = Some (ih_checksum (header_of_l2 (i, c)))"
    using assms(4) by simp
  then obtain h where h: "h \<in> set ?own" "ih_item_id h = i" "ih_checksum h = ih_checksum (header_of_l2 (i, c))"
    by (blast dest: header_map_get)
  then obtain c' where c': "(i, c') \<in> set (take m (group_rows d g since))" "h = header_of_l2 (i, c')"
    by auto
  show ?thesis
  proof (rule same_checksum_settled [OF page_item(1) [OF assms(1) c'(1)]])
    show "fi_checksum (item_of_row (row_of_l2 i c')) = fi_checksum (item_of_row (row_of_l2 i c))"
      using h(3) c'(2) by (simp only: item_checksum)
    show "fi_item_id (item_of_row (row_of_l2 i c)) = i"
      by (rule item_checksum)
    show "fi_item_type (item_of_row (row_of_l2 i c)) \<noteq> TOMBSTONE_TYPE"
      using page_not_tombstone [OF assms(2) page_item(1) [OF assms(2,3)]] by simp
  qed
qed

lemma page_batch:
  assumes "healthy L p"
  defines "needed n g since own \<equiv> diff_headers own (map header_of_l2 (take n (group_rows p g since)))"
  shows "distinct (map fi_item_id (List.map_filter (stored_items p) (needed n g since own)))"
    "\<forall>x \<in> set (List.map_filter (stored_items p) (needed n g since own)). fi_item_type x \<noteq> TOMBSTONE_TYPE"
    "fi_item_id ` set (List.map_filter (stored_items p) (needed n g since own)) \<subseteq> set (needed n g since own)"
    "set (needed n g since own) \<subseteq> fst ` set (take n (group_rows p g since))"
proof -
  have "distinct (map fst (take n (group_rows p g since)))"
    using group_rows_distinct [of L p g since] assms(1) unfolding healthy_def
    by (simp add: take_map [symmetric] del: take_map)
  then have needed: "distinct (needed n g since own)"
    by (auto simp: needed_def diff_headers_def Let_def comp_def distinct_map_filter filter_map)
  then show "distinct (map fi_item_id (List.map_filter (stored_items p) (needed n g since own)))"
    "fi_item_id ` set (List.map_filter (stored_items p) (needed n g since own)) \<subseteq> set (needed n g since own)"
    unfolding map_filter_stored(1) [OF assms(1)] set_map [symmetric] by auto
  show "set (needed n g since own) \<subseteq> fst ` set (take n (group_rows p g since))"
    by (force simp: needed_def diff_headers_def Let_def)
  show "\<forall>x \<in> set (List.map_filter (stored_items p) (needed n g since own)). fi_item_type x \<noteq> TOMBSTONE_TYPE"
    unfolding Ball_def set_map_filter using page_not_tombstone [OF assms(1)] by blast
qed

text \<open>
  C24. What a round of anti-entropy achieves. With a peer that answers from its own database, and
  no other task writing meanwhile, a round succeeds; afterwards every item of the peer's page
  (its oldest items of the group after the cursor, at most a batch) that is admissible here is
  stored here in a version with the same content or at least as new, and items outside the
  page are as before.
\<close>

theorem anti_entropy_round:
  assumes "honest_peer net p" and "chosen_peer env rng st g = Some peer"
    and "healthy (re_lib env) (rt_db st)" and "healthy (re_lib env) p"
    and "engine_max_batch_size (re_engine env) = limit" and "limit \<noteq> 0"
  shows "\<exists>ts st'. run_anti_entropy env rng net now st g gs since ras = (Ok ts, st') \<and>
    (\<forall>(i, c) \<in> set (take (unat limit) (group_rows p g since)). \<forall>x. stored_items p i = Some x \<longrightarrow>
       admissible (re_lib env) gs (map_option (\<lambda>s gid. gid \<in> set s) ras) x \<longrightarrow>
       (\<exists>y. stored_items (rt_db st') i = Some y \<and>
          (fi_checksum y = fi_checksum x \<or> fi_updated_at x \<le> fi_updated_at y))) \<and>
    (\<forall>j. j \<notin> fst ` set (take (unat limit) (group_rows p g since)) \<longrightarrow>
       stored_items (rt_db st') j = stored_items (rt_db st) j)"
proof -
  let ?L = "re_lib env" and ?ra = "map_option (\<lambda>s gid. gid \<in> set s) ras" and ?d = "rt_db st"
  define page where "page = take (unat limit) (group_rows p g since)"
  define own where "own = map header_of_l2 (take (unat limit) (group_rows ?d g since))"
  define needed where "needed = diff_headers own (map header_of_l2 page)"
  define xs where "xs = List.map_filter (stored_items p) needed"
  obtain st' where run: "run_anti_entropy env rng net now st g gs since ras =
      (Ok (max_str (map (\<lambda>r. l2_updated_at (snd r)) page)), st')"
    and db: "rt_db st' = foldl (\<lambda>d x. snd (on_receive ?L (re_engine env) (sqlite_store ?L now) d x gs ?ra)) ?d xs"
    using honest_round [OF assms page_def own_def, of now gs ras, folded needed_def, folded xs_def]
    by (elim exE conjE) (rule that)
  note ids = page_batch [OF assms(4), where n = "unat limit" and g = g and since = since and own = own, folded page_def, folded needed_def, folded xs_def]
  note batch = receive_batch_settles [OF assms(3) ids(1,2), of "re_engine env" now gs ?ra, folded db]
  have kept: "stored_items (rt_db st') j = stored_items ?d j" if "j \<notin> set needed" for j
    using batch that ids(3) by blast
  have "settled ?L gs ?ra (rt_db st') (item_of_row (row_of_l2 i c))" if "(i, c) \<in> set page" for i c
  proof (cases "i \<in> set needed")
    case True
    then have "item_of_row (row_of_l2 i c) \<in> set xs"
      using page_item(1) [OF assms(4)] that map_filter_stored(2) [OF assms(4)]
      by (simp add: xs_def page_def item_checksum)
    then show ?thesis
      using batch by simp
  next
    case False
    then have "settled ?L gs ?ra ?d (item_of_row (row_of_l2 i c))"
      using that unfolding needed_def own_def page_def by (intro skipped_settled [OF assms(3,4)])
    then show ?thesis
      using kept [OF False] by (simp add: settled_def item_checksum)
  qed
  then have page: "\<exists>y. stored_items (rt_db st') i = Some y \<and>
      (fi_checksum y = fi_checksum x \<or> fi_updated_at x \<le> fi_updated_at y)"
    if "(i, c) \<in> set page" "stored_items p i = Some x" "admissible ?L gs ?ra x" for i c x
    using settled_spelled [of ?L gs ?ra "rt_db st'" x] that page_item(1) [OF assms(4)]
    by (auto simp: page_def item_checksum)
  have "\<forall>j. j \<notin> fst ` set page \<longrightarrow> stored_items (rt_db st') j = stored_items ?d j"
    using kept ids(4) by auto
  then show ?thesis
    unfolding page_def [symmetric] using run page by (intro exI conjI) auto
qed

definition db_one_w :: db where
  "db_one_w = snd (write_l2_item L_w ''t'' db_w item_w)"

definition row_w :: l2_cols where
  "row_w = upsert_l2 L_w ''t'' item_w None"

lemma db_one_w_evals:
  "l2_items db_one_w = [(''i1'', row_w)]" "healthy L_w db_one_w"
  "group_rows db_one_w ''g1'' None = [(''i1'', row_w)]"
  by (simp_all add: db_one_w_def row_w_def write_l2_item_def item_w_def db_w_def db_of_schema_def healthy_def
      schema_checks upsert_l2_def db_inv_defs hm_wf_def l2_row_ok_def group_rows_def since_ok_def)

lemma row_w_admissible: "admissible L_w [''g1''] None (item_of_row (row_of_l2 ''i1'' row_w))"
  by (simp add: admissible_def item_of_row_def row_of_l2_def row_w_def upsert_l2_def item_w_def
      group_accepted_def validate_checksum_def checksum_def storage_checksum_def unwrap_or_def
      check_l2_type_def MAX_ITEM_BYTES_def)

definition net_w :: "db \<Rightarrow> peer_net" where
  "net_w p =
     \<lparr>nt_sync = (\<lambda>_ req. Ok (handle_sync_request p req)),
      nt_fetch = (\<lambda>_ req. Ok (handle_fetch_request p req)), nt_others = (\<lambda>_ d. d)\<rparr>"

lemma net_w_honest: "honest_peer (net_w p) p"
  by (simp add: honest_peer_def net_w_def)

lemma chosen_w: "chosen_peer repl_env_w (\<lambda>_. 0) (repl_w d pool_w) ''g1'' = Some (snd (handle_w 2 Hot False))"
  by (simp add: chosen_peer_def repl_env_w_def repl_w_def random_hot_peer_for_group_def
      hot_peers_for_group_def pick_def pool_w_def handle_w_def hm_values_def)

theorem anti_entropy_round_witness:
  "\<exists>ts st' y. run_anti_entropy repl_env_w (\<lambda>_. 0) (net_w db_one_w) ''t'' (repl_w db_w pool_w) ''g1'' [''g1''] None None =
      (Ok ts, st') \<and> stored_items (rt_db st') ''i1'' = Some y"
proof -
  have h: "healthy (re_lib repl_env_w) (rt_db (repl_w db_w pool_w))" "healthy (re_lib repl_env_w) db_one_w"
    "engine_max_batch_size (re_engine repl_env_w) = 100"
    by (simp_all add: repl_env_w_def repl_w_def healthy_w db_one_w_evals eng_w_def engine_max_batch_size_def
        default_replication_config_def MAX_BATCH_SIZE_def)
  show ?thesis
    using anti_entropy_round [OF net_w_honest chosen_w h, of "''t''" "[''g1'']" None None]
      page_item(1) [OF db_one_w_evals(2), of "''i1''" row_w 100 "''g1''" None] row_w_admissible
    by (fastforce simp: db_one_w_evals repl_env_w_def)
qed

lemma honest_round_healthy:
  assumes "honest_peer net p" "chosen_peer env rng st g = Some peer"
    and "healthy (re_lib env) (rt_db st)" "healthy (re_lib env) p"
    and "engine_max_batch_size (re_engine env) = limit" "limit \<noteq> 0"
  shows "\<exists>st'. run_anti_entropy env rng net now st g gs since ras =
      (Ok (max_str (map (\<lambda>r. l2_updated_at (snd r)) (take (unat limit) (group_rows p g since)))), st') \<and>
    healthy (re_lib env) (rt_db st') \<and>
    rt_last_sync_at st' = rt_last_sync_at st \<and> rt_sync_cycle_count st' = rt_sync_cycle_count st \<and>
    rt_pool st' = rt_pool st"
  using honest_round [OF assms refl refl, where since = since and now = now and gs = gs and ras = ras]
    receive_batch_settles [OF assms(3) page_batch(1,2) [OF assms(4)]]
  by auto

section \<open>How far anti-entropy reaches\<close>

abbreviation row_time :: "string \<times> l2_cols \<Rightarrow> string" where
  "row_time r \<equiv> l2_updated_at (snd r)"

lemma rows_after: "group_rows p g (Some t) = filter (\<lambda>r. t < row_time r) (group_rows p g None)"
  unfolding group_rows_def filter_sort filter_filter
  by (rule arg_cong [where f = "sort_key _"], rule filter_cong) (auto simp: since_ok_def)

lemma strict_filter_drop:
  assumes "sorted_wrt (\<lambda>x y. f x < f y) xs" "0 < j" "j \<le> length xs"
  shows "filter (\<lambda>x. f (xs ! (j - 1)) < (f x :: 'b :: linorder)) xs = drop j xs"
proof -
  have less: "f (xs ! a) < f (xs ! b)" if "a < b" "b < length xs" for a b
    using assms(1) that by (simp add: sorted_wrt_iff_nth_less)
  have "filter (\<lambda>x. f (xs ! (j - 1)) < f x) (take j xs) = []"
  proof (rule filter_False, rule ballI)
    fix x
    assume "x \<in> set (take j xs)"
    then obtain k where k: "k < j" "x = xs ! k"
      using assms(3) by (auto simp: in_set_conv_nth)
    then show "\<not> f (xs ! (j - 1)) < f x"
      using less [of k "j - 1"] assms(2,3) by (cases "k = j - 1") (simp_all add: not_less less_imp_le)
  qed
  moreover have "filter (\<lambda>x. f (xs ! (j - 1)) < f x) (drop j xs) = drop j xs"
  proof (rule filter_True, rule ballI)
    fix x
    assume "x \<in> set (drop j xs)"
    then obtain k where "k < length xs - j" "x = xs ! (j + k)"
      by (auto simp: in_set_conv_nth)
    then show "f (xs ! (j - 1)) < f x"
      using less [of "j - 1" "j + k"] assms(2) by simp
  qed
  ultimately have "filter (\<lambda>x. f (xs ! (j - 1)) < f x) (take j xs @ drop j xs) = drop j xs"
    unfolding filter_append by simp
  then show ?thesis
    by simp
qed

lemma max_str_sorted: "sorted ts \<Longrightarrow> max_str ts = (if ts = [] then None else Some (last ts))"
proof -
  assume s: "sorted ts"
  have "Max (set ts) = last ts" if "ts \<noteq> []"
  proof (rule Max_eqI)
    show "y \<le> last ts" if "y \<in> set ts" for y
      using that s by (auto simp: sorted_iff_nth_mono in_set_conv_nth last_conv_nth \<open>ts \<noteq> []\<close>)
  qed (use that in simp_all)
  then show ?thesis
    by (simp add: max_str_def)
qed

text \<open>The cursor after \<open>m\<close> pages of size \<open>n\<close>.\<close>

definition cursor :: "(string \<times> l2_cols) list \<Rightarrow> nat \<Rightarrow> nat \<Rightarrow> string option" where
  "cursor rows n m = (if m = 0 then None else Some (row_time (rows ! (min (length rows) (m * n) - 1))))"

lemma page_after_cursor:
  assumes "sorted_wrt (\<lambda>x y. row_time x < row_time y) (group_rows p g None)" "group_rows p g None \<noteq> []" "0 < n"
  shows "group_rows p g (cursor (group_rows p g None) n m) = drop (m * n) (group_rows p g None)"
proof (cases "m = 0")
  case False
  let ?rows = "group_rows p g None" and ?j = "min (length (group_rows p g None)) (m * n)"
  have "filter (\<lambda>x. row_time (?rows ! (?j - 1)) < row_time x) ?rows = drop ?j ?rows"
    using assms(2,3) False by (intro strict_filter_drop [OF assms(1)]) simp_all
  moreover have "cursor ?rows n m = Some (row_time (?rows ! (?j - 1)))" "drop ?j ?rows = drop (m * n) ?rows"
    using False by (simp_all add: cursor_def min_def)
  ultimately show ?thesis
    by (simp only: rows_after)
qed (simp add: cursor_def)

lemma cursor_step:
  assumes "sorted_wrt (\<lambda>x y. row_time x < row_time y) rows" "rows \<noteq> []" "0 < n"
  shows "(case max_str (map row_time (take n (drop (m * n) rows))) of
      Some t \<Rightarrow> Some t | None \<Rightarrow> cursor rows n m) = cursor rows n (Suc m)"
proof -
  have s: "sorted (map row_time rows)"
    unfolding sorted_map by (rule sorted_wrt_mono_rel [OF _ assms(1)]) (rule less_imp_le)
  then have "sorted (map row_time (take n (drop (m * n) rows)))"
    by (simp add: take_map [symmetric] drop_map [symmetric] sorted_wrt_take sorted_wrt_drop del: take_map drop_map)
  note max = max_str_sorted [OF this]
  show ?thesis
  proof (cases "m * n < length rows")
    case True
    then have ne: "take n (drop (m * n) rows) \<noteq> []"
      using assms(3) by simp
    have "last (take n (drop (m * n) rows)) = rows ! (min (length rows) (Suc m * n) - 1)"
      using ne True by (simp add: last_conv_nth min_def algebra_simps split: if_splits) (auto simp: algebra_simps)
    then show ?thesis
      using ne by (simp add: max cursor_def last_map)
  next
    case False
    then have "m \<noteq> 0"
      using assms(2) by (cases m) auto
    then show ?thesis
      using False by (simp add: max_str_def cursor_def min_def)
  qed
qed

lemma cycle_mod:
  assumes "(c + 1) mod FULL_SYNC_EVERY \<noteq> (0 :: u32)"
  shows "unat ((c + 1) mod FULL_SYNC_EVERY) = Suc (unat (c mod FULL_SYNC_EVERY))"
proof -
  have "c + 1 \<noteq> 0"
    using assms by auto
  then have "unat (c + 1) = Suc (unat c)"
    by (simp add: unatSuc add.commute)
  moreover have "unat ((c + 1) mod FULL_SYNC_EVERY) \<noteq> 0"
    using assms by (simp add: unat_eq_zero)
  ultimately show ?thesis
    by (simp add: FULL_SYNC_EVERY_def unat_mod_distrib mod_Suc split: if_splits)
qed

text \<open>The cursor of the next round of a group.\<close>

definition next_since :: "repl_state \<Rightarrow> string \<Rightarrow> string option" where
  "next_since st g =
     (if (unwrap_or (hm_get (rt_sync_cycle_count st) g) 0 + 1) mod FULL_SYNC_EVERY = 0 then None
      else hm_get (rt_last_sync_at st) g)"

definition within_horizon :: "repl_env \<Rightarrow> (nat \<Rightarrow> nat) \<Rightarrow> db \<Rightarrow> string \<Rightarrow> nat \<Rightarrow> repl_state \<Rightarrow> bool" where
  "within_horizon env rng p g n st \<longleftrightarrow>
     healthy (re_lib env) (rt_db st) \<and> chosen_peer env rng st g \<noteq> None \<and>
     (\<exists>m. m \<le> Suc (unat (unwrap_or (hm_get (rt_sync_cycle_count st) g) 0 mod FULL_SYNC_EVERY)) \<and>
        hm_get (rt_last_sync_at st) g = cursor (group_rows p g None) n m)"

lemma next_since_cursor:
  assumes "within_horizon env rng p g n st"
  shows "\<exists>m. m \<le> unat ((unwrap_or (hm_get (rt_sync_cycle_count st) g) 0 + 1) mod FULL_SYNC_EVERY) \<and>
    next_since st g = cursor (group_rows p g None) n m"
proof -
  let ?c = "unwrap_or (hm_get (rt_sync_cycle_count st) g) 0"
  show ?thesis
  proof (cases "(?c + 1) mod FULL_SYNC_EVERY = 0")
    case True
    then show ?thesis
      by (intro exI [of _ 0]) (simp add: next_since_def cursor_def)
  next
    case False
    obtain m where "m \<le> Suc (unat (?c mod FULL_SYNC_EVERY))"
      "hm_get (rt_last_sync_at st) g = cursor (group_rows p g None) n m"
      using assms unfolding within_horizon_def by (elim exE conjE) (rule that)
    then show ?thesis
      using False cycle_mod [OF False] by (intro exI [of _ m]) (simp add: next_since_def)
  qed
qed

lemma sync_group_horizon:
  assumes "honest_peer net p" "healthy (re_lib env) p"
    and "unat (engine_max_batch_size (re_engine env)) = n" "0 < n"
    and "sorted_wrt (\<lambda>x y. row_time x < row_time y) (group_rows p g None)" "group_rows p g None \<noteq> []"
    and h: "within_horizon env rng p g n st"
  shows "within_horizon env rng p g n (sync_group env rng (\<lambda>_. net) now db_now gs st g)"
proof (cases "case hm_get (rt_next_sync_at st) g of Some deadline \<Rightarrow> now < deadline | None \<Rightarrow> False")
  case True
  then show ?thesis
    using h by (simp add: sync_group_def)
next
  case False
  let ?c = "unwrap_or (hm_get (rt_sync_cycle_count st) g) 0 + 1" and ?rows = "group_rows p g None"
  let ?ras = "if re_is_relay env then Some gs else None"
  define st1 where "st1 = st\<lparr>rt_next_sync_at := hm_insert g (now + from_secs (sync_interval (re_engine env)
      (unwrap_or (load_group_culture env (rt_db st) g) default_group_culture))) (rt_next_sync_at st),
    rt_sync_cycle_count := hm_insert g ?c (rt_sync_cycle_count st)\<rparr>"
  have run: "sync_group env rng (\<lambda>_. net) now db_now gs st g =
      finish_round g (run_anti_entropy env rng net db_now st1 g gs (next_since st g) ?ras)"
    using False unfolding sync_group_def st1_def next_since_def by (simp add: Let_def)
  have st1: "rt_db st1 = rt_db st" "rt_pool st1 = rt_pool st" "rt_last_sync_at st1 = rt_last_sync_at st"
    "hm_get (rt_sync_cycle_count st1) g = Some ?c"
    by (simp_all add: st1_def hm_get_simps)
  obtain peer where "chosen_peer env rng st g = Some peer"
    using h by (auto simp: within_horizon_def)
  then have peer: "chosen_peer env rng st1 g = Some peer"
    by (simp add: chosen_peer_def st1 split: if_splits)
  have healthy: "healthy (re_lib env) (rt_db st1)"
    using h by (simp add: within_horizon_def st1)
  obtain m where m: "m \<le> unat (?c mod FULL_SYNC_EVERY)" "next_since st g = cursor ?rows n m"
    using next_since_cursor [OF h] by (elim exE conjE) (rule that)
  have page: "take n (group_rows p g (next_since st g)) = take n (drop (m * n) ?rows)"
    using page_after_cursor [OF assms(5,6,4)] m(2) by simp
  have limit: "engine_max_batch_size (re_engine env) \<noteq> 0"
    using assms(3,4) by auto
  obtain st2 where r: "run_anti_entropy env rng net db_now st1 g gs (next_since st g) ?ras =
      (Ok (max_str (map row_time (take n (drop (m * n) ?rows)))), st2)"
    "healthy (re_lib env) (rt_db st2)" "rt_last_sync_at st2 = rt_last_sync_at st1"
    "rt_sync_cycle_count st2 = rt_sync_cycle_count st1" "rt_pool st2 = rt_pool st1"
    using honest_round_healthy [OF assms(1) peer healthy assms(2) refl limit, where since = "next_since st g" and
        now = db_now and gs = gs and ras = ?ras, unfolded assms(3) page]
    by (elim exE conjE) (rule that)
  define st3 where "st3 = finish_round g (run_anti_entropy env rng net db_now st1 g gs (next_since st g) ?ras)"
  have last: "hm_get (rt_last_sync_at st3) g = (case max_str (map row_time (take n (drop (m * n) ?rows))) of
      Some t \<Rightarrow> Some t | None \<Rightarrow> hm_get (rt_last_sync_at st) g)"
    unfolding st3_def r(1) by (simp add: finish_round_def r(3) st1(3) hm_get_simps split: option.split)
  have old: "hm_get (rt_last_sync_at st) g = cursor ?rows n m" if "length ?rows \<le> m * n"
    using that m(2) assms(6) by (cases "m = 0") (auto simp: next_since_def cursor_def split: if_splits)
  have "hm_get (rt_last_sync_at st3) g = cursor ?rows n (Suc m)"
  proof (cases "m * n < length ?rows")
    case True
    then obtain t where "max_str (map row_time (take n (drop (m * n) ?rows))) = Some t"
      using assms(4) by (simp add: max_str_def)
    then show ?thesis
      using last cursor_step [OF assms(5,6,4), of m] by simp
  next
    case False
    then show ?thesis
      using last old cursor_step [OF assms(5,6,4), of m] by (simp add: max_str_def)
  qed
  moreover have "healthy (re_lib env) (rt_db st3)" "rt_pool st3 = rt_pool st" "hm_get (rt_sync_cycle_count st3) g = Some ?c"
    unfolding st3_def r(1) using r st1 by (simp_all add: finish_round_def split: option.split)
  ultimately have "within_horizon env rng p g n st3"
    using h m(1) by (auto simp: within_horizon_def chosen_peer_def unwrap_or_def intro!: exI [of _ "Suc m"])
  then show ?thesis
    by (simp only: run st3_def)
qed

text \<open>
  C26. The horizon of anti-entropy. Every tenth round of a group is a full one, which starts from the
  oldest item, fetches at most one page and sets the cursor back to the end of that page. Against
  a peer that always answers, a node that has not synced the group before asks in no round for
  more than the ten oldest pages: items beyond them are never reached by anti-entropy, however
  many rounds it runs.
\<close>

theorem anti_entropy_horizon:
  assumes "honest_peer net p" and "healthy (re_lib env) p"
    and "unat (engine_max_batch_size (re_engine env)) = n" and "0 < n"
    and "sorted_wrt (\<lambda>x y. row_time x < row_time y) (group_rows p g None)" and "group_rows p g None \<noteq> []"
    and "healthy (re_lib env) (rt_db st)" and "chosen_peer env rng st g \<noteq> None"
    and "hm_get (rt_last_sync_at st) g = None" and "hm_get (rt_sync_cycle_count st) g = None"
  shows "set (take n (group_rows p g (next_since
      (foldl (\<lambda>st now. sync_group env rng (\<lambda>_. net) now db_now gs st g) st nows) g)))
    \<subseteq> set (take (10 * n) (group_rows p g None))"
proof -
  let ?st = "foldl (\<lambda>st now. sync_group env rng (\<lambda>_. net) now db_now gs st g) st nows"
  have "within_horizon env rng p g n st"
    using assms(7-10) by (auto simp: within_horizon_def cursor_def)
  then have h: "within_horizon env rng p g n ?st"
  proof (induction nows arbitrary: st)
    case (Cons now nows)
    have "within_horizon env rng p g n (sync_group env rng (\<lambda>_. net) now db_now gs st g)"
      by (rule sync_group_horizon [OF assms(1-6) Cons.prems])
    then show ?case
      using Cons.IH by simp
  qed simp
  obtain m where m:
    "m \<le> unat ((unwrap_or (hm_get (rt_sync_cycle_count ?st) g) 0 + 1) mod FULL_SYNC_EVERY)"
    "next_since ?st g = cursor (group_rows p g None) n m"
    using next_since_cursor [OF h] by (elim exE conjE) (rule that)
  have "unat (c mod FULL_SYNC_EVERY) < 10" for c
    by (simp add: FULL_SYNC_EVERY_def unat_mod_distrib)
  from this [of "unwrap_or (hm_get (rt_sync_cycle_count ?st) g) 0 + 1"] have "m \<le> 9"
    using m(1) by linarith
  then have "n + m * n \<le> 10 * n"
    using mult_le_mono1 [of m 9 n] by simp
  then have "set (take (n + m * n) (group_rows p g None)) \<subseteq> set (take (10 * n) (group_rows p g None))"
    by (rule set_take_subset_set_take)
  then show ?thesis
    unfolding m(2) page_after_cursor [OF assms(5,6,4)] take_drop
    using set_drop_subset by fastforce
qed

theorem anti_entropy_horizon_witness:
  "set (take 100 (group_rows db_one_w ''g1'' (next_since
     (foldl (\<lambda>st now. sync_group repl_env_w (\<lambda>_. 0) (\<lambda>_. net_w db_one_w) now ''t'' [''g1''] st ''g1'')
       (repl_w db_w pool_w) [0, from_secs 60, from_secs 120]) ''g1'')))
   \<subseteq> set (take 1000 (group_rows db_one_w ''g1'' None))"
proof -
  have e: "healthy (re_lib repl_env_w) db_one_w" "unat (engine_max_batch_size (re_engine repl_env_w)) = 100"
    by (simp_all add: repl_env_w_def db_one_w_evals eng_w_def engine_max_batch_size_def
        default_replication_config_def MAX_BATCH_SIZE_def)
  show ?thesis
    using anti_entropy_horizon [OF net_w_honest e, of "''g1''" "repl_w db_w pool_w" "\<lambda>_. 0" "''t''" "[''g1'']"
        "[0, from_secs 60, from_secs 120]"] chosen_w [of db_w]
    by (simp add: db_one_w_evals) (simp add: repl_env_w_def repl_w_def healthy_w)
qed

section \<open>The database invariant\<close>

definition others_ok :: "crypto_lib \<Rightarrow> peer_net \<Rightarrow> bool" where
  "others_ok L net \<longleftrightarrow> (\<forall>k d. db_inv L d \<longrightarrow> db_inv L (nt_others net k d))"

lemma fetch_chunks_inv:
  assumes "others_ok (re_lib env) net" "db_inv (re_lib env) (snd cd)"
  shows "db_inv (re_lib env) (snd (fetch_chunks env net now gs ras peer k chs cd))"
  using assms(2)
proof (induction chs arbitrary: k cd)
  case (Cons ch chs)
  have "db_inv (re_lib env) (snd cd') \<Longrightarrow> db_inv (re_lib env) (snd (foldl (receive_fetched env now gs ras) cd' xs))" for cd' xs
    by (induction xs arbitrary: cd') (simp_all add: receive_fetched_db receive_inv)
  then show ?case
    using Cons assms(1) by (simp add: others_ok_def split: sum.split)
qed simp

lemma round_inv:
  assumes "others_ok (re_lib env) net" "db_inv (re_lib env) (rt_db st)"
  shows "db_inv (re_lib env) (rt_db (snd (run_anti_entropy env rng net now st g gs since ras)))"
proof -
  have d0: "db_inv (re_lib env) (nt_others net 0 (rt_db st))"
    using assms by (simp add: others_ok_def)
  have "db_inv (re_lib env) d" if "fetch_chunks env net now gs ras i k chs (c, nt_others net 0 (rt_db st)) = (r, d)" for i k chs c r d
    using fetch_chunks_inv [OF assms(1), of "(c, nt_others net 0 (rt_db st))" now gs ras i k chs] d0 that by simp
  then show ?thesis
    using d0 assms(2)
    by (auto simp: run_anti_entropy_def Let_def split: option.split sum.split prod.split)
qed

lemma finish_round_db [simp]: "rt_db (finish_round g rs) = rt_db (snd rs)"
  by (simp add: finish_round_def split: prod.split sum.split)

lemma sync_group_inv:
  assumes "others_ok (re_lib env) (nets g)" "db_inv (re_lib env) (rt_db st)"
  shows "db_inv (re_lib env) (rt_db (sync_group env rng nets now db_now gs st g))"
  using assms by (simp add: sync_group_def Let_def round_inv)

fun event_others_ok :: "crypto_lib \<Rightarrow> repl_event \<Rightarrow> bool" where
  "event_others_ok L (SyncTick _ nets _ _) \<longleftrightarrow> (\<forall>g. others_ok L (nets g))"
| "event_others_ok L (BootstrapSync _ net _ _) \<longleftrightarrow> others_ok L net"
| "event_others_ok L _ \<longleftrightarrow> True"

lemma flush_db: "rt_db (fst (flush up clk st)) = rt_db st"
proof -
  have "rt_db (fst (flush_group up clk so gi)) = rt_db (fst so)" for so gi
    by (cases so; cases gi) (auto simp: flush_group_def Let_def split: prod.split)
  then have "rt_db (fst (foldl (flush_group up clk) so gis)) = rt_db (fst so)" for so gis
    by (induction gis arbitrary: so) simp_all
  then show ?thesis
    by (simp add: flush_def)
qed

lemma retry_db:
  assumes "retry_tick up now st = Some (st', out)"
  shows "rt_db st' = rt_db st"
proof -
  have step: "retry_push up now so p = Some so' \<Longrightarrow> rt_db (fst so') = rt_db (fst so)" for so p so'
    by (cases so) (auto simp: retry_push_def Let_def split: if_splits prod.splits)
  have "retry_all up now so ps = Some so' \<Longrightarrow> rt_db (fst so') = rt_db (fst so)" for so ps so'
    by (induction ps arbitrary: so) (auto split: option.splits dest: step)
  from this [of "(st\<lparr>rt_pending_pushes := []\<rparr>, [])" "rt_pending_pushes st" "(st', out)"] show ?thesis
    using assms by (simp add: retry_tick_def)
qed

lemma repl_step_inv:
  assumes "db_inv (re_lib env) (rt_db st)" "event_others_ok (re_lib env) ev"
    and "repl_step env st ev = Some (st', out)"
  shows "db_inv (re_lib env) (rt_db st')"
proof (cases ev)
  case (LocalWrite t notif)
  have "rt_db (on_write_notification env t (update_gauges st) notif) = rt_db st"
    by (simp add: on_write_notification_def Let_def split: option.split outbound_action.split)
  then show ?thesis
    using LocalWrite assms by (auto simp: repl_step_def Let_def)
next
  case (FlushTick up clk)
  then show ?thesis
    using assms flush_db [of up clk "update_gauges st"] by (simp add: repl_step_def Let_def)
next
  case (RetryTick up now)
  then show ?thesis
    using assms retry_db [of up now "update_gauges st"] by (simp add: repl_step_def Let_def)
next
  case (SyncTick rng nets now db_now)
  have "db_inv (re_lib env) (rt_db s) \<Longrightarrow>
      db_inv (re_lib env) (rt_db (foldl (sync_group env rng nets now db_now gs) s gs'))" for s gs gs'
    using assms(2) SyncTick by (induction gs' arbitrary: s) (simp_all add: sync_group_inv)
  then show ?thesis
    using SyncTick assms by (auto simp: repl_step_def Let_def sync_tick_def)
next
  case (BootstrapSync rng net db_now g)
  then show ?thesis
    using assms by (auto simp: repl_step_def Let_def bootstrap_sync_def intro!: round_inv)
next
  case (GcTick ago)
  then show ?thesis
    using assms by (auto simp: repl_step_def Let_def gc_tick_def purge_deleted_groups_inv)
qed (use assms in \<open>auto simp: repl_step_def Let_def\<close>)

end
