(* ===== verification/Api.thy ===== *)
theory Api
  imports Replication_Task
begin

text \<open>
  The HTTP API of the node (\<^verbatim>\<open>cordelia-api/src/lib.rs\<close>). A request is a value of
  \<open>api_request\<close>, one constructor for each route, with the fields of its body after the defaults
  of the deserializer are filled in; each handler returns the new state, what it sends to the
  other tasks, and the response. JSON values are a type variable, with \<open>serde_json\<close>'s
  conversions to and from bytes, base64 and the full-text index as parameters of the environment.
  The shared groups are those of the pool; the optional callbacks and channels of the application
  state are flags.
\<close>

section \<open>State, requests and responses\<close>

record 'j api_env =
  ae_lib :: crypto_lib
  ae_node_id :: string
  ae_entity_id :: string
  ae_bearer_token :: string
  ae_start_time :: instant
  ae_write_notify :: bool
  ae_shared_groups :: bool
  ae_peer_count_fn :: bool
  ae_peer_list_fn :: bool
  ae_replication_stats :: bool
  ae_bootstrap_sync :: bool
  ae_to_vec :: "'j \<Rightarrow> string + bytes"
  ae_from_slice :: "bytes \<Rightarrow> 'j option"
  ae_null :: 'j
  ae_base64 :: "bytes \<Rightarrow> string"
  ae_fts :: "unicode list \<Rightarrow> u32 \<Rightarrow> string list"
  ae_to_base58 :: "node_id \<Rightarrow> string"
  ae_addr_string :: "multiaddr \<Rightarrow> string"

record api_state =
  as_db :: db
  as_pool :: peer_pool
  as_stats :: replication_stats

datatype api_out = Notify write_notification | Bootstrap string

datatype status_code =
    OK | BAD_REQUEST | UNAUTHORIZED | NOT_FOUND | PAYLOAD_TOO_LARGE | INTERNAL_SERVER_ERROR

record l2_meta_response =
  mrs_owner_id :: "string option"
  mrs_visibility :: string
  mrs_group_id :: "string option"
  mrs_author_id :: "string option"
  mrs_key_version :: i32
  mrs_checksum :: "string option"
  mrs_parent_id :: "string option"
  mrs_is_copy :: bool

record l2_write_meta =
  wm_owner_id :: "string option"
  wm_visibility :: "string option"
  wm_group_id :: "string option"
  wm_author_id :: "string option"
  wm_key_version :: "i32 option"
  wm_parent_id :: "string option"
  wm_is_copy :: "bool option"

definition default_write_meta :: l2_write_meta where
  "default_write_meta =
     \<lparr>wm_owner_id = None, wm_visibility = None, wm_group_id = None, wm_author_id = None,
      wm_key_version = None, wm_parent_id = None, wm_is_copy = None\<rparr>"

definition default_limit :: u32 where
  "default_limit = 20"

definition default_culture :: string where
  \<open>default_culture = ''{"broadcast_eagerness":"chatty"}''\<close>

definition default_security_policy :: string where
  "default_security_policy = ''{}''"

definition default_member_role :: string where
  "default_member_role = ''member''"

definition default_device_type :: string where
  "default_device_type = ''node''"

record redacted_device =
  rd_device_id :: string
  rd_entity_id :: string
  rd_device_name :: "string option"
  rd_device_type :: string
  rd_created_at :: string
  rd_last_seen_at :: "string option"
  rd_revoked_at :: "string option"

record status_response =
  sts_node_id :: string
  sts_entity_id :: string
  sts_uptime_secs :: u64
  sts_peers_warm :: nat
  sts_peers_hot :: nat
  sts_groups :: "string list"

record peers_response =
  prs_warm :: nat
  prs_hot :: nat
  prs_total :: nat
  prs_peers :: "peer_detail list"

record mempool_report =
  mpl_l2_items :: nat
  mpl_l2_data_bytes :: nat
  mpl_l2_data_human :: string
  mpl_groups :: nat
  mpl_group_details :: "group_stats list"

record diagnostics_report =
  dg_status :: status_response
  dg_replication :: "replication_stats option"
  dg_mempool :: "storage_error + mempool_report"

datatype 'j api_body =
    OkTrue
  | OkGroup string
  | ErrText string
  | StorageText storage_error
  | TooLargeText nat
  | JsonBody 'j
  | Base64Body string
  | UsersBody "string list"
  | L2Body 'j string l2_meta_response
  | ResultsBody "string list"
  | GroupsBody "group_row list"
  | GroupBody group_row "group_member_row list"
  | ItemsBody "item_header list"
  | DevicesBody "redacted_device list"
  | StatusBody status_response
  | PeersBody peers_response
  | DiagnosticsBody diagnostics_report

type_synonym 'j api_response = "status_code \<times> 'j api_body"
type_synonym 'j api_result = "api_state \<times> api_out list \<times> 'j api_response"

datatype 'j api_request =
    L1Read string
  | L1Write string 'j
  | L1Delete string
  | L1List
  | L2Read string
  | L2Write string string 'j "l2_write_meta option"
  | L2Delete string
  | L2Search "unicode list" u32 "string option"
  | GroupsCreate string string string string
  | GroupsList
  | GroupsRead string
  | GroupsItems string "string option" u32
  | GroupsDelete string
  | GroupsAddMember string string string
  | GroupsRemoveMember string string
  | GroupsUpdatePosture string string string
  | DevicesRegister string string "string option" string string
  | DevicesList string
  | DevicesRevoke string string
  | Status
  | Peers
  | Diagnostics

section \<open>Authentication\<close>

definition check_auth :: "'j api_env \<Rightarrow> string option \<Rightarrow> (status_code \<times> string) + unit" where
  "check_auth env authorization =
     (let auth = unwrap_or authorization [];
          expected = ''Bearer '' @ ae_bearer_token env
      in if auth \<noteq> expected then Err (UNAUTHORIZED, ''invalid bearer token'') else Ok ())"

definition authorised ::
  "'j api_env \<Rightarrow> api_state \<Rightarrow> string option \<Rightarrow> 'j api_result \<Rightarrow> 'j api_result" where
  "authorised env st authorization r =
     (case check_auth env authorization of
        Err (code, text) \<Rightarrow> (st, [], (code, ErrText text))
      | Ok _ \<Rightarrow> r)"

abbreviation internal_error :: "storage_error \<Rightarrow> 'j api_response" where
  "internal_error e \<equiv> (INTERNAL_SERVER_ERROR, StorageText e)"

abbreviation not_found :: "string \<Rightarrow> 'j api_response" where
  "not_found t \<equiv> (NOT_FOUND, ErrText t)"

section \<open>L1 memories\<close>

definition l1_read :: "'j api_env \<Rightarrow> api_state \<Rightarrow> string option \<Rightarrow> string \<Rightarrow> 'j api_result" where
  "l1_read env st auth user_id =
     authorised env st auth
       (st, [],
        case read_l1 (as_db st) user_id of
          Ok (Some data) \<Rightarrow>
            (case ae_from_slice env data of
               Some val \<Rightarrow> (OK, JsonBody val)
             | None \<Rightarrow> (OK, Base64Body (ae_base64 env data)))
        | Ok None \<Rightarrow> not_found ''not found''
        | Err e \<Rightarrow> internal_error e)"

definition l1_write ::
  "'j api_env \<Rightarrow> string \<Rightarrow> api_state \<Rightarrow> string option \<Rightarrow> string \<Rightarrow> 'j \<Rightarrow> 'j api_result" where
  "l1_write env now st auth user_id val =
     authorised env st auth
       (case write_l1 now (as_db st) user_id (result_or (ae_to_vec env val) []) of
          (Ok _, d) \<Rightarrow> (st\<lparr>as_db := d\<rparr>, [], (OK, OkTrue))
        | (Err e, d) \<Rightarrow> (st\<lparr>as_db := d\<rparr>, [], internal_error e))"

definition l1_delete :: "'j api_env \<Rightarrow> api_state \<Rightarrow> string option \<Rightarrow> string \<Rightarrow> 'j api_result" where
  "l1_delete env st auth user_id =
     authorised env st auth
       (case delete_l1 (as_db st) user_id of
          (Ok True, d) \<Rightarrow> (st\<lparr>as_db := d\<rparr>, [], (OK, OkTrue))
        | (Ok False, d) \<Rightarrow> (st\<lparr>as_db := d\<rparr>, [], not_found ''not found'')
        | (Err e, d) \<Rightarrow> (st\<lparr>as_db := d\<rparr>, [], internal_error e))"

definition l1_list :: "'j api_env \<Rightarrow> api_state \<Rightarrow> string option \<Rightarrow> 'j api_result" where
  "l1_list env st auth =
     authorised env st auth
       (st, [],
        case list_l1_users (as_db st) of
          Ok users \<Rightarrow> (OK, UsersBody users)
        | Err e \<Rightarrow> internal_error e)"

section \<open>L2 items\<close>

definition l2_read :: "'j api_env \<Rightarrow> api_state \<Rightarrow> string option \<Rightarrow> string \<Rightarrow> 'j api_result" where
  "l2_read env st auth item_id =
     authorised env st auth
       (st, [],
        case read_l2_item (as_db st) item_id of
          Ok (Some row) \<Rightarrow>
            (OK, L2Body (unwrap_or (ae_from_slice env (lr_data row)) (ae_null env)) (lr_item_type row)
                   \<lparr>mrs_owner_id = lr_owner_id row, mrs_visibility = lr_visibility row,
                    mrs_group_id = lr_group_id row, mrs_author_id = lr_author_id row,
                    mrs_key_version = lr_key_version row, mrs_checksum = lr_checksum row,
                    mrs_parent_id = lr_parent_id row, mrs_is_copy = lr_is_copy row\<rparr>)
        | Ok None \<Rightarrow> not_found ''not found''
        | Err e \<Rightarrow> internal_error e)"

definition write_of_request :: "string \<Rightarrow> string \<Rightarrow> string \<Rightarrow> bytes \<Rightarrow> l2_write_meta \<Rightarrow> l2_item_write" where
  "write_of_request entity item_id item_type data meta =
     \<lparr>lw_id = item_id, lw_item_type = item_type, lw_data = data, lw_owner_id = wm_owner_id meta,
      lw_visibility = unwrap_or (wm_visibility meta) ''private'', lw_group_id = wm_group_id meta,
      lw_author_id = (case wm_author_id meta of Some a \<Rightarrow> Some a | None \<Rightarrow> Some entity),
      lw_key_version = unwrap_or (wm_key_version meta) 1, lw_parent_id = wm_parent_id meta,
      lw_is_copy = unwrap_or (wm_is_copy meta) False, lw_updated_at = None\<rparr>"

definition notification_of_write :: "l2_item_write \<Rightarrow> write_notification" where
  "notification_of_write w =
     \<lparr>wn_item_id = lw_id w, wn_item_type = lw_item_type w, wn_group_id = lw_group_id w,
      wn_data = lw_data w, wn_key_version = lw_key_version w, wn_parent_id = lw_parent_id w,
      wn_is_copy = lw_is_copy w\<rparr>"

definition l2_write ::
  "'j api_env \<Rightarrow> string \<Rightarrow> api_state \<Rightarrow> string option \<Rightarrow> string \<Rightarrow> string \<Rightarrow> 'j \<Rightarrow> l2_write_meta option \<Rightarrow>
     'j api_result" where
  "l2_write env now st auth item_id item_type val meta =
     authorised env st auth
       (case ae_to_vec env val of
          Err e \<Rightarrow> (st, [], (BAD_REQUEST, ErrText (''failed to serialise item data: '' @ e)))
        | Ok data \<Rightarrow>
            if MAX_ITEM_BYTES < length data
            then (st, [], (PAYLOAD_TOO_LARGE, TooLargeText (length data)))
            else
              let write = write_of_request (ae_entity_id env) item_id item_type data
                            (unwrap_or meta default_write_meta)
              in case write_l2_item (ae_lib env) now (as_db st) write of
                   (Ok _, d) \<Rightarrow>
                     (st\<lparr>as_db := d\<rparr>,
                      if ae_write_notify env then [Notify (notification_of_write write)] else [],
                      (OK, OkTrue))
                 | (Err e, d) \<Rightarrow> (st\<lparr>as_db := d\<rparr>, [], internal_error e))"

definition l2_delete :: "'j api_env \<Rightarrow> api_state \<Rightarrow> string option \<Rightarrow> string \<Rightarrow> 'j api_result" where
  "l2_delete env st auth item_id =
     authorised env st auth
       (let meta = (case read_l2_item_meta (as_db st) item_id of Ok m \<Rightarrow> m | Err _ \<Rightarrow> None)
        in case delete_l2_item (as_db st) item_id of
             (Ok True, d) \<Rightarrow>
               (st\<lparr>as_db := d\<rparr>,
                (case meta of
                   Some m \<Rightarrow>
                     (case lm_group_id m of
                        Some g \<Rightarrow>
                          if ae_write_notify env
                          then [Notify \<lparr>wn_item_id = item_id, wn_item_type = TOMBSTONE_TYPE,
                                        wn_group_id = Some g, wn_data = [], wn_key_version = lm_key_version m,
                                        wn_parent_id = None, wn_is_copy = False\<rparr>]
                          else []
                      | None \<Rightarrow> [])
                 | None \<Rightarrow> []),
                (OK, OkTrue))
           | (Ok False, d) \<Rightarrow> (st\<lparr>as_db := d\<rparr>, [], not_found ''not found'')
           | (Err e, d) \<Rightarrow> (st\<lparr>as_db := d\<rparr>, [], internal_error e))"

definition in_group :: "db \<Rightarrow> string \<Rightarrow> string \<Rightarrow> bool" where
  "in_group d g i =
     (case read_l2_item_meta d i of
        Ok (Some m) \<Rightarrow> lm_group_id m = Some g
      | _ \<Rightarrow> False)"

text \<open>The product with four wraps around at 32 bits, as in a release build.\<close>

definition l2_search ::
  "'j api_env \<Rightarrow> api_state \<Rightarrow> string option \<Rightarrow> unicode list \<Rightarrow> u32 \<Rightarrow> string option \<Rightarrow> 'j api_result" where
  "l2_search env st auth q limit group_id =
     authorised env st auth
       (st, [],
        case fts_search (ae_fts env) (as_db st) q (if group_id \<noteq> None then limit * 4 else limit) of
          Ok ids \<Rightarrow>
            (OK, ResultsBody
              (case group_id of
                 Some g \<Rightarrow> take (unat limit) (filter (in_group (as_db st) g) ids)
               | None \<Rightarrow> ids))
        | Err e \<Rightarrow> internal_error e)"

section \<open>Groups\<close>

definition share_group :: "'j api_env \<Rightarrow> string \<Rightarrow> peer_pool \<Rightarrow> peer_pool" where
  "share_group env g pool =
     (if ae_shared_groups env \<and> g \<notin> set (pp_our_groups pool)
      then pool\<lparr>pp_our_groups := pp_our_groups pool @ [g]\<rparr> else pool)"

text \<open>\<open>try_send\<close> on the bootstrap channel fails when it is full, which is the flag \<open>room\<close>.\<close>

definition groups_create ::
  "'j api_env \<Rightarrow> string \<Rightarrow> bool \<Rightarrow> api_state \<Rightarrow> string option \<Rightarrow> string \<Rightarrow> string \<Rightarrow> string \<Rightarrow> string \<Rightarrow>
     'j api_result" where
  "groups_create env now room st auth g name culture policy =
     authorised env st auth
       (case write_group now (as_db st) g name culture policy of
          (Ok _, d) \<Rightarrow>
            (st\<lparr>as_db := d, as_pool := share_group env g (as_pool st)\<rparr>,
             if ae_bootstrap_sync env \<and> room then [Bootstrap g] else [],
             (OK, OkGroup g))
        | (Err e, d) \<Rightarrow> (st\<lparr>as_db := d\<rparr>, [], internal_error e))"

definition groups_list :: "'j api_env \<Rightarrow> api_state \<Rightarrow> string option \<Rightarrow> 'j api_result" where
  "groups_list env st auth =
     authorised env st auth
       (st, [],
        case list_groups (as_db st) of
          Ok gs \<Rightarrow> (OK, GroupsBody (filter (\<lambda>g. gr_culture g \<noteq> GROUP_TOMBSTONE_CULTURE) gs))
        | Err e \<Rightarrow> internal_error e)"

definition groups_read :: "'j api_env \<Rightarrow> api_state \<Rightarrow> string option \<Rightarrow> string \<Rightarrow> 'j api_result" where
  "groups_read env st auth g =
     authorised env st auth
       (st, [],
        case read_group (as_db st) g of
          Ok (Some row) \<Rightarrow>
            if gr_culture row = GROUP_TOMBSTONE_CULTURE then not_found ''group not found''
            else (OK, GroupBody row (result_or (list_members (as_db st) g) []))
        | Ok None \<Rightarrow> not_found ''group not found''
        | Err e \<Rightarrow> internal_error e)"

definition groups_items ::
  "'j api_env \<Rightarrow> api_state \<Rightarrow> string option \<Rightarrow> string \<Rightarrow> string option \<Rightarrow> u32 \<Rightarrow> 'j api_result" where
  "groups_items env st auth g since limit =
     authorised env st auth
       (st, [],
        case list_group_items (as_db st) g since limit of
          Ok items \<Rightarrow> (OK, ItemsBody items)
        | Err e \<Rightarrow> internal_error e)"

definition groups_delete ::
  "'j api_env \<Rightarrow> string \<Rightarrow> api_state \<Rightarrow> string option \<Rightarrow> string \<Rightarrow> 'j api_result" where
  "groups_delete env now st auth g =
     authorised env st auth
       (case read_group (as_db st) g of
          Err e \<Rightarrow> (st, [], internal_error e)
        | Ok None \<Rightarrow> (st, [], not_found ''group not found'')
        | Ok (Some _) \<Rightarrow>
            case write_group now (as_db st) g g GROUP_TOMBSTONE_CULTURE ''{}'' of
              (Err e, d) \<Rightarrow> (st\<lparr>as_db := d\<rparr>, [], internal_error e)
            | (Ok _, d1) \<Rightarrow>
                let d2 = remove_all_members d1 g;
                    pool = (if ae_shared_groups env
                            then (as_pool st)\<lparr>pp_our_groups := filter (\<lambda>x. x \<noteq> g) (pp_our_groups (as_pool st))\<rparr>
                            else as_pool st);
                    d3 = snd (log_access d2
                           \<lparr>al_entity_id = ae_entity_id env, al_action = ''delete_group'',
                            al_resource_type = ''group'', al_resource_id = Some g, al_group_id = Some g,
                            al_detail = Some ''tombstone''\<rparr>)
                in (st\<lparr>as_db := d3, as_pool := pool\<rparr>, [], (OK, OkTrue)))"

definition groups_add_member ::
  "'j api_env \<Rightarrow> string \<Rightarrow> api_state \<Rightarrow> string option \<Rightarrow> string \<Rightarrow> string \<Rightarrow> string \<Rightarrow> 'j api_result" where
  "groups_add_member env now st auth g e role =
     authorised env st auth
       (if role \<notin> {''owner'', ''admin'', ''member'', ''viewer''}
        then (st, [], (BAD_REQUEST, ErrText ''invalid role: must be owner, admin, member, or viewer''))
        else case add_member now (as_db st) g e role of
               (Ok _, d) \<Rightarrow>
                 (st\<lparr>as_db := snd (log_access d
                      \<lparr>al_entity_id = ae_entity_id env, al_action = ''add_member'',
                       al_resource_type = ''group'', al_resource_id = Some g, al_group_id = Some g,
                       al_detail = Some (''entity='' @ e @ '' role='' @ role)\<rparr>)\<rparr>, [], (OK, OkTrue))
             | (Err err, d) \<Rightarrow> (st\<lparr>as_db := d\<rparr>, [], internal_error err))"

definition groups_remove_member ::
  "'j api_env \<Rightarrow> api_state \<Rightarrow> string option \<Rightarrow> string \<Rightarrow> string \<Rightarrow> 'j api_result" where
  "groups_remove_member env st auth g e =
     authorised env st auth
       (case remove_member (as_db st) g e of
          (Ok True, d) \<Rightarrow>
            (st\<lparr>as_db := snd (log_access d
                 \<lparr>al_entity_id = ae_entity_id env, al_action = ''remove_member'',
                  al_resource_type = ''group'', al_resource_id = Some g, al_group_id = Some g,
                  al_detail = Some (''entity='' @ e)\<rparr>)\<rparr>, [], (OK, OkTrue))
        | (Ok False, d) \<Rightarrow> (st\<lparr>as_db := d\<rparr>, [], not_found ''member not found'')
        | (Err err, d) \<Rightarrow> (st\<lparr>as_db := d\<rparr>, [], internal_error err))"

definition groups_update_posture ::
  "'j api_env \<Rightarrow> api_state \<Rightarrow> string option \<Rightarrow> string \<Rightarrow> string \<Rightarrow> string \<Rightarrow> 'j api_result" where
  "groups_update_posture env st auth g e posture =
     authorised env st auth
       (if posture \<notin> {''active'', ''silent'', ''emcon''}
        then (st, [], (BAD_REQUEST, ErrText ''invalid posture: must be active, silent, or emcon''))
        else case update_member_posture (as_db st) g e posture of
               (Ok True, d) \<Rightarrow>
                 (st\<lparr>as_db := snd (log_access d
                      \<lparr>al_entity_id = ae_entity_id env, al_action = ''update_posture'',
                       al_resource_type = ''group'', al_resource_id = Some g, al_group_id = Some g,
                       al_detail = Some (''entity='' @ e @ '' posture='' @ posture)\<rparr>)\<rparr>, [], (OK, OkTrue))
             | (Ok False, d) \<Rightarrow> (st\<lparr>as_db := d\<rparr>, [], not_found ''member not found'')
             | (Err err, d) \<Rightarrow> (st\<lparr>as_db := d\<rparr>, [], internal_error err))"

section \<open>Devices\<close>

definition devices_register ::
  "'j api_env \<Rightarrow> string \<Rightarrow> api_state \<Rightarrow> string option \<Rightarrow> string \<Rightarrow> string \<Rightarrow> string option \<Rightarrow> string \<Rightarrow>
     string \<Rightarrow> 'j api_result" where
  "devices_register env now st auth device_id entity_id device_name device_type token_hash =
     authorised env st auth
       (if device_type \<notin> {''node'', ''browser'', ''mobile''}
        then (st, [], (BAD_REQUEST, ErrText ''invalid device_type: must be node, browser, or mobile''))
        else case register_device now (as_db st)
                    \<lparr>dv_device_id = device_id, dv_entity_id = entity_id, dv_device_name = device_name,
                     dv_device_type = device_type, dv_auth_token_hash = token_hash, dv_created_at = '''',
                     dv_last_seen_at = None, dv_revoked_at = None\<rparr> of
               (Ok _, d) \<Rightarrow>
                 (st\<lparr>as_db := snd (log_access d
                      \<lparr>al_entity_id = entity_id, al_action = ''register_device'',
                       al_resource_type = ''device'', al_resource_id = Some device_id,
                       al_group_id = None, al_detail = device_name\<rparr>)\<rparr>, [], (OK, OkTrue))
             | (Err err, d) \<Rightarrow> (st\<lparr>as_db := d\<rparr>, [], internal_error err))"

definition redact :: "device_row \<Rightarrow> redacted_device" where
  "redact d =
     \<lparr>rd_device_id = dv_device_id d, rd_entity_id = dv_entity_id d, rd_device_name = dv_device_name d,
      rd_device_type = dv_device_type d, rd_created_at = dv_created_at d,
      rd_last_seen_at = dv_last_seen_at d, rd_revoked_at = dv_revoked_at d\<rparr>"

definition devices_list :: "'j api_env \<Rightarrow> api_state \<Rightarrow> string option \<Rightarrow> string \<Rightarrow> 'j api_result" where
  "devices_list env st auth entity_id =
     authorised env st auth
       (st, [],
        case list_devices (as_db st) entity_id of
          Ok ds \<Rightarrow> (OK, DevicesBody (map redact ds))
        | Err e \<Rightarrow> internal_error e)"

definition devices_revoke ::
  "'j api_env \<Rightarrow> string \<Rightarrow> api_state \<Rightarrow> string option \<Rightarrow> string \<Rightarrow> string \<Rightarrow> 'j api_result" where
  "devices_revoke env now st auth entity_id device_id =
     authorised env st auth
       (case revoke_device now (as_db st) entity_id device_id of
          (Ok True, d) \<Rightarrow>
            (st\<lparr>as_db := snd (log_access d
                 \<lparr>al_entity_id = entity_id, al_action = ''revoke_device'', al_resource_type = ''device'',
                  al_resource_id = Some device_id, al_group_id = None, al_detail = None\<rparr>)\<rparr>, [], (OK, OkTrue))
        | (Ok False, d) \<Rightarrow> (st\<lparr>as_db := d\<rparr>, [], not_found ''device not found or already revoked'')
        | (Err err, d) \<Rightarrow> (st\<lparr>as_db := d\<rparr>, [], internal_error err))"

section \<open>Status\<close>

definition peer_counts :: "'j api_env \<Rightarrow> api_state \<Rightarrow> nat \<times> nat" where
  "peer_counts env st = (if ae_peer_count_fn env then peer_count_by_state (as_pool st) else (0, 0))"

definition as_secs :: "duration \<Rightarrow> u64" where
  "as_secs t = of_nat (t div 1000000000)"

definition status_of :: "'j api_env \<Rightarrow> instant \<Rightarrow> api_state \<Rightarrow> status_response" where
  "status_of env t st =
     \<lparr>sts_node_id = ae_node_id env, sts_entity_id = ae_entity_id env,
      sts_uptime_secs = as_secs (t - ae_start_time env), sts_peers_warm = fst (peer_counts env st),
      sts_peers_hot = snd (peer_counts env st),
      sts_groups = (if ae_shared_groups env then pp_our_groups (as_pool st) else [])\<rparr>"

definition api_status :: "'j api_env \<Rightarrow> instant \<Rightarrow> api_state \<Rightarrow> string option \<Rightarrow> 'j api_result" where
  "api_status env t st auth = authorised env st auth (st, [], (OK, StatusBody (status_of env t st)))"

definition api_peers :: "'j api_env \<Rightarrow> api_state \<Rightarrow> string option \<Rightarrow> 'j api_result" where
  "api_peers env st auth =
     authorised env st auth
       (case peer_counts env st of
          (warm, hot) \<Rightarrow>
            (st, [],
             (OK, PeersBody
               \<lparr>prs_warm = warm, prs_hot = hot, prs_total = warm + hot,
                prs_peers = (if ae_peer_list_fn env
                             then peer_details (ae_to_base58 env) (ae_addr_string env) (as_pool st)
                             else [])\<rparr>)))"

fun show_nat :: "nat \<Rightarrow> string" where
  "show_nat n = (if n < 10 then [char_of (48 + n)] else show_nat (n div 10) @ [char_of (48 + n mod 10)])"

declare show_nat.simps [simp del]

text \<open>
  \<open>{:.1}\<close> prints the exact value of the quotient with one decimal, a tie going to the even
  digit; the quotient by a power of two is exact below \<open>2 ^ 53\<close> bytes.
\<close>

definition tenths :: "nat \<Rightarrow> nat \<Rightarrow> nat" where
  "tenths n unit =
     (let q = 10 * n div unit; r = 10 * n mod unit
      in if unit < 2 * r \<or> 2 * r = unit \<and> odd q then q + 1 else q)"

definition show_tenths :: "nat \<Rightarrow> string" where
  "show_tenths q = show_nat (q div 10) @ ''.'' @ show_nat (q mod 10)"

definition format_bytes :: "nat \<Rightarrow> string" where
  "format_bytes n =
     (if 1024 * 1024 * 1024 \<le> n then show_tenths (tenths n (1024 * 1024 * 1024)) @ '' GB''
      else if 1024 * 1024 \<le> n then show_tenths (tenths n (1024 * 1024)) @ '' MB''
      else if 1024 \<le> n then show_tenths (tenths n 1024) @ '' KB''
      else show_nat n @ '' B'')"

definition mempool_of :: "storage_stats_row \<Rightarrow> mempool_report" where
  "mempool_of s =
     \<lparr>mpl_l2_items = st_l2_item_count s, mpl_l2_data_bytes = st_l2_data_bytes s,
      mpl_l2_data_human = format_bytes (st_l2_data_bytes s), mpl_groups = st_group_count s,
      mpl_group_details = st_groups s\<rparr>"

definition diagnostics :: "'j api_env \<Rightarrow> instant \<Rightarrow> api_state \<Rightarrow> string option \<Rightarrow> 'j api_result" where
  "diagnostics env t st auth =
     authorised env st auth
       (st, [],
        (OK, DiagnosticsBody
          \<lparr>dg_status = status_of env t st,
           dg_replication = (if ae_replication_stats env then Some (as_stats st) else None),
           dg_mempool = (case storage_stats (as_db st) of
                           Ok s \<Rightarrow> Ok (mempool_of s) | Err e \<Rightarrow> Err e)\<rparr>))"

section \<open>The router\<close>

text \<open>Besides the request, a call carries the database clock, the instant, and whether the bootstrap channel has room.\<close>

definition router ::
  "'j api_env \<Rightarrow> string \<Rightarrow> instant \<Rightarrow> bool \<Rightarrow> api_state \<Rightarrow> string option \<Rightarrow> 'j api_request \<Rightarrow> 'j api_result" where
  "router env now t room st auth req =
     (case req of
        L1Read u \<Rightarrow> l1_read env st auth u
      | L1Write u val \<Rightarrow> l1_write env now st auth u val
      | L1Delete u \<Rightarrow> l1_delete env st auth u
      | L1List \<Rightarrow> l1_list env st auth
      | L2Read i \<Rightarrow> l2_read env st auth i
      | L2Write i ty val meta \<Rightarrow> l2_write env now st auth i ty val meta
      | L2Delete i \<Rightarrow> l2_delete env st auth i
      | L2Search q limit g \<Rightarrow> l2_search env st auth q limit g
      | GroupsCreate g name culture policy \<Rightarrow> groups_create env now room st auth g name culture policy
      | GroupsList \<Rightarrow> groups_list env st auth
      | GroupsRead g \<Rightarrow> groups_read env st auth g
      | GroupsItems g since limit \<Rightarrow> groups_items env st auth g since limit
      | GroupsDelete g \<Rightarrow> groups_delete env now st auth g
      | GroupsAddMember g e role \<Rightarrow> groups_add_member env now st auth g e role
      | GroupsRemoveMember g e \<Rightarrow> groups_remove_member env st auth g e
      | GroupsUpdatePosture g e posture \<Rightarrow> groups_update_posture env st auth g e posture
      | DevicesRegister i e name ty h \<Rightarrow> devices_register env now st auth i e name ty h
      | DevicesList e \<Rightarrow> devices_list env st auth e
      | DevicesRevoke e i \<Rightarrow> devices_revoke env now st auth e i
      | Status \<Rightarrow> api_status env t st auth
      | Peers \<Rightarrow> api_peers env st auth
      | Diagnostics \<Rightarrow> diagnostics env t st auth)"

end
