(* ===== verification/Api_Props.thy ===== *)
theory Api_Props
  imports Api Replication_Task_Props
begin

text \<open>
  What the HTTP API promises: nothing happens without the bearer token, a failed request leaves
  the node as it was, a written item is read back, a deleted group is gone from every view; and
  what becomes of its requests on other nodes.
\<close>

section \<open>Authentication\<close>

definition authentic :: "'j api_env \<Rightarrow> string option \<Rightarrow> bool" where
  "authentic env auth \<longleftrightarrow> unwrap_or auth [] = ''Bearer '' @ ae_bearer_token env"

lemma authorised_iff:
  "authorised env st auth r =
     (if authentic env auth then r else (st, [], (UNAUTHORIZED, ErrText ''invalid bearer token'')))"
  by (simp add: authorised_def check_auth_def authentic_def Let_def)

lemmas handler_defs =
  l1_read_def l1_write_def l1_delete_def l1_list_def l2_read_def l2_write_def l2_delete_def
  l2_search_def groups_create_def groups_list_def groups_read_def groups_items_def groups_delete_def
  groups_add_member_def groups_remove_member_def groups_update_posture_def devices_register_def
  devices_list_def devices_revoke_def api_status_def api_peers_def diagnostics_def

lemma router_unauthorised:
  "\<not> authentic env auth \<Longrightarrow>
     router env now t room st auth req = (st, [], (UNAUTHORIZED, ErrText ''invalid bearer token''))"
  by (cases req) (simp_all add: router_def handler_defs authorised_iff)

abbreviation response_code :: "'j api_result \<Rightarrow> status_code" where
  "response_code r \<equiv> fst (snd (snd r))"

lemma router_authorised_code:
  "authentic env auth \<Longrightarrow> response_code (router env now t room st auth req) \<noteq> UNAUTHORIZED"
  by (cases req)
    (simp_all add: router_def handler_defs authorised_iff Let_def split_beta
      split: option.split sum.split bool.split prod.split)

text \<open>
  C28. A request is answered 401 exactly when its authorization header is not the bearer token of
  the node, and then it changes nothing and tells no other task anything, whatever the route.
\<close>

theorem token_required:
  "(response_code (router env now t room st auth req) = UNAUTHORIZED \<longleftrightarrow> \<not> authentic env auth) \<and>
   (authentic env auth \<or>
      fst (router env now t room st auth req) = st \<and> fst (snd (router env now t room st auth req)) = [])"
  by (cases "authentic env auth") (simp_all add: router_unauthorised router_authorised_code)

section \<open>Failed requests\<close>

lemma failed_op_unchanged:
  "write_l1 now d u b = (Err e, d') \<Longrightarrow> d' = d"
  "delete_l1 d u = (Err e, d') \<Longrightarrow> d' = d"
  "write_l2_item L now d w = (Err e, d') \<Longrightarrow> d' = d"
  "delete_l2_item d i = (Err e, d') \<Longrightarrow> d' = d"
  "write_group now d i n c p = (Err e, d') \<Longrightarrow> d' = d"
  "remove_member d g m = (Err e, d') \<Longrightarrow> d' = d"
  "update_member_posture d g m p = (Err e, d') \<Longrightarrow> d' = d"
  "register_device now d v = (Err e, d') \<Longrightarrow> d' = d"
  "revoke_device now d m i = (Err e, d') \<Longrightarrow> d' = d"
  by (auto simp: write_l1_def delete_l1_def write_l2_item_def delete_l2_item_def write_group_def
      remove_member_def update_member_posture_def register_device_def revoke_device_def
      with_devices_def exec_def split: option.splits if_splits)

lemma delete_absent: "hm_get m k = None \<Longrightarrow> hm_remove k m = m"
  by (simp add: delete_id map_of_eq_None_iff)

lemma absent_op_unchanged:
  "delete_l1 d u = (Ok False, d') \<Longrightarrow> d' = d"
  "delete_l2_item d i = (Ok False, d') \<Longrightarrow> d' = d"
  "remove_member d g m = (Ok False, d') \<Longrightarrow> d' = d"
  "update_member_posture d g m p = (Ok False, d') \<Longrightarrow> d' = d"
  "revoke_device now d m i = (Ok False, d') \<Longrightarrow> d' = d"
  by (auto simp: delete_l1_def delete_l2_item_def remove_member_def update_member_posture_def
      revoke_device_def with_devices_def exec_def delete_absent split: option.splits if_splits)

lemma failed_add_member:
  "add_member now d g m role = (Err e, d') \<Longrightarrow> d' = d \<or> d' = insert_l1_stub now m d"
  by (auto simp: add_member_def upsert_member_def exec_def Let_def split: option.splits if_splits)

text \<open>
  C29. A request that is not answered 200 leaves the database, the peers, the shared groups and the
  counters as they were and notifies no task. The one exception is adding a member: the first of
  its two statements, which creates an empty L1 memory for a new entity, stays when the second
  one fails.
\<close>

theorem failed_request_changes_nothing:
  assumes "router env now t room st auth req = (st', outs, (code, body))" and "code \<noteq> OK"
  shows "outs = [] \<and>
    (st' = st \<or>
     (\<exists>g e role. req = GroupsAddMember g e role \<and>
        st' = st\<lparr>as_db := insert_l1_stub now e (as_db st)\<rparr>))"
proof -
  note unchanged = failed_op_unchanged absent_op_unchanged failed_add_member
  show ?thesis
    using assms
    by (cases req)
      (auto simp: router_def handler_defs authorised_iff Let_def
        split: if_splits option.splits sum.splits bool.splits prod.splits dest!: unchanged)
qed

definition api_env_w :: "bytes api_env" where
  "api_env_w =
     \<lparr>ae_lib = L_w, ae_node_id = ''n'', ae_entity_id = ''alice'', ae_bearer_token = ''secret'',
      ae_start_time = 0, ae_write_notify = True, ae_shared_groups = True, ae_peer_count_fn = True,
      ae_peer_list_fn = True, ae_replication_stats = True, ae_bootstrap_sync = True,
      ae_to_vec = Ok, ae_from_slice = Some, ae_null = [], ae_base64 = (\<lambda>_. []),
      ae_fts = (\<lambda>_ _. []), ae_to_base58 = (\<lambda>_. []), ae_addr_string = (\<lambda>_. [])\<rparr>"

definition api_w :: "db \<Rightarrow> peer_pool \<Rightarrow> api_state" where
  "api_w d pool = \<lparr>as_db = d, as_pool = pool, as_stats = new_stats\<rparr>"

abbreviation auth_w :: "string option" where
  "auth_w \<equiv> Some ''Bearer secret''"

lemma authentic_w: "authentic api_env_w auth_w"
  by (simp add: authentic_def api_env_w_def unwrap_or_def)

text \<open>Adding a member to a group that does not exist fails and leaves the stub.\<close>

theorem failed_request_changes_nothing_witness:
  "\<exists>st' code body. router api_env_w ''t1'' 0 True (api_w db_w pool_w) auth_w
      (GroupsAddMember ''none'' ''bob'' ''member'') = (st', [], (code, body)) \<and> code \<noteq> OK \<and>
    hm_get (l1_hot (as_db st')) ''bob'' \<noteq> None"
proof -
  obtain st' outs code body where r: "router api_env_w ''t1'' 0 True (api_w db_w pool_w) auth_w
      (GroupsAddMember ''none'' ''bob'' ''member'') = (st', outs, (code, body))"
    by (metis prod_cases4)
  have "code \<noteq> OK \<and> hm_get (l1_hot (as_db st')) ''bob'' \<noteq> None"
    using r authentic_w
    by (auto simp: router_def groups_add_member_def authorised_iff add_member_def upsert_member_def
        insert_l1_stub_def api_w_def db_w_def db_of_schema_def schema_checks Let_def)
  then show ?thesis
    using failed_request_changes_nothing [OF r] r by auto
qed

section \<open>The database invariant\<close>

lemma result_inv:
  "db_inv L (snd r) \<Longrightarrow> r = (x, d) \<Longrightarrow> db_inv L d"
  by simp

lemma router_inv:
  assumes "db_inv (ae_lib env) (as_db st)"
  shows "db_inv (ae_lib env) (as_db (fst (router env now t room st auth req)))"
proof -
  note ops = db_op_invs [OF assms, THEN result_inv]
  show ?thesis
    using assms
    by (cases req)
      (auto simp: router_def handler_defs authorised_iff Let_def
        split: option.splits sum.splits bool.splits prod.splits
        intro: log_access_inv remove_all_members_inv dest: ops)
qed

section \<open>Reading what was written\<close>

definition stored_meta :: "crypto_lib \<Rightarrow> string \<Rightarrow> bytes \<Rightarrow> l2_write_meta \<Rightarrow> l2_meta_response" where
  "stored_meta L entity data m =
     \<lparr>mrs_owner_id = wm_owner_id m, mrs_visibility = unwrap_or (wm_visibility m) ''private'',
      mrs_group_id = wm_group_id m, mrs_author_id = Some (unwrap_or (wm_author_id m) entity),
      mrs_key_version = unwrap_or (wm_key_version m) 1, mrs_checksum = Some (storage_checksum L data),
      mrs_parent_id = wm_parent_id m, mrs_is_copy = unwrap_or (wm_is_copy m) False\<rparr>"

lemma write_accepted:
  assumes "router env now t room st auth (L2Write i ty val meta) = (st', outs, (OK, body))"
  obtains data d' where "authentic env auth" "ae_to_vec env val = Ok data" "length data \<le> MAX_ITEM_BYTES"
    "write_l2_item (ae_lib env) now (as_db st)
       (write_of_request (ae_entity_id env) i ty data (unwrap_or meta default_write_meta)) = (Ok (), d')"
    "st' = st\<lparr>as_db := d'\<rparr>"
    "outs = (if ae_write_notify env
       then [Notify (notification_of_write
              (write_of_request (ae_entity_id env) i ty data (unwrap_or meta default_write_meta)))] else [])"
  using assms
  by (auto simp: router_def l2_write_def authorised_iff Let_def
      split: if_splits sum.splits prod.splits)



section \<open>Deleting a group\<close>

lemma delete_accepted:
  assumes "router env now t room st auth (GroupsDelete g) = (st', outs, (OK, body))"
    and "db_fault (as_db st) = (\<lambda>_. None)"
  obtains c d' where "authentic env auth" "hm_get (groups_tab (as_db st)) g = Some c"
    "as_db st' = snd (log_access (remove_all_members d' g)
       \<lparr>al_entity_id = ae_entity_id env, al_action = ''delete_group'', al_resource_type = ''group'',
        al_resource_id = Some g, al_group_id = Some g, al_detail = Some ''tombstone''\<rparr>)"
    "d' = (as_db st)\<lparr>groups_tab := hm_insert g
       (c\<lparr>g_name := g, g_culture := GROUP_TOMBSTONE_CULTURE, g_security_policy := ''{}'',
          g_updated_at := now\<rparr>) (groups_tab (as_db st))\<rparr>"
    "ae_shared_groups env \<Longrightarrow> g \<notin> set (pp_our_groups (as_pool st'))"
  using assms
  by (auto simp: router_def groups_delete_def authorised_iff Let_def write_group_def read_group_def
      split: if_splits option.splits)

lemma deleted_group_row:
  assumes "router env now t room st auth (GroupsDelete g) = (st', outs, (OK, body))"
    and "db_fault (as_db st) = (\<lambda>_. None)"
  obtains c where "hm_get (groups_tab (as_db st)) g = Some c"
    "groups_tab (as_db st') = hm_insert g
       (c\<lparr>g_name := g, g_culture := GROUP_TOMBSTONE_CULTURE, g_security_policy := ''{}'',
          g_updated_at := now\<rparr>) (groups_tab (as_db st))"
    "db_fault (as_db st') = (\<lambda>_. None)" "l2_items (as_db st') = l2_items (as_db st)"
    "hm_wf (group_members (as_db st)) \<Longrightarrow> list_members (as_db st') g = Ok []"
proof -
  obtain c d' where r: "hm_get (groups_tab (as_db st)) g = Some c"
    "as_db st' = snd (log_access (remove_all_members d' g)
       \<lparr>al_entity_id = ae_entity_id env, al_action = ''delete_group'', al_resource_type = ''group'',
        al_resource_id = Some g, al_group_id = Some g, al_detail = Some ''tombstone''\<rparr>)"
    "d' = (as_db st)\<lparr>groups_tab := hm_insert g
       (c\<lparr>g_name := g, g_culture := GROUP_TOMBSTONE_CULTURE, g_security_policy := ''{}'',
          g_updated_at := now\<rparr>) (groups_tab (as_db st))\<rparr>"
    using delete_accepted [OF assms] by metis
  have "list_members (remove_all_members d' g) g = Ok []" if "hm_wf (group_members (as_db st))"
    using that assms(2) by (intro remove_all_members_none_left) (simp_all add: r(3))
  then show ?thesis
    using assms(2) r by (intro that [of c]) (simp_all add: log_access_def list_members_def)
qed

text \<open>
  C31. A group deleted over the API is gone from every view of it: reading it is answered 404, the
  list of groups leaves it out, it has no listed member, and it is no longer among the shared
  groups, so the node stops replicating it. Its items stay in the database.
\<close>

theorem deleted_group_hidden:
  assumes del: "router env now t room st auth (GroupsDelete g) = (st', outs, (OK, body))"
    and d: "healthy L (as_db st)" and shared: "ae_shared_groups env"
  shows "router env now' t' room' st' auth (GroupsRead g) = (st', [], not_found ''group not found'') \<and>
    (\<exists>gs. router env now' t' room' st' auth GroupsList = (st', [], (OK, GroupsBody gs)) \<and>
       g \<notin> gr_id ` set gs) \<and>
    list_members (as_db st') g = Ok [] \<and> g \<notin> set (pp_our_groups (as_pool st')) \<and>
    l2_items (as_db st') = l2_items (as_db st)"
proof -
  have f: "db_fault (as_db st) = (\<lambda>_. None)" "hm_wf (group_members (as_db st))" "hm_wf (groups_tab (as_db st))"
    using d by (auto simp: healthy_def inv_wf)
  have a: "authentic env auth" "g \<notin> set (pp_our_groups (as_pool st'))"
    using delete_accepted [OF del f(1)] shared by metis+
  obtain c where r: "groups_tab (as_db st') = hm_insert g c (groups_tab (as_db st))"
    "g_culture c = GROUP_TOMBSTONE_CULTURE" "db_fault (as_db st') = (\<lambda>_. None)"
    "l2_items (as_db st') = l2_items (as_db st)" "list_members (as_db st') g = Ok []"
    using deleted_group_row [OF del f(1)] f(2) by (metis group_cols.select_convs(2) group_cols.surjective
        group_cols.update_convs(1-3,5))
  have "hm_wf (groups_tab (as_db st'))"
    unfolding r(1) using f(3) by (rule hm_wf_intros)
  then have "\<forall>c'. (g, c') \<in> set (groups_tab (as_db st')) \<longrightarrow> c' = c"
    using r(1) by (auto simp: hm_get_simps simp flip: hm_get_iff)
  then have "g \<notin> gr_id ` set (filter (\<lambda>x. gr_culture x \<noteq> GROUP_TOMBSTONE_CULTURE)
      (sort_key gr_name (map (\<lambda>(i, c). row_of_group i c) (groups_tab (as_db st')))))"
    using r(2) by (auto simp: row_of_group_def)
  then show ?thesis
    using a r
    by (simp add: router_def groups_read_def groups_list_def authorised_iff read_group_def list_groups_def
        hm_get_simps row_of_group_def)
qed

definition delete_w :: "bytes api_result" where
  "delete_w = router api_env_w ''t5'' 0 True (api_w db_group_w pool_w) auth_w (GroupsDelete ''g1'')"

lemma delete_w: "delete_w = (fst delete_w, [], (OK, OkTrue))"
  using authentic_w
  by (simp add: delete_w_def router_def groups_delete_def authorised_iff Let_def read_group_def write_group_def
      db_group_w_evals api_w_def)

lemma healthy_group_w: "healthy L_w db_group_w"
  unfolding healthy_def
  by (simp add: db_group_w_evals)
    (simp add: db_group_w_def db_w_def fresh_db_inv write_group_signature_inv add_member_inv write_group_inv)

theorem deleted_group_hidden_witness:
  "hm_get (groups_tab db_group_w) ''g1'' \<noteq> None \<and>
   router api_env_w ''t6'' 0 True (fst delete_w) auth_w (GroupsRead ''g1'') =
     (fst delete_w, [], not_found ''group not found'') \<and>
   pp_our_groups pool_w = [''g1''] \<and> ''g1'' \<notin> set (pp_our_groups (as_pool (fst delete_w)))"
proof -
  have h: "healthy L_w (as_db (api_w db_group_w pool_w))" "ae_shared_groups api_env_w"
    by (simp_all add: api_w_def healthy_group_w api_env_w_def)
  show ?thesis
    using deleted_group_hidden [OF delete_w [unfolded delete_w_def] h, of "''t6''" 0 True]
    by (simp add: delete_w_def db_group_w_evals pool_w_def new_pool_def)
qed

lemma newline_split:
  assumes "x @ newline @ y = x' @ newline @ y'" "CHR 0x0A \<notin> set x" "CHR 0x0A \<notin> set x'"
  shows "x = x'"
proof -
  have "takeWhile (\<lambda>c. c \<noteq> CHR 0x0A) (z @ newline @ w) = z" if "CHR 0x0A \<notin> set z" for z w
    using that by (induction z) (auto simp: newline_def)
  then show ?thesis
    using assms by metis
qed

lemma stale_signature_rejected:
  assumes row: "hm_get (groups_tab d) g = Some c" "g_signature c = Some sig" "g_owner_pubkey c = Some pk"
    and wf: "hm_wf (groups_tab d)"
    and stale: "\<not> verify_descriptor_signature L (descriptor_of_group L (row_of_group g c)) pk sig"
    and adv: "fst (build_descriptors L ni e d) = Some descs" "desc \<in> set descs" "gd_id desc = g"
  shows "merge_descriptors L now p [desc] = (\<lparr>mr_upserted = [], mr_tombstoned = []\<rparr>, p)"
proof -
  obtain i c' where r: "(i, c') \<in> set (groups_tab d)" "desc = fst (build_descriptor L ni e d (row_of_group i c'))"
    using built_from_row [OF adv(1,2)] by metis
  moreover from r(2) have "i = g"
    using adv(3) by (simp add: row_of_group_def)
  moreover have "c' = c"
    using r(1) \<open>i = g\<close> row(1) wf by (simp flip: hm_get_iff)
  ultimately have "desc = descriptor_of_group L (row_of_group g c)"
    using row(2) by (simp add: build_descriptor_def Let_def row_of_group_def)
  moreover from this have "\<not> descriptor_acceptable L p desc"
    using stale row(2,3) by (simp add: descriptor_acceptable_def descriptor_of_group_def row_of_group_def)
  ultimately show ?thesis
    by (simp add: merge_descriptors_def merge_descriptor_def)
qed

text \<open>
  C32. Deleting a signed group over the API does not delete it anywhere else. The handler replaces
  the culture and the time of the row and keeps the signature made for the old ones, and a row that
  has a signature is not signed again. When a signature verifies only for what was signed, every
  peer rejects the tombstone this node advertises, whatever the peer holds. (The culture is taken
  to be a single line, as the JSON of the default culture is.)
\<close>

theorem signed_group_deletion_stays_local:
  assumes del: "router env now t room st auth (GroupsDelete g) = (st', outs, (OK, body))"
    and d: "db_fault (as_db st) = (\<lambda>_. None)" "hm_wf (groups_tab (as_db st))"
    and row: "hm_get (groups_tab (as_db st)) g = Some c" "g_signature c = Some sig" "g_owner_pubkey c = Some pk"
    and live: "g_culture c \<noteq> GROUP_TOMBSTONE_CULTURE" "CHR 0x0A \<notin> set (g_culture c)"
    and unforgeable: "\<forall>pkb sigb m. lib_hex_decode L pk = Some pkb \<longrightarrow> lib_hex_decode L sig = Some sigb \<longrightarrow>
      lib_ed25519_verify L pkb m sigb \<longrightarrow> m = signing_payload (descriptor_of_group L (row_of_group g c))"
    and adv: "fst (build_descriptors L ni e (as_db st')) = Some descs" "desc \<in> set descs" "gd_id desc = g"
  shows "gd_culture desc = GROUP_TOMBSTONE_CULTURE \<and>
    merge_descriptors L now' p [desc] = (\<lparr>mr_upserted = [], mr_tombstoned = []\<rparr>, p)"
proof -
  let ?c = "c\<lparr>g_name := g, g_culture := GROUP_TOMBSTONE_CULTURE, g_security_policy := ''{}'', g_updated_at := now\<rparr>"
  have tab: "groups_tab (as_db st') = hm_insert g ?c (groups_tab (as_db st))"
    using deleted_group_row [OF del d(1)] row(1) by (metis option.inject)
  have wf: "hm_wf (groups_tab (as_db st'))"
    unfolding tab using d(2) by (rule hm_wf_intros)
  have c: "hm_get (groups_tab (as_db st')) g = Some ?c" "g_signature ?c = Some sig" "g_owner_pubkey ?c = Some pk"
    using row by (simp_all add: tab hm_get_simps)
  have "signing_payload (descriptor_of_group L (row_of_group g ?c)) \<noteq>
      signing_payload (descriptor_of_group L (row_of_group g c))"
    using newline_split [of GROUP_TOMBSTONE_CULTURE now "g_culture c" "g_updated_at c"] live
    by (auto simp: signing_payload_def descriptor_of_group_def row_of_group_def GROUP_TOMBSTONE_CULTURE_def)
  then have "\<not> verify_descriptor_signature L (descriptor_of_group L (row_of_group g ?c)) pk sig"
    using unforgeable by (auto simp: verify_descriptor_signature_def split: option.splits)
  note rejected = stale_signature_rejected [OF c wf this adv]
  obtain i c' where r: "(i, c') \<in> set (groups_tab (as_db st'))"
    "desc = fst (build_descriptor L ni e (as_db st') (row_of_group i c'))"
    using built_from_row [OF adv(1,2)] by metis
  then have "i = g" "c' = ?c"
    using adv(3) c(1) wf by (auto simp: row_of_group_def simp flip: hm_get_iff)
  then have "gd_culture desc = GROUP_TOMBSTONE_CULTURE"
    by (simp add: r(2) build_descriptor_def Let_def row_of_group_def descriptor_of_group_def)
  then show ?thesis
    using rejected by blast
qed

definition sig_w :: string where
  "sig_w = ''k'' @ ''g1'' @ newline @ ''quiet'' @ newline @ ''t1''"

definition row_signed_w :: group_cols where
  "row_signed_w =
     \<lparr>g_name = ''G'', g_culture = ''quiet'', g_security_policy = ''{}'', g_created_at = ''t1'',
      g_updated_at = ''t1'', g_owner_id = Some ''alice'', g_owner_pubkey = Some ''k'', g_signature = Some sig_w\<rparr>"

definition db_signed_w :: db where
  "db_signed_w = snd (write_group_signature db_group_w ''g1'' ''alice'' ''k'' sig_w)"

lemma db_signed_w_evals:
  "db_fault db_signed_w = (\<lambda>_. None)" "groups_tab db_signed_w = [(''g1'', row_signed_w)]"
  by (simp_all add: db_signed_w_def write_group_signature_def db_group_w_evals hm_modify_def row_signed_w_def)

lemma sig_w_verifies:
  "lib_ed25519_verify L_w (as_bytes ''k'') m (as_bytes sig_w) \<longleftrightarrow>
     m = signing_payload (descriptor_of_group L_w (row_of_group ''g1'' row_signed_w))"
  by (auto simp: L_w_def sig_w_def as_bytes_def signing_payload_def descriptor_of_group_def row_of_group_def
      row_signed_w_def)

definition delete_signed_w :: "bytes api_result" where
  "delete_signed_w = router api_env_w ''t5'' 0 True (api_w db_signed_w pool_w) auth_w (GroupsDelete ''g1'')"

lemma delete_signed_w: "delete_signed_w = (fst delete_signed_w, [], (OK, OkTrue))"
  using authentic_w
  by (simp add: delete_signed_w_def router_def groups_delete_def authorised_iff Let_def read_group_def
      write_group_def db_signed_w_evals api_w_def)

lemma delete_signed_w_advertised:
  "\<exists>desc. fst (build_descriptors L_w ni_w ''alice'' (as_db (fst delete_signed_w))) = Some [desc] \<and>
     gd_id desc = ''g1''"
proof -
  obtain c where "groups_tab (as_db (fst delete_signed_w)) = hm_insert ''g1'' c (groups_tab db_signed_w)"
    "db_fault (as_db (fst delete_signed_w)) = (\<lambda>_. None)"
    using deleted_group_row [OF delete_signed_w [unfolded delete_signed_w_def]]
    unfolding delete_signed_w_def by (auto simp: db_signed_w_evals api_w_def)
  then show ?thesis
    by (simp add: build_descriptors_def list_groups_def db_signed_w_evals split_beta row_of_group_def)
qed

theorem signed_group_deletion_stays_local_witness:
  "verify_descriptor_signature L_w (descriptor_of_group L_w (row_of_group ''g1'' row_signed_w)) ''k'' sig_w \<and>
   (\<exists>desc. fst (build_descriptors L_w ni_w ''alice'' (as_db (fst delete_signed_w))) = Some [desc] \<and>
      gd_culture desc = GROUP_TOMBSTONE_CULTURE \<and>
      merge_descriptors L_w ''t6'' db_group_w [desc] = (\<lparr>mr_upserted = [], mr_tombstoned = []\<rparr>, db_group_w))"
proof -
  obtain desc where desc: "fst (build_descriptors L_w ni_w ''alice'' (as_db (fst delete_signed_w))) = Some [desc]"
    "gd_id desc = ''g1''"
    using delete_signed_w_advertised by blast
  have dec: "lib_hex_decode L_w s = Some (as_bytes s)" for s
    by (simp add: L_w_def)
  have v: "verify_descriptor_signature L_w (descriptor_of_group L_w (row_of_group ''g1'' row_signed_w)) ''k'' sig_w"
    by (simp add: verify_descriptor_signature_def dec sig_w_verifies)
  have row: "hm_get (groups_tab (as_db (api_w db_signed_w pool_w))) ''g1'' = Some row_signed_w"
    "db_fault (as_db (api_w db_signed_w pool_w)) = (\<lambda>_. None)"
    "hm_wf (groups_tab (as_db (api_w db_signed_w pool_w)))"
    "g_signature row_signed_w = Some sig_w" "g_owner_pubkey row_signed_w = Some ''k''"
    "g_culture row_signed_w \<noteq> GROUP_TOMBSTONE_CULTURE" "CHR 0x0A \<notin> set (g_culture row_signed_w)"
    by (simp_all add: api_w_def db_signed_w_evals row_signed_w_def GROUP_TOMBSTONE_CULTURE_def hm_wf_def)
  have "\<forall>pkb sigb m. lib_hex_decode L_w ''k'' = Some pkb \<longrightarrow> lib_hex_decode L_w sig_w = Some sigb \<longrightarrow>
      lib_ed25519_verify L_w pkb m sigb \<longrightarrow>
      m = signing_payload (descriptor_of_group L_w (row_of_group ''g1'' row_signed_w))"
    by (auto simp: dec sig_w_verifies)
  moreover have "router api_env_w ''t5'' 0 True (api_w db_signed_w pool_w) auth_w (GroupsDelete ''g1'') =
      (fst delete_signed_w, [], (OK, OkTrue))"
    using delete_signed_w by (simp only: delete_signed_w_def)
  ultimately have "gd_culture desc = GROUP_TOMBSTONE_CULTURE \<and>
      merge_descriptors L_w ''t6'' db_group_w [desc] = (\<lparr>mr_upserted = [], mr_tombstoned = []\<rparr>, db_group_w)"
    by (intro signed_group_deletion_stays_local [OF _ row(2,3,1,4-7) _ desc(1) _ desc(2)]) simp_all
  then show ?thesis
    using desc v by blast
qed

end
