(* ===== verification/Governor_Task.thy ===== *)
theory Governor_Task
  imports Swarm
begin

text \<open>
  The governor task (\<^verbatim>\<open>cordelia-node/src/governor_task.rs\<close>): it seeds the bootnodes, ticks the
  governor, applies its actions to the pool, dials, exchanges groups with the peers, asks relays
  for peers, and follows the events of the network task. One turn of the loop is \<open>gov_task_step\<close>;
  its outputs are the commands sent to the network task.

  Parsing of addresses and peer ids and the derivation of a peer id from a seed are functions of
  \<open>libp2p\<close> and parameters of the environment, as is the parser of socket addresses. A resolution of a
  host name gives the first address or nothing, and may differ from one turn to the next. The
  tasks the loop spawns wait for a reply: what an exchange remembers while it waits is stored
  under its reply channel, and its continuation is a turn of its own. A spawned exchange sends its
  request when it is spawned. The network task is taken to be there, so that sends succeed.
\<close>

section \<open>Bootnodes\<close>

text \<open>The textual forms of the address and the port of a socket address.\<close>

record socket_addr =
  sa_ip :: string
  sa_port :: string

record gov_env =
  ge_lib :: crypto_lib
  ge_parse_multiaddr :: "string \<Rightarrow> multiaddr option"
  ge_parse_socket_addr :: "string \<Rightarrow> socket_addr option"
  ge_parse_peer_id :: "string \<Rightarrow> node_id option"
  ge_seed_peer_id :: "bytes \<Rightarrow> node_id"
  ge_our_peer_id :: node_id

type_synonym dns = "string \<Rightarrow> socket_addr option"

definition socket_multiaddr :: "gov_env \<Rightarrow> socket_addr \<Rightarrow> multiaddr option" where
  "socket_multiaddr env s = ge_parse_multiaddr env (''/ip4/'' @ sa_ip s @ ''/tcp/'' @ sa_port s)"

definition parse_bootnode_multiaddr :: "gov_env \<Rightarrow> dns \<Rightarrow> string \<Rightarrow> multiaddr option" where
  "parse_bootnode_multiaddr env lookup_host boot =
     (case ge_parse_multiaddr env boot of
        Some addr \<Rightarrow> Some addr
      | None \<Rightarrow>
          case ge_parse_socket_addr env boot of
            Some s \<Rightarrow> socket_multiaddr env s
          | None \<Rightarrow>
              case lookup_host boot of
                Some s \<Rightarrow> socket_multiaddr env s
              | None \<Rightarrow> None)"

definition placeholder_id :: "gov_env \<Rightarrow> string \<Rightarrow> node_id" where
  "placeholder_id env bootnode_addr =
     (let hash = lib_hex_encode (ge_lib env) (lib_sha256 (ge_lib env) (as_bytes bootnode_addr));
          hash_bytes = unwrap_or (lib_hex_decode (ge_lib env) hash) [];
          len = min 32 (length hash_bytes)
      in ge_seed_peer_id env (take len hash_bytes @ replicate (32 - len) 0))"

definition seed_bootnode :: "gov_env \<Rightarrow> instant \<Rightarrow> governor \<Rightarrow> string \<Rightarrow> multiaddr \<Rightarrow> governor" where
  "seed_bootnode env now gov bootnode_addr addr =
     (let i = placeholder_id env bootnode_addr
      in set_peer_relay i True (add_peer now i [addr] [] gov))"

section \<open>Addresses\<close>

definition is_loopback_addr :: "multiaddr \<Rightarrow> bool" where
  "is_loopback_addr addr = list_ex (\<lambda>c. case c of Ip4 a _ _ _ \<Rightarrow> a = 127 | _ \<Rightarrow> False) addr"

definition ip4_is_private :: "u8 \<Rightarrow> u8 \<Rightarrow> bool" where
  "ip4_is_private a b \<longleftrightarrow> a = 10 \<or> a = 172 \<and> 16 \<le> b \<and> b \<le> 31 \<or> a = 192 \<and> b = 168"

definition is_public_addr :: "multiaddr \<Rightarrow> bool" where
  "is_public_addr addr =
     list_all (\<lambda>c. case c of Ip4 a b _ _ \<Rightarrow> \<not> ip4_is_private a b | _ \<Rightarrow> True) addr"

definition filter_identify_addrs :: "multiaddr list \<Rightarrow> multiaddr list" where
  "filter_identify_addrs addrs =
     (let non_loopback = filter (\<lambda>a. \<not> is_loopback_addr a) addrs
      in if list_ex is_public_addr non_loopback then filter is_public_addr non_loopback else non_loopback)"

section \<open>State\<close>

datatype exchange_task =
    PeriodicExchange node_id bool
  | InitialExchange node_id bool

record gov_task_state =
  gt_gov :: governor
  gt_pool :: peer_pool
  gt_unresolved :: "string list"
  gt_resolved :: "(string \<times> multiaddr) list"
  gt_pending_dials :: "(multiaddr, node_id) hashmap"
  gt_tick_count :: u64
  gt_exchanges :: "(channel, exchange_task) hashmap"
  gt_discoveries :: nat

definition GROUP_EXCHANGE_TICKS :: u64 where
  "GROUP_EXCHANGE_TICKS = group_exchange_ticks ERA_0"

definition PEER_DISCOVERY_TICKS :: u64 where
  "PEER_DISCOVERY_TICKS = peer_discovery_ticks ERA_0"

definition GOSSIP_FAN_OUT :: nat where
  "GOSSIP_FAN_OUT = 3"

text \<open>The outcome of seeding a list of bootnodes: those resolved are added to the governor.\<close>

fun seed_all ::
  "gov_env \<Rightarrow> dns \<Rightarrow> instant \<Rightarrow> governor \<Rightarrow> string list \<Rightarrow>
     governor \<times> (string \<times> multiaddr) list \<times> string list" where
  "seed_all env dns now gov [] = (gov, [], [])"
| "seed_all env dns now gov (boot # boots) =
     (case parse_bootnode_multiaddr env dns boot of
        Some addr \<Rightarrow>
          (case seed_all env dns now (seed_bootnode env now gov boot addr) boots of
             (g, resolved, unresolved) \<Rightarrow> (g, (boot, addr) # resolved, unresolved))
      | None \<Rightarrow>
          (case seed_all env dns now gov boots of
             (g, resolved, unresolved) \<Rightarrow> (g, resolved, boot # unresolved)))"

definition start_governor ::
  "gov_env \<Rightarrow> dns \<Rightarrow> instant \<Rightarrow> governor \<Rightarrow> peer_pool \<Rightarrow> string list \<Rightarrow> gov_task_state" where
  "start_governor env dns now gov pool bootnodes =
     (case seed_all env dns now gov bootnodes of
        (g, resolved, unresolved) \<Rightarrow>
          \<lparr>gt_gov = g, gt_pool = pool, gt_unresolved = unresolved, gt_resolved = resolved,
           gt_pending_dials = [], gt_tick_count = 0, gt_exchanges = [], gt_discoveries = 0\<rparr>)"

section \<open>The tick\<close>

definition dial_promoted ::
  "(multiaddr, node_id) hashmap \<times> swarm_command list \<Rightarrow> governor \<Rightarrow> node_id \<Rightarrow>
     (multiaddr, node_id) hashmap \<times> swarm_command list" where
  "dial_promoted pc gov i =
     (case pc of (pending, cmds) \<Rightarrow>
       case hm_get (peers gov) i of
         Some p \<Rightarrow>
           (case pi_addrs p of
              addr # _ \<Rightarrow> (hm_insert addr i pending, cmds @ [Dial addr])
            | [] \<Rightarrow> (pending, cmds))
       | None \<Rightarrow> (pending, cmds))"

definition tick_actions ::
  "(nat \<Rightarrow> instant) \<Rightarrow> gov_task_state \<Rightarrow> gov_task_state \<times> swarm_command list" where
  "tick_actions clk st =
     (case tick clk (set_groups (pp_our_groups (gt_pool st)) (gt_gov st)) of
        (gov, actions) \<Rightarrow>
          case apply_governor_actions actions (gt_pool st) of
            (disconnected, pool) \<Rightarrow>
              case foldl (\<lambda>pc i. dial_promoted pc gov i) (gt_pending_dials st, []) (act_connect actions) of
                (pending, dials) \<Rightarrow>
                  (st\<lparr>gt_gov := gov, gt_pool := pool, gt_pending_dials := pending,
                     gt_tick_count := gt_tick_count st + 1\<rparr>,
                   map Disconnect disconnected @ dials))"

definition retry_bootnodes :: "gov_env \<Rightarrow> dns \<Rightarrow> instant \<Rightarrow> gov_task_state \<Rightarrow> gov_task_state" where
  "retry_bootnodes env dns now st =
     (if gt_unresolved st \<noteq> [] \<and> gt_tick_count st \<le> 6
      then case seed_all env dns now (gt_gov st) (gt_unresolved st) of
             (gov, resolved, unresolved) \<Rightarrow>
               st\<lparr>gt_gov := gov, gt_resolved := gt_resolved st @ resolved, gt_unresolved := unresolved\<rparr>
      else st)"

definition redial_bootnodes :: "gov_env \<Rightarrow> dns \<Rightarrow> gov_task_state \<Rightarrow> swarm_command list" where
  "redial_bootnodes env dns st =
     (if 0 < gt_tick_count st \<and> gt_tick_count st mod 6 = 0
      then
        let active_addrs = concat (map ph_addrs (active_peers (gt_pool st)))
        in map (\<lambda>(boot, addr). Dial (unwrap_or (parse_bootnode_multiaddr env dns boot) addr))
             (filter (\<lambda>(boot, addr). addr \<notin> set active_addrs) (gt_resolved st))
      else [])"

definition exchanged_groups :: "peer_pool \<Rightarrow> string list" where
  "exchanged_groups pool =
     (case pp_relay_learned_groups pool of
        Some learned \<Rightarrow>
          foldl (\<lambda>gs g. if g \<in> set gs then gs else gs @ [g]) (pp_our_groups pool) learned
      | None \<Rightarrow> pp_our_groups pool)"

definition send_exchange ::
  "gov_task_state \<Rightarrow> channel \<Rightarrow> node_id \<Rightarrow> exchange_task \<Rightarrow> gov_task_state \<times> swarm_command" where
  "send_exchange st tx peer task =
     (st\<lparr>gt_exchanges := hm_insert tx task (gt_exchanges st)\<rparr>,
      SendGroupExchange peer
        \<lparr>ge_groups = exchanged_groups (gt_pool st), ge_descriptors = None\<rparr> tx)"

fun exchange_with_all ::
  "(nat \<Rightarrow> channel) \<Rightarrow> gov_task_state \<Rightarrow> peer_handle list \<Rightarrow> gov_task_state \<times> swarm_command list" where
  "exchange_with_all chan st [] = (st, [])"
| "exchange_with_all chan st (h # hs) =
     (case send_exchange st (chan (length hs)) (ph_node_id h) (PeriodicExchange (ph_node_id h) (ph_is_relay h)) of
        (st1, cmd) \<Rightarrow>
          case exchange_with_all chan st1 hs of (st2, cmds) \<Rightarrow> (st2, cmd # cmds))"

definition governor_tick ::
  "gov_env \<Rightarrow> dns \<Rightarrow> (nat \<Rightarrow> instant) \<Rightarrow> (nat \<Rightarrow> channel) \<Rightarrow> gov_task_state \<Rightarrow>
     gov_task_state \<times> swarm_command list" where
  "governor_tick env dns clk chan st =
     (case tick_actions clk st of
        (st1, cmds) \<Rightarrow>
          let st2 = retry_bootnodes env dns (clk 7) st1;
              redials = redial_bootnodes env dns st2
          in case (if gt_tick_count st2 mod GROUP_EXCHANGE_TICKS = 0
                   then exchange_with_all chan st2 (active_peers (gt_pool st2))
                   else (st2, [])) of
               (st3, exchanges) \<Rightarrow>
                 (if gt_tick_count st3 mod PEER_DISCOVERY_TICKS = 0
                  then st3\<lparr>gt_discoveries := gt_discoveries st3 + 1\<rparr> else st3,
                  cmds @ redials @ exchanges))"

section \<open>Events of the network task\<close>

text \<open>\<open>find_map\<close> with \<open>remove\<close>: the first address with a pending dial, which is taken out.\<close>

fun take_pending ::
  "(multiaddr, node_id) hashmap \<Rightarrow> multiaddr list \<Rightarrow> node_id option \<times> (multiaddr, node_id) hashmap" where
  "take_pending pending [] = (None, pending)"
| "take_pending pending (a # as) =
     (case hm_get pending a of
        Some i \<Rightarrow> (Some i, hm_remove a pending)
      | None \<Rightarrow> take_pending pending as)"

definition admit_peer ::
  "instant \<Rightarrow> governor \<Rightarrow> node_id option \<Rightarrow> node_id \<Rightarrow> multiaddr list \<Rightarrow> governor" where
  "admit_peer now gov placeholder peer addrs =
     (case placeholder of
        Some old \<Rightarrow>
          mark_connected now peer
            (if old \<noteq> peer then snd (replace_node_id old peer [] gov) else gov)
      | None \<Rightarrow>
          if hm_get (peers gov) peer \<noteq> None then mark_connected now peer gov
          else mark_connected now peer (add_peer now peer addrs [] gov))"

definition known_relay :: "governor \<Rightarrow> node_id \<Rightarrow> bool" where
  "known_relay gov i = (case hm_get (peers gov) i of Some p \<Rightarrow> pi_is_relay p | None \<Rightarrow> False)"

definition peer_connected ::
  "instant \<Rightarrow> channel \<Rightarrow> gov_task_state \<Rightarrow> node_id \<Rightarrow> multiaddr list \<Rightarrow> gov_task_state \<times> swarm_command list" where
  "peer_connected now tx st peer addrs =
     (case take_pending (gt_pending_dials st) addrs of
        (placeholder, pending) \<Rightarrow>
          let gov = admit_peer now (gt_gov st) placeholder peer addrs;
              is_relay = known_relay gov peer;
              st1 = st\<lparr>gt_gov := gov, gt_pending_dials := pending,
                      gt_pool := pool_insert peer addrs [] Warm 1 is_relay (gt_pool st)\<rparr>
          in case send_exchange st1 tx peer (InitialExchange peer is_relay) of
               (st2, cmd) \<Rightarrow> (st2, [cmd]))"

definition peer_disconnected :: "instant \<Rightarrow> gov_task_state \<Rightarrow> node_id \<Rightarrow> gov_task_state" where
  "peer_disconnected now st peer =
     st\<lparr>gt_pool := snd (pool_remove peer (gt_pool st)),
        gt_gov := mark_disconnected now peer (gt_gov st)\<rparr>"

definition ping_rtt :: "instant \<Rightarrow> gov_task_state \<Rightarrow> node_id \<Rightarrow> rat \<Rightarrow> gov_task_state" where
  "ping_rtt now st peer rtt =
     st\<lparr>gt_gov := record_activity now peer (Some rtt) (gt_gov st),
        gt_pool := update_rtt peer rtt (gt_pool st)\<rparr>"

definition identify_placeholder :: "governor \<Rightarrow> node_id \<Rightarrow> multiaddr list \<Rightarrow> node_id option" where
  "identify_placeholder gov peer listen_addrs =
     map_option pi_node_id
       (List.find (\<lambda>p. list_ex (\<lambda>a. a \<in> set listen_addrs) (pi_addrs p))
         (filter (\<lambda>p. pi_node_id p \<noteq> peer \<and> pi_state p = Cold) (hm_values (peers gov))))"

definition identify_received ::
  "instant \<Rightarrow> gov_task_state \<Rightarrow> node_id \<Rightarrow> multiaddr list \<Rightarrow> gov_task_state" where
  "identify_received now st peer listen_addrs =
     (let gov = (case identify_placeholder (gt_gov st) peer listen_addrs of
                   Some old \<Rightarrow> snd (replace_node_id old peer [] (gt_gov st))
                 | None \<Rightarrow> gt_gov st);
          filtered_addrs = filter_identify_addrs listen_addrs;
          st1 = st\<lparr>gt_gov := gov\<rparr>
      in if filtered_addrs = [] then st1
         else case pool_get (gt_pool st) peer of
                Some h \<Rightarrow>
                  if ph_addrs h \<noteq> filtered_addrs
                  then st1\<lparr>gt_gov := add_peer now peer filtered_addrs (ph_groups h) gov,
                           gt_pool := update_addrs peer filtered_addrs (gt_pool st)\<rparr>
                  else st1
              | None \<Rightarrow> st1)"

definition handle_swarm_event ::
  "instant \<Rightarrow> channel \<Rightarrow> gov_task_state \<Rightarrow> swarm_event2 \<Rightarrow> gov_task_state \<times> swarm_command list" where
  "handle_swarm_event now tx st ev =
     (case ev of
        PeerConnected peer addrs \<Rightarrow> peer_connected now tx st peer addrs
      | PeerDisconnected peer \<Rightarrow> (peer_disconnected now st peer, [])
      | PingRtt peer rtt \<Rightarrow> (ping_rtt now st peer rtt, [])
      | IdentifyReceived peer listen_addrs _ _ \<Rightarrow> (identify_received now st peer listen_addrs, [])
      | DialFailure (Some peer) \<Rightarrow> (st\<lparr>gt_gov := mark_dial_failed now peer (gt_gov st)\<rparr>, [])
      | DialFailure None \<Rightarrow> (st, [])
      | ExternalAddrConfirmed _ \<Rightarrow> (st, []))"

section \<open>Spawned tasks\<close>

text \<open>A reply channel is completed with a response or an error, or dropped (\<open>None\<close>).\<close>

definition learn_groups :: "bool \<Rightarrow> string list \<Rightarrow> peer_pool \<Rightarrow> peer_pool" where
  "learn_groups peer_is_relay gs pool =
     (if peer_is_relay then pool
      else pool\<lparr>pp_relay_learned_groups :=
             map_option (\<lambda>s. foldl (\<lambda>s g. List.insert g s) s gs) (pp_relay_learned_groups pool)\<rparr>)"

definition periodic_exchange_done ::
  "gov_task_state \<Rightarrow> node_id \<Rightarrow> bool \<Rightarrow> (string + group_exchange) option \<Rightarrow> gov_task_state" where
  "periodic_exchange_done st peer is_relay reply =
     (case reply of
        Some (Ok resp) \<Rightarrow>
          st\<lparr>gt_pool := learn_groups is_relay (ge_groups resp)
                         (update_peer_groups peer (ge_groups resp) (gt_pool st))\<rparr>
      | Some (Err _) \<Rightarrow> st
      | None \<Rightarrow> st)"

definition initial_exchange_done ::
  "instant \<Rightarrow> gov_task_state \<Rightarrow> node_id \<Rightarrow> bool \<Rightarrow> (string + group_exchange) option \<Rightarrow> gov_task_state" where
  "initial_exchange_done now st peer is_relay reply =
     (case reply of
        Some (Ok resp) \<Rightarrow>
          (let pool = update_peer_groups peer (ge_groups resp) (gt_pool st);
               addrs = (case pool_get pool peer of Some h \<Rightarrow> ph_addrs h | None \<Rightarrow> [])
           in st\<lparr>gt_pool := learn_groups is_relay (ge_groups resp) pool,
                 gt_gov := add_peer now peer addrs (ge_groups resp) (gt_gov st)\<rparr>)
      | Some (Err _) \<Rightarrow> st
      | None \<Rightarrow> st)"

text \<open>The task that waits on a channel goes on; a channel nobody waits on has no effect.\<close>

definition exchange_done ::
  "instant \<Rightarrow> gov_task_state \<Rightarrow> channel \<Rightarrow> (string + group_exchange) option \<Rightarrow> gov_task_state" where
  "exchange_done now st tx reply =
     (let st1 = st\<lparr>gt_exchanges := hm_remove tx (gt_exchanges st)\<rparr>
      in case hm_get (gt_exchanges st) tx of
           Some (PeriodicExchange peer is_relay) \<Rightarrow> periodic_exchange_done st1 peer is_relay reply
         | Some (InitialExchange peer is_relay) \<Rightarrow> initial_exchange_done now st1 peer is_relay reply
         | None \<Rightarrow> st)"

lemmas exchange_done_defs = exchange_done_def periodic_exchange_done_def initial_exchange_done_def

text \<open>
  The shuffle of the crate \<open>rand\<close> is the parameter \<open>shuffle\<close>. A discovery asks its relays, and
  goes on when each of them has answered, failed or been dropped.
\<close>

definition discover_targets :: "(peer_handle list \<Rightarrow> peer_handle list) \<Rightarrow> peer_pool \<Rightarrow> peer_handle list" where
  "discover_targets shuffle pool = take GOSSIP_FAN_OUT (shuffle (relay_peers pool))"

definition discover_start ::
  "(peer_handle list \<Rightarrow> peer_handle list) \<Rightarrow> (nat \<Rightarrow> channel) \<Rightarrow> gov_task_state \<Rightarrow>
     gov_task_state \<times> swarm_command list" where
  "discover_start shuffle chan st =
     (if gt_discoveries st = 0 then (st, [])
      else (st\<lparr>gt_discoveries := gt_discoveries st - 1\<rparr>,
            map (\<lambda>(k, h). SendPeerShareRequest (ph_node_id h) 20 (chan k))
              (enumerate 0 (discover_targets shuffle (gt_pool st)))))"

definition discover_peer :: "gov_env \<Rightarrow> instant \<Rightarrow> governor \<Rightarrow> peer_address \<Rightarrow> governor" where
  "discover_peer env now gov pa =
     (case ge_parse_peer_id env (pa_peer_id pa) of
        None \<Rightarrow> gov
      | Some peer \<Rightarrow>
          if peer = ge_our_peer_id env then gov
          else if (case hm_get (peers gov) peer of Some p \<Rightarrow> is_active (pi_state p) | None \<Rightarrow> False) then gov
          else
            let addrs = List.map_filter (ge_parse_multiaddr env) (pa_addrs pa)
            in if addrs = [] then gov
               else
                 let gov1 = add_peer now peer addrs (pa_groups pa) gov
                 in if pa_role pa = ''relay'' then set_peer_relay peer True gov1 else gov1)"

definition discover_done ::
  "gov_env \<Rightarrow> instant \<Rightarrow> gov_task_state \<Rightarrow> (string + peer_address list) option list \<Rightarrow> gov_task_state" where
  "discover_done env now st replies =
     (let all_peers = concat (map (\<lambda>r. case r of Some (Ok ps) \<Rightarrow> ps | _ \<Rightarrow> []) replies)
      in st\<lparr>gt_gov := foldl (discover_peer env now) (gt_gov st) all_peers\<rparr>)"

section \<open>The loop\<close>

datatype gov_task_event =
    GovTick dns "nat \<Rightarrow> instant" "nat \<Rightarrow> channel"
  | NetworkEvent instant channel swarm_event2
  | EventsLagged
  | ExchangeReply instant channel "(string + group_exchange) option"
  | DiscoverStart "peer_handle list \<Rightarrow> peer_handle list" "nat \<Rightarrow> channel"
  | DiscoverReplies instant "(string + peer_address list) option list"

definition gov_task_step ::
  "gov_env \<Rightarrow> gov_task_state \<Rightarrow> gov_task_event \<Rightarrow> gov_task_state \<times> swarm_command list" where
  "gov_task_step env st ev =
     (case ev of
        GovTick dns clk chan \<Rightarrow> governor_tick env dns clk chan st
      | NetworkEvent now tx e \<Rightarrow> handle_swarm_event now tx st e
      | EventsLagged \<Rightarrow> (st, [])
      | ExchangeReply now tx reply \<Rightarrow> (exchange_done now st tx reply, [])
      | DiscoverStart shuffle chan \<Rightarrow> discover_start shuffle chan st
      | DiscoverReplies now replies \<Rightarrow> (discover_done env now st replies, []))"

fun run_governor_loop ::
  "gov_env \<Rightarrow> gov_task_state \<Rightarrow> gov_task_event list \<Rightarrow> gov_task_state \<times> swarm_command list" where
  "run_governor_loop env st [] = (st, [])"
| "run_governor_loop env st (ev # evs) =
     (case gov_task_step env st ev of
        (st1, out1) \<Rightarrow>
          case run_governor_loop env st1 evs of (st2, out2) \<Rightarrow> (st2, out1 @ out2))"

end
