(* ===== verification/Governor_Task_Props.thy ===== *)
theory Governor_Task_Props
  imports Governor_Task
begin

text \<open>
  What the governor task guarantees: its governor only moves by the steps of the governor, its
  pool follows the governor as long as the connections it hears of belong to peers it can
  account for, it dials only what the dial policy allows or a bootnode, and discovery leaves the
  node itself and the connected peers alone; and where these guarantees end.
\<close>

section \<open>The governor moves by its own steps\<close>

lemma gov_steps_trans: "gov_step\<^sup>*\<^sup>* g g1 \<Longrightarrow> gov_step g1 g2 \<Longrightarrow> gov_step\<^sup>*\<^sup>* g g2"
  by (rule rtranclp.rtrancl_into_rtrancl)

lemma seed_steps: "gov_step\<^sup>*\<^sup>* g (seed_bootnode env now g boot addr)"
  unfolding seed_bootnode_def Let_def
  by (meson gov_step.add gov_step.relay gov_steps_trans r_into_rtranclp)

lemma seed_all_steps: "gov_step\<^sup>*\<^sup>* g (fst (seed_all env dns now g boots))"
proof (induction boots arbitrary: g)
  case (Cons boot boots)
  then show ?case
    by (auto simp: split_beta split: option.split intro: rtranclp_trans [OF seed_steps])
qed simp

lemma admit_steps: "gov_step\<^sup>*\<^sup>* g (admit_peer now g ph peer addrs)"
proof -
  have "gov_step\<^sup>*\<^sup>* g (mark_connected now peer g1)" if "gov_step\<^sup>*\<^sup>* g g1" for g1
    using that gov_step.connected by (rule gov_steps_trans)
  then show ?thesis
    by (auto simp: admit_peer_def split: option.split
        intro: r_into_rtranclp gov_step.replace gov_step.add)
qed

lemma discover_peer_steps: "gov_step\<^sup>*\<^sup>* g (discover_peer env now g pa)"
  by (auto simp: discover_peer_def Let_def split: option.split
      intro: r_into_rtranclp gov_step.add gov_steps_trans [OF _ gov_step.relay])

lemma discover_fold_steps: "gov_step\<^sup>*\<^sup>* g (foldl (discover_peer env now) g pas)"
proof (induction pas arbitrary: g)
  case (Cons pa pas)
  then show ?case
    using discover_peer_steps rtranclp_trans by (metis foldl_Cons)
qed simp

lemma exchange_all_frame [simp]:
  "gt_gov (fst (exchange_with_all chan st hs)) = gt_gov st"
  "gt_pool (fst (exchange_with_all chan st hs)) = gt_pool st"
  "gt_unresolved (fst (exchange_with_all chan st hs)) = gt_unresolved st"
  "gt_resolved (fst (exchange_with_all chan st hs)) = gt_resolved st"
  "gt_tick_count (fst (exchange_with_all chan st hs)) = gt_tick_count st"
  "gt_pending_dials (fst (exchange_with_all chan st hs)) = gt_pending_dials st"
  by (induction hs arbitrary: st) (simp_all add: send_exchange_def split_beta)

lemma tick_actions_gov [simp]:
  "gt_gov (fst (tick_actions clk st)) = fst (tick clk (set_groups (pp_our_groups (gt_pool st)) (gt_gov st)))"
  by (simp add: tick_actions_def split_beta)

lemma tick_actions_frame [simp]:
  "gt_tick_count (fst (tick_actions clk st)) = gt_tick_count st + 1"
  "gt_resolved (fst (tick_actions clk st)) = gt_resolved st"
  "gt_unresolved (fst (tick_actions clk st)) = gt_unresolved st"
  "gt_pool (fst (tick_actions clk st)) =
     snd (apply_governor_actions (snd (tick clk (set_groups (pp_our_groups (gt_pool st)) (gt_gov st)))) (gt_pool st))"
  by (simp_all add: tick_actions_def split_beta)

lemma retry_gov_steps: "gov_step\<^sup>*\<^sup>* (gt_gov st) (gt_gov (retry_bootnodes env dns now st))"
  using seed_all_steps [of "gt_gov st" env dns now "gt_unresolved st"]
  by (simp add: retry_bootnodes_def split_beta)

lemma governor_tick_gov:
  "gt_gov (fst (governor_tick env dns clk chan st)) =
     gt_gov (retry_bootnodes env dns (clk 7) (fst (tick_actions clk st)))"
  by (simp add: governor_tick_def Let_def split_beta)

lemma governor_tick_steps: "gov_step\<^sup>*\<^sup>* (gt_gov st) (gt_gov (fst (governor_tick env dns clk chan st)))"
proof -
  have "gov_step\<^sup>*\<^sup>* (gt_gov st) (gt_gov (fst (tick_actions clk st)))"
  proof -
    have "gov_step\<^sup>*\<^sup>* (gt_gov st) (set_groups (pp_our_groups (gt_pool st)) (gt_gov st))"
      by (blast intro: gov_step.groups)
    then show ?thesis
      unfolding tick_actions_gov using gov_step.tick by (rule gov_steps_trans)
  qed
  then show ?thesis
    unfolding governor_tick_gov using retry_gov_steps by (rule rtranclp_trans)
qed

lemma exchange_done_steps: "gov_step\<^sup>*\<^sup>* (gt_gov st) (gt_gov (exchange_done now st tx reply))"
  by (auto simp: exchange_done_defs Let_def split: option.split exchange_task.split sum.split
      intro: gov_step.add)

lemma identify_steps: "gov_step\<^sup>*\<^sup>* (gt_gov st) (gt_gov (identify_received now st peer addrs))"
proof -
  let ?g = "case identify_placeholder (gt_gov st) peer addrs of
      Some old \<Rightarrow> snd (replace_node_id old peer [] (gt_gov st)) | None \<Rightarrow> gt_gov st"
  have "gov_step\<^sup>*\<^sup>* (gt_gov st) ?g"
    by (auto split: option.split intro: gov_step.replace)
  moreover have "gov_step\<^sup>*\<^sup>* (gt_gov st) (add_peer now peer as gs ?g)" for as gs
    using calculation gov_step.add by (rule gov_steps_trans)
  ultimately show ?thesis
    by (simp add: identify_received_def Let_def split: option.split)
qed

lemma network_event_steps: "gov_step\<^sup>*\<^sup>* (gt_gov st) (gt_gov (fst (handle_swarm_event now tx st ev)))"
proof (cases ev)
  case (PeerConnected peer addrs)
  then show ?thesis
    by (simp add: handle_swarm_event_def peer_connected_def send_exchange_def Let_def split_beta admit_steps)
next
  case (IdentifyReceived peer addrs ob ag)
  then show ?thesis
    by (simp add: handle_swarm_event_def identify_steps)
qed (auto simp: handle_swarm_event_def peer_disconnected_def ping_rtt_def split: option.split
    intro: gov_step.intros)

lemma gov_task_steps: "gov_step\<^sup>*\<^sup>* (gt_gov st) (gt_gov (fst (gov_task_step env st ev)))"
  by (cases ev)
    (simp_all add: gov_task_step_def governor_tick_steps network_event_steps exchange_done_steps
      discover_start_def discover_done_def discover_fold_steps Let_def)

section \<open>The pool follows the governor\<close>

definition active_state :: "governor \<Rightarrow> node_id \<Rightarrow> peer_state option" where
  "active_state g i =
     (case hm_get (peers g) i of
        Some p \<Rightarrow> if is_active (pi_state p) then Some (pi_state p) else None
      | None \<Rightarrow> None)"

definition pool_state :: "peer_pool \<Rightarrow> node_id \<Rightarrow> peer_state option" where
  "pool_state pool i = map_option ph_state (hm_get (pp_inner pool) i)"

lemma in_sync_states: "in_sync g pool \<longleftrightarrow> pool_state pool = active_state g"
proof -
  have "pool_state pool i = active_state g i \<longleftrightarrow>
      (hm_get (pp_inner pool) i \<noteq> None) = (i \<in> active_ids g) \<and>
      (\<forall>h p. hm_get (pp_inner pool) i = Some h \<longrightarrow> hm_get (peers g) i = Some p \<longrightarrow> ph_state h = pi_state p)" for i
    by (cases "hm_get (pp_inner pool) i"; cases "hm_get (peers g) i")
      (simp_all add: pool_state_def active_state_def ids_in_def)
  then show ?thesis
    unfolding in_sync_def fun_eq_iff by blast
qed

lemma add_peer_active [simp]: "active_state (add_peer now j addrs gs g) = active_state g"
  by (auto simp: fun_eq_iff active_state_def add_peer_def hm_get_simps new_peer_info_def split: option.split)

lemma set_relay_active [simp]: "active_state (set_peer_relay j b g) = active_state g"
  by (auto simp: fun_eq_iff active_state_def set_peer_relay_def hm_get_simps split: option.split)

lemma set_groups_active [simp]: "active_state (set_groups gs g) = active_state g"
  by (simp add: fun_eq_iff active_state_def set_groups_def)

lemma record_activity_active [simp]: "active_state (record_activity now j rtt g) = active_state g"
  by (auto simp: fun_eq_iff active_state_def record_activity_def hm_get_simps Let_def split: option.split)

lemma dial_failed_active [simp]: "active_state (mark_dial_failed now j g) = active_state g"
  by (auto simp: fun_eq_iff active_state_def mark_dial_failed_def hm_get_simps split: option.split)

lemma disconnected_active: "active_state (mark_disconnected now j g) = (active_state g)(j := None)"
  by (auto simp: fun_eq_iff active_state_def mark_disconnected_def hm_get_simps split: option.split)

lemma connected_active:
  "hm_get (peers g) j = Some p \<Longrightarrow> pi_state p = Cold \<Longrightarrow>
     active_state (mark_connected now j g) = (active_state g)(j \<mapsto> Warm)"
  by (auto simp: fun_eq_iff active_state_def mark_connected_def hm_get_simps split: option.split)

lemma replace_cold:
  assumes "hm_get (peers g) old = Some p" "pi_state p = Cold" "old \<noteq> new"
  shows "active_state (snd (replace_node_id old new gs g)) = active_state g"
    and "\<not> (\<exists>q. hm_get (peers g) new = Some q \<and> is_active (pi_state q)) \<Longrightarrow>
      \<exists>q. hm_get (peers (snd (replace_node_id old new gs g))) new = Some q \<and> pi_state q = Cold"
  using assms
  by (auto simp: fun_eq_iff active_state_def replace_node_id_def hm_get_simps Let_def split: option.split)

lemma pool_states [simp]:
  "pool_state (pool_insert j addrs gs s v r pool) = (pool_state pool)(j \<mapsto> s)"
  "pool_state (snd (pool_remove j pool)) = (pool_state pool)(j := None)"
  "pool_state (update_rtt j rtt pool) = pool_state pool"
  "pool_state (update_addrs j addrs pool) = pool_state pool"
  "pool_state (update_peer_groups j gs pool) = pool_state pool"
  "pool_state (learn_groups b gs pool) = pool_state pool"
  by (auto simp: fun_eq_iff pool_state_def pool_insert_def pool_remove_def update_rtt_def update_addrs_def
      update_peer_groups_def learn_groups_def pool_upd_def hm_get_simps option.map_comp comp_def
      split: option.split)

lemma seed_all_active: "active_state (fst (seed_all env dns now g boots)) = active_state g"
  by (induction boots arbitrary: g) (simp_all add: seed_bootnode_def Let_def split_beta split: option.split)

lemma discover_active: "active_state (foldl (discover_peer env now) g pas) = active_state g"
proof (induction pas arbitrary: g)
  case (Cons pa pas)
  have "active_state (discover_peer env now g pa) = active_state g"
    by (simp add: discover_peer_def Let_def split: option.split)
  with Cons show ?case
    by simp
qed simp

text \<open>
  A connection the task can account for: the peer is not active or banned already, and if the
  connection answers a dial, the governor still holds the peer that was dialled, unconnected.
\<close>

definition cold_peer :: "governor \<Rightarrow> node_id \<Rightarrow> bool" where
  "cold_peer g i = (case hm_get (peers g) i of Some p \<Rightarrow> pi_state p = Cold | None \<Rightarrow> False)"

fun accounted :: "gov_task_state \<Rightarrow> gov_task_event \<Rightarrow> bool" where
  "accounted st (NetworkEvent now tx (PeerConnected peer addrs)) \<longleftrightarrow>
     (hm_get (peers (gt_gov st)) peer = None \<or> cold_peer (gt_gov st) peer) \<and>
     (case fst (take_pending (gt_pending_dials st) addrs) of
        Some old \<Rightarrow> cold_peer (gt_gov st) old
      | None \<Rightarrow> True)"
| "accounted st _ \<longleftrightarrow> True"

lemma cold_peer_iff: "cold_peer g i \<longleftrightarrow> (\<exists>p. hm_get (peers g) i = Some p \<and> pi_state p = Cold)"
  by (simp add: cold_peer_def split: option.split)

lemma connected_active': "cold_peer g j \<Longrightarrow> active_state (mark_connected now j g) = (active_state g)(j \<mapsto> Warm)"
  unfolding cold_peer_iff by (blast intro: connected_active)

lemma admit_active:
  assumes "hm_get (peers g) peer = None \<or> cold_peer g peer"
    and "case ph of Some old \<Rightarrow> cold_peer g old | None \<Rightarrow> True"
  shows "active_state (admit_peer now g ph peer addrs) = (active_state g)(peer \<mapsto> Warm)"
proof (cases ph)
  case None
  have "cold_peer (add_peer now peer addrs [] g) peer" if "hm_get (peers g) peer = None"
    using that by (simp add: cold_peer_def add_peer_def hm_get_simps new_peer_info_def)
  then show ?thesis
    using assms None by (auto simp: admit_peer_def connected_active' cold_peer_def split: option.splits)
next
  case (Some old)
  obtain p where p: "hm_get (peers g) old = Some p" "pi_state p = Cold"
    using assms(2) Some by (auto simp: cold_peer_iff)
  have "\<not> (\<exists>q. hm_get (peers g) peer = Some q \<and> is_active (pi_state q))"
    using assms(1) by (auto simp: cold_peer_iff)
  then have "old \<noteq> peer \<Longrightarrow> cold_peer (snd (replace_node_id old peer [] g)) peer"
    using replace_cold(2) [OF p] by (simp add: cold_peer_iff)
  then show ?thesis
    using Some p replace_cold(1) [OF p, of peer "[]"]
    by (auto simp: admit_peer_def connected_active' cold_peer_iff)
qed

lemma identify_in_sync:
  assumes "gov_wf (gt_gov st)" "in_sync (gt_gov st) (gt_pool st)"
  shows "in_sync (gt_gov (identify_received now st peer addrs)) (gt_pool (identify_received now st peer addrs))"
proof -
  have "active_state (snd (replace_node_id old peer [] (gt_gov st))) = active_state (gt_gov st)"
    if ph: "identify_placeholder (gt_gov st) peer addrs = Some old" for old
  proof -
    obtain p where p: "p \<in> set (hm_values (peers (gt_gov st)))" "pi_node_id p = old" "pi_state p = Cold" "old \<noteq> peer"
      using ph by (auto simp: identify_placeholder_def find_Some_iff dest!: nth_mem)
    then obtain i where "(i, p) \<in> set (peers (gt_gov st))"
      by (auto simp: hm_values_def)
    then have "hm_get (peers (gt_gov st)) old = Some p"
      using gov_wf_hm [OF assms(1)] gov_wf_peer [OF assms(1), of i p] p(2)
      by (simp add: hm_get_iff peer_ok_def)
    then show ?thesis
      using p by (intro replace_cold(1))
  qed
  then show ?thesis
    using assms(2)
    by (simp add: in_sync_states identify_received_def Let_def split: option.split)
qed

lemma tick_in_sync:
  assumes "gov_wf (gt_gov st)" "in_sync (gt_gov st) (gt_pool st)"
  shows "in_sync (gt_gov (fst (governor_tick env dns clk chan st))) (gt_pool (fst (governor_tick env dns clk chan st)))"
proof -
  let ?g = "set_groups (pp_our_groups (gt_pool st)) (gt_gov st)"
  let ?st1 = "fst (tick_actions clk st)"
  have "gov_wf ?g" "in_sync ?g (gt_pool st)"
    using assms by (simp_all add: in_sync_states) (simp add: gov_wf_def set_groups_def)
  then have "in_sync (gt_gov ?st1) (gt_pool ?st1)"
    using tick_keeps_pool_in_sync [OF _ _ prod.collapse [symmetric] prod.collapse [symmetric]]
    by (simp add: tick_actions_def split_beta)
  then show ?thesis
    by (simp add: governor_tick_def Let_def split_beta in_sync_states retry_bootnodes_def seed_all_active)
qed

lemma gov_task_in_sync:
  assumes "gov_wf (gt_gov st)" "in_sync (gt_gov st) (gt_pool st)" "accounted st ev"
  shows "in_sync (gt_gov (fst (gov_task_step env st ev))) (gt_pool (fst (gov_task_step env st ev)))"
proof (cases ev)
  case (NetworkEvent now tx e)
  show ?thesis
  proof (cases e)
    case (PeerConnected peer addrs)
    then show ?thesis
      using assms(2,3) NetworkEvent
      by (simp add: gov_task_step_def handle_swarm_event_def peer_connected_def send_exchange_def Let_def
          split_beta in_sync_states admit_active)
  next
    case (IdentifyReceived peer addrs ob ag)
    then show ?thesis
      using assms(1,2) NetworkEvent
      by (simp add: gov_task_step_def handle_swarm_event_def identify_in_sync)
  qed (use assms(2) NetworkEvent in \<open>simp_all add: gov_task_step_def handle_swarm_event_def in_sync_states
      peer_disconnected_def ping_rtt_def disconnected_active split: option.split\<close>)
next
  case (GovTick dns clk chan)
  then show ?thesis
    using tick_in_sync [OF assms(1,2)] by (simp add: gov_task_step_def)
qed (use assms(2) in \<open>simp_all add: gov_task_step_def in_sync_states exchange_done_defs discover_start_def
      discover_done_def discover_active Let_def split: option.split exchange_task.split sum.split\<close>)

inductive gov_task_reach ::
  "gov_env \<Rightarrow> governor_targets \<Rightarrow> dial_policy \<Rightarrow> gov_task_state \<Rightarrow> bool"
  for env :: gov_env and ts :: governor_targets and pol :: dial_policy where
  start: "pp_inner pool = [] \<Longrightarrow>
    gov_task_reach env ts pol
      (start_governor env dns now (with_dial_policy now0 ts (pp_our_groups pool) pol) pool boots)"
| step: "gov_task_reach env ts pol st \<Longrightarrow> accounted st ev \<Longrightarrow> gov_task_step env st ev = (st', out) \<Longrightarrow>
    gov_task_reach env ts pol st'"

lemma start_gov:
  "gt_gov (start_governor env dns now g pool boots) = fst (seed_all env dns now g boots)"
  "gt_pool (start_governor env dns now g pool boots) = pool"
  by (simp_all add: start_governor_def split_beta)

lemma gov_task_reach_steps:
  "gov_task_reach env ts pol st \<Longrightarrow> \<exists>now gs. gov_step\<^sup>*\<^sup>* (with_dial_policy now ts gs pol) (gt_gov st)"
proof (induction rule: gov_task_reach.induct)
  case (start pool dns now now0 boots)
  then show ?case
    unfolding start_gov by (intro exI) (rule seed_all_steps)
next
  case (step st ev st' out)
  then show ?case
    using gov_task_steps [of st env ev] rtranclp_trans by (metis fst_conv)
qed

lemma gov_steps_wf: "gov_step\<^sup>*\<^sup>* g g' \<Longrightarrow> gov_wf g \<Longrightarrow> gov_wf g' \<and> targets g' = targets g \<and> dial_policy_of g' = dial_policy_of g"
proof (induction rule: rtranclp_induct)
  case (step g1 g2)
  then show ?case
    using gov_step_wf gov_step_policy by metis
qed simp

lemma fresh_governor_wf: "gov_wf (with_dial_policy now ts gs pol)"
  by (simp add: with_dial_policy_def gov_wf_def hm_wf_def)

lemma reach_gov:
  assumes "gov_task_reach env ts pol st"
  shows "gov_wf (gt_gov st) \<and> targets (gt_gov st) = ts \<and> dial_policy_of (gt_gov st) = pol"
proof -
  obtain now gs where "gov_step\<^sup>*\<^sup>* (with_dial_policy now ts gs pol) (gt_gov st)"
    using gov_task_reach_steps [OF assms] by blast
  from gov_steps_wf [OF this fresh_governor_wf] show ?thesis
    by (simp add: with_dial_policy_def)
qed

text \<open>
  C33. As long as the connections reported to it can be accounted for, the governor task keeps the
  pool in step with the governor through ticks, events, exchanges and discoveries in any order:
  the pool holds exactly the peers the governor considers active, each in the same state. The
  governor stays well formed and keeps the targets and the dial policy it was created with.
\<close>

theorem pool_tracks_governor:
  assumes "gov_task_reach env ts pol st"
  shows "in_sync (gt_gov st) (gt_pool st) \<and> gov_wf (gt_gov st) \<and>
    targets (gt_gov st) = ts \<and> dial_policy_of (gt_gov st) = pol"
proof -
  have "in_sync (gt_gov st) (gt_pool st)"
    using assms
  proof (induction rule: gov_task_reach.induct)
    case (start pool dns now now0 boots)
    then show ?case
      by (simp add: start_gov in_sync_states seed_all_active fun_eq_iff pool_state_def active_state_def
          with_dial_policy_def)
  next
    case (step st ev st' out)
    then show ?case
      using gov_task_in_sync [of st ev env] reach_gov [OF step.hyps(1)] by simp
  qed
  then show ?thesis
    using reach_gov [OF assms] by blast
qed

definition gov_env_w :: gov_env where
  "gov_env_w =
     \<lparr>ge_lib = L_w, ge_parse_multiaddr = (\<lambda>s. if s = ''/boot'' then Some [Ip4 1 2 3 4] else None),
      ge_parse_socket_addr = (\<lambda>_. None), ge_parse_peer_id = (\<lambda>s. Some (PeerId (length s))),
      ge_seed_peer_id = (\<lambda>_. PeerId 100), ge_our_peer_id = PeerId 0\<rparr>"

definition boot_w :: gov_task_state where
  "boot_w = start_governor gov_env_w (\<lambda>_. None) 0
     (with_dial_policy 0 default_governor_targets [''g1''] RelaysOnly) (new_pool [''g1'']) [''/boot'']"

definition connect_w :: gov_task_event where
  "connect_w = NetworkEvent 5 1 (PeerConnected (PeerId 7) [[Ip4 1 2 3 4]])"

lemma boot_w_reach: "gov_task_reach gov_env_w default_governor_targets RelaysOnly boot_w"
  using gov_task_reach.start [of "new_pool [''g1'']" gov_env_w default_governor_targets RelaysOnly
      "\<lambda>_. None" 0 0 "[''/boot'']"]
  by (simp add: boot_w_def new_pool_def)

lemma boot_w_evals:
  "gt_pending_dials boot_w = []" "hm_get (peers (gt_gov boot_w)) (PeerId 7) = None" "pp_inner (gt_pool boot_w) = []"
  by (simp_all add: boot_w_def start_governor_def split_beta gov_env_w_def parse_bootnode_multiaddr_def
      seed_bootnode_def placeholder_id_def with_dial_policy_def add_peer_def set_peer_relay_def hm_get_simps
      Let_def new_pool_def)

theorem pool_tracks_governor_witness:
  "hm_get (pp_inner (gt_pool (fst (gov_task_step gov_env_w boot_w connect_w)))) (PeerId 7) \<noteq> None \<and>
   in_sync (gt_gov (fst (gov_task_step gov_env_w boot_w connect_w)))
     (gt_pool (fst (gov_task_step gov_env_w boot_w connect_w)))"
proof -
  have "accounted boot_w connect_w"
    by (simp add: connect_w_def boot_w_evals)
  from gov_task_reach.step [OF boot_w_reach this prod.collapse [symmetric]]
  have "gov_task_reach gov_env_w default_governor_targets RelaysOnly (fst (gov_task_step gov_env_w boot_w connect_w))" .
  from pool_tracks_governor [OF this] show ?thesis
    by (simp add: gov_task_step_def connect_w_def handle_swarm_event_def peer_connected_def send_exchange_def
        Let_def split_beta pool_insert_def hm_get_simps)
qed

section \<open>Connections it cannot account for\<close>

lemma cold_not_disconnected:
  assumes "gov_wf g" "cold_peer g i"
  shows "i \<notin> set (act_disconnect (snd (tick clk g)))"
  using tick_contract [OF assms(1), of clk] assms(2)
  by (auto simp: phase_contract_def no_actions_def ids_in_def cold_peer_iff)

lemma applied_actions_get:
  assumes "i \<notin> set (act_disconnect a)" "hm_get (pp_inner pool) i = Some h"
  shows "hm_get (pp_inner (snd (apply_governor_actions a pool))) i \<noteq> None"
  using assms drop_disconnected_fold [OF prod.collapse [symmetric], of "[]"
      "foldl (\<lambda>p tr. apply_transition tr p) pool (act_transitions a)" "act_disconnect a" i]
  by (simp add: apply_governor_actions_def Let_def apply_transitions_get)

lemma governor_tick_pool:
  "gt_pool (fst (governor_tick env dns clk chan st)) =
     snd (apply_governor_actions (snd (tick clk (set_groups (pp_our_groups (gt_pool st)) (gt_gov st)))) (gt_pool st))"
  by (simp add: governor_tick_def tick_actions_def retry_bootnodes_def Let_def split_beta)

lemma dial_command:
  "cmd \<in> set (snd (dial_promoted pc gov i)) \<Longrightarrow>
     cmd \<in> set (snd pc) \<or> (\<exists>p a rest. hm_get (peers gov) i = Some p \<and> pi_addrs p = a # rest \<and> cmd = Dial a)"
  by (cases pc) (auto simp: dial_promoted_def split: option.splits list.splits)

lemma dials_commands:
  "cmd \<in> set (snd (foldl (\<lambda>pc i. dial_promoted pc gov i) pc is)) \<Longrightarrow>
     cmd \<in> set (snd pc) \<or>
     (\<exists>i \<in> set is. \<exists>p a rest. hm_get (peers gov) i = Some p \<and> pi_addrs p = a # rest \<and> cmd = Dial a)"
proof (induction "is" arbitrary: pc)
  case (Cons i "is")
  then have "cmd \<in> set (snd (foldl (\<lambda>pc i. dial_promoted pc gov i) (dial_promoted pc gov i) is))"
    by simp
  from Cons.IH [OF this] show ?case
    using dial_command [of cmd pc gov i] by (elim disjE) (simp_all, blast+)
qed simp

lemma exchange_commands: "set (snd (exchange_with_all chan st hs)) \<subseteq> {SendGroupExchange i m tx | i m tx. True}"
  by (induction hs arbitrary: st) (auto simp: send_exchange_def split_beta)

lemma redial_commands:
  "Dial a \<in> set (redial_bootnodes env dns st) \<Longrightarrow>
     \<exists>boot addr. (boot, addr) \<in> set (gt_resolved st) \<and> a = unwrap_or (parse_bootnode_multiaddr env dns boot) addr"
  by (auto simp: redial_bootnodes_def Let_def split: if_splits)

lemma redial_only: "set (redial_bootnodes env dns st) \<subseteq> range Dial"
  by (auto simp: redial_bootnodes_def Let_def)

lemma disconnect_commands:
  "set (fst (apply_governor_actions a pool)) \<subseteq> set (act_disconnect a)"
  using drop_disconnected_fold [OF prod.collapse [symmetric], of "[]"
      "foldl (\<lambda>p tr. apply_transition tr p) pool (act_transitions a)" "act_disconnect a"]
  by (auto simp: apply_governor_actions_def Let_def)

lemma tick_actions_commands:
  "g = set_groups (pp_our_groups (gt_pool st)) (gt_gov st) \<Longrightarrow>
   snd (tick_actions clk st) =
     map Disconnect (fst (apply_governor_actions (snd (tick clk g)) (gt_pool st))) @
     snd (foldl (\<lambda>pc i. dial_promoted pc (fst (tick clk g)) i) (gt_pending_dials st, []) (act_connect (snd (tick clk g))))"
  by (simp add: tick_actions_def split_beta)

lemma governor_tick_commands_split:
  "snd (governor_tick env dns clk chan st) =
     snd (tick_actions clk st) @
     redial_bootnodes env dns (retry_bootnodes env dns (clk 7) (fst (tick_actions clk st))) @
     (if gt_tick_count (retry_bootnodes env dns (clk 7) (fst (tick_actions clk st))) mod GROUP_EXCHANGE_TICKS = 0
      then snd (exchange_with_all chan (retry_bootnodes env dns (clk 7) (fst (tick_actions clk st)))
             (active_peers (gt_pool (retry_bootnodes env dns (clk 7) (fst (tick_actions clk st))))))
      else [])"
  by (simp add: governor_tick_def Let_def split_beta)

text \<open>The commands of a tick: disconnections, dials of promoted peers, dials of bootnodes, exchanges.\<close>

lemma governor_tick_commands:
  assumes "cmd \<in> set (snd (governor_tick env dns clk chan st))"
    and g: "g = set_groups (pp_our_groups (gt_pool st)) (gt_gov st)"
  shows "(\<exists>i \<in> set (act_disconnect (snd (tick clk g))). cmd = Disconnect i) \<or>
    (\<exists>i \<in> set (act_connect (snd (tick clk g))). \<exists>p a rest. hm_get (peers (fst (tick clk g))) i = Some p \<and>
       pi_addrs p = a # rest \<and> cmd = Dial a) \<or>
    (\<exists>boot addr. (boot, addr) \<in> set (gt_resolved (fst (governor_tick env dns clk chan st))) \<and>
       cmd = Dial (unwrap_or (parse_bootnode_multiaddr env dns boot) addr)) \<or>
    (\<exists>i m tx. cmd = SendGroupExchange i m tx)"
proof -
  let ?st2 = "retry_bootnodes env dns (clk 7) (fst (tick_actions clk st))"
  have res: "gt_resolved (fst (governor_tick env dns clk chan st)) = gt_resolved ?st2"
    by (simp add: governor_tick_def Let_def split_beta)
  consider "cmd \<in> set (snd (tick_actions clk st))" | "cmd \<in> set (redial_bootnodes env dns ?st2)"
    | "cmd \<in> set (snd (exchange_with_all chan ?st2 (active_peers (gt_pool ?st2))))"
    using assms(1) unfolding governor_tick_commands_split by (simp split: if_splits) blast
  then show ?thesis
  proof cases
    case 1
    from 1 consider i where "i \<in> set (act_disconnect (snd (tick clk g)))" "cmd = Disconnect i"
      | "cmd \<in> set (snd (foldl (\<lambda>pc i. dial_promoted pc (fst (tick clk g)) i) (gt_pending_dials st, [])
          (act_connect (snd (tick clk g)))))"
      using disconnect_commands [of "snd (tick clk g)" "gt_pool st"]
      unfolding tick_actions_commands [OF g] by (simp only: set_append set_map) blast
    then show ?thesis
    proof cases
      case 2
      from dials_commands [OF this] show ?thesis
        by simp
    qed blast
  next
    case 2
    then obtain a where "cmd = Dial a"
      using redial_only by blast
    then show ?thesis
      using redial_commands [of a env dns ?st2] 2 by (auto simp: res)
  next
    case 3
    then show ?thesis
      using exchange_commands by blast
  qed
qed

text \<open>
  C34. A dialled placeholder that is evicted before its connection is up leaves a peer nobody
  manages. The connection takes its placeholder's pending dial, the governor no longer has the
  placeholder and does not learn of the peer, yet the pool lists it as warm. The group exchange
  that follows makes the governor know it, but as cold; no tick then disconnects it or takes it
  out of the pool, however long it stays silent.
\<close>

theorem evicted_placeholder_unmanaged:
  assumes "gov_wf (gt_gov st)" and "take_pending (gt_pending_dials st) addrs = (Some old, pending)"
    and "old \<noteq> peer" "hm_get (peers (gt_gov st)) old = None" "hm_get (peers (gt_gov st)) peer = None"
    and st1: "gov_task_step env st (NetworkEvent now tx (PeerConnected peer addrs)) = (st1, out1)"
    and st2: "gov_task_step env st1 (ExchangeReply now' tx (Some (Ok resp))) = (st2, out2)"
    and st3: "gov_task_step env st2 (GovTick dns clk chan) = (st3, out3)"
  shows "pool_state (gt_pool st1) peer = Some Warm \<and> hm_get (peers (gt_gov st1)) peer = None \<and>
    pool_state (gt_pool st2) peer = Some Warm \<and> cold_peer (gt_gov st2) peer \<and>
    pool_state (gt_pool st3) peer \<noteq> None \<and> Disconnect peer \<notin> set out3"
proof -
  have 1: "pool_state (gt_pool st1) peer = Some Warm" "gt_gov st1 = mark_connected now peer (gt_gov st)"
    "hm_get (gt_exchanges st1) tx = Some (InitialExchange peer False)"
    using assms(2-5) st1
    by (auto simp: gov_task_step_def handle_swarm_event_def peer_connected_def send_exchange_def Let_def
        admit_peer_def replace_node_id_def known_relay_def mark_connected_def hm_get_simps)
  have unknown: "hm_get (peers (gt_gov st1)) peer = None"
    using 1(2) assms(5) by (simp add: mark_connected_def hm_get_simps)
  obtain as where 2: "gt_gov st2 = add_peer now' peer as (ge_groups resp) (gt_gov st1)"
    "pool_state (gt_pool st2) = pool_state (gt_pool st1)"
    using st2 1(3) by (auto simp: gov_task_step_def exchange_done_defs Let_def)
  have cold: "cold_peer (gt_gov st2) peer"
    using unknown by (simp add: 2(1) cold_peer_def add_peer_def hm_get_simps new_peer_info_def)
  let ?g = "set_groups (pp_our_groups (gt_pool st2)) (gt_gov st2)"
  have "gov_wf (gt_gov st2)"
    unfolding 2(1) 1(2) by (intro add_peer_wf event_wf assms(1))
  then have "gov_wf ?g"
    by (rule gov_step_wf [OF gov_step.groups])
  moreover have "cold_peer ?g peer"
    using cold by (simp add: set_groups_def cold_peer_def)
  ultimately have nd: "peer \<notin> set (act_disconnect (snd (tick clk ?g)))"
    by (rule cold_not_disconnected)
  have p2: "pool_state (gt_pool st2) peer = Some Warm"
    using 1(1) 2(2) by simp
  then obtain h where h: "hm_get (pp_inner (gt_pool st2)) peer = Some h"
    unfolding pool_state_def by blast
  have tick: "st3 = fst (governor_tick env dns clk chan st2)" "out3 = snd (governor_tick env dns clk chan st2)"
    using st3 by (simp_all add: gov_task_step_def)
  have p3: "pool_state (gt_pool st3) peer \<noteq> None"
    using applied_actions_get [OF nd h] unfolding tick(1) governor_tick_pool pool_state_def by simp
  have "Disconnect peer \<notin> set out3"
  proof
    assume "Disconnect peer \<in> set out3"
    from governor_tick_commands [OF this [unfolded tick(2)] refl] nd show False
      by simp
  qed
  then show ?thesis
    using 1(1) unknown p2 cold p3 by blast
qed

definition evicted_w :: gov_task_state where
  "evicted_w = boot_w\<lparr>gt_pending_dials := [([Ip4 9 9 9 9], PeerId 50)]\<rparr>"

theorem evicted_placeholder_unmanaged_witness:
  "\<exists>st1 out1 st2 out2 st3 out3.
     gov_task_step gov_env_w evicted_w (NetworkEvent 5 1 (PeerConnected (PeerId 7) [[Ip4 9 9 9 9]])) = (st1, out1) \<and>
     gov_task_step gov_env_w st1 (ExchangeReply 6 1 (Some (Ok \<lparr>ge_groups = [''g1''], ge_descriptors = None\<rparr>))) = (st2, out2) \<and>
     gov_task_step gov_env_w st2 (GovTick (\<lambda>_. None) (\<lambda>_. 10 ^ 15) (\<lambda>n. n)) = (st3, out3) \<and>
     pool_state (gt_pool st3) (PeerId 7) \<noteq> None \<and> Disconnect (PeerId 7) \<notin> set out3"
proof -
  obtain st1 out1 where 1: "gov_task_step gov_env_w evicted_w
      (NetworkEvent 5 1 (PeerConnected (PeerId 7) [[Ip4 9 9 9 9]])) = (st1, out1)"
    by (rule prod.exhaust)
  obtain st2 out2 where 2: "gov_task_step gov_env_w st1
      (ExchangeReply 6 1 (Some (Ok \<lparr>ge_groups = [''g1''], ge_descriptors = None\<rparr>))) = (st2, out2)"
    by (rule prod.exhaust)
  obtain st3 out3 where 3: "gov_task_step gov_env_w st2 (GovTick (\<lambda>_. None) (\<lambda>_. 10 ^ 15) (\<lambda>n. n)) = (st3, out3)"
    by (rule prod.exhaust)
  have wf: "gov_wf (gt_gov evicted_w)"
    using reach_gov [OF boot_w_reach] by (simp add: evicted_w_def)
  have "hm_get (peers (gt_gov evicted_w)) (PeerId 50) = None"
    by (simp add: evicted_w_def boot_w_def start_governor_def split_beta gov_env_w_def parse_bootnode_multiaddr_def
        seed_bootnode_def placeholder_id_def with_dial_policy_def add_peer_def set_peer_relay_def hm_get_simps
        Let_def)
  moreover have "hm_get (peers (gt_gov evicted_w)) (PeerId 7) = None"
    using boot_w_evals(2) by (simp add: evicted_w_def)
  moreover have "take_pending (gt_pending_dials evicted_w) [[Ip4 9 9 9 9]] = (Some (PeerId 50), [])"
    by (simp add: evicted_w_def)
  ultimately show ?thesis
    using evicted_placeholder_unmanaged [OF wf _ _ _ _ 1 2 3] 1 2 3 by simp
qed

section \<open>Dials\<close>

text \<open>
  C35. The governor task dials in ticks only, and only the first address of a peer that its
  governor knows, that the dial policy allows and that is not under a ban in force, or the address
  of a configured bootnode. So a personal node, whose policy is relays only, never dials a peer
  that is neither a relay nor a bootnode.
\<close>

theorem dials_allowed:
  assumes wf: "gov_wf (gt_gov st)" and step: "gov_task_step env st ev = (st', out)" and "Dial a \<in> set out"
  shows "\<exists>dns clk chan. ev = GovTick dns clk chan \<and>
    ((\<exists>i p rest. hm_get (peers (gt_gov st)) i = Some p \<and> is_dialable (gt_gov st) p \<and>
        \<not> ban_in_force (clk 1) p \<and> pi_addrs p = a # rest) \<or>
     (\<exists>boot addr. (boot, addr) \<in> set (gt_resolved st') \<and>
        a = unwrap_or (parse_bootnode_multiaddr env dns boot) addr))"
proof -
  have "\<exists>dns clk chan. ev = GovTick dns clk chan"
    using step assms(3)
    by (cases ev) (auto simp: gov_task_step_def handle_swarm_event_def peer_connected_def send_exchange_def
        discover_start_def Let_def split: swarm_event2.splits option.splits prod.splits if_splits)
  then obtain dns clk chan where ev: "ev = GovTick dns clk chan"
    by blast
  let ?g = "set_groups (pp_our_groups (gt_pool st)) (gt_gov st)"
  have c: "phase_contract (clk 1) ?g no_actions (fst (tick clk ?g)) (snd (tick clk ?g))"
    by (rule tick_contract [OF gov_step_wf [OF gov_step.groups wf]])
  have promoted: "\<exists>p. hm_get (peers (gt_gov st)) i = Some p \<and> is_dialable (gt_gov st) p \<and>
      \<not> ban_in_force (clk 1) p \<and> pi_addrs p = pi_addrs q"
    if i: "i \<in> set (act_connect (snd (tick clk ?g)))" and q: "hm_get (peers (fst (tick clk ?g))) i = Some q" for i q
  proof -
    obtain p where p: "hm_get (peers ?g) i = Some p" "is_dialable ?g p" "\<not> ban_in_force (clk 1) p"
      using c i by (auto simp: phase_contract_def no_actions_def may_dial_def)
    moreover have "pi_addrs p = pi_addrs q"
      using phase_keeps [OF c q] p(1) by (simp add: keeps_def)
    ultimately show ?thesis
      by (simp add: set_groups_def is_dialable_def)
  qed
  have "Dial a \<in> set (snd (governor_tick env dns clk chan st))" "st' = fst (governor_tick env dns clk chan st)"
    using step assms(3) ev by (simp_all add: gov_task_step_def)
  with governor_tick_commands [OF this(1) refl] promoted show ?thesis
    unfolding ev by simp metis
qed

lemma apply_empty_pool: "pp_inner pool = [] \<Longrightarrow> pp_inner (snd (apply_governor_actions a pool)) = []"
proof -
  have t: "pp_inner pool = [] \<Longrightarrow> pp_inner (foldl (\<lambda>p tr. apply_transition tr p) pool ts) = []" for ts pool
    by (induction ts arbitrary: pool) (simp_all add: apply_transition_def pool_upd_def hm_modify_def split_beta)
  have d: "pp_inner (snd dp) = [] \<Longrightarrow> pp_inner (snd (foldl drop_disconnected dp is)) = []" for dp "is"
    by (induction "is" arbitrary: dp) (simp_all add: drop_disconnected_def pool_remove_def split_beta split: option.split)
  show "pp_inner pool = [] \<Longrightarrow> ?thesis"
    by (simp add: apply_governor_actions_def Let_def d t)
qed

theorem dials_allowed_witness:
  "Dial [Ip4 1 2 3 4] \<in> set (snd (gov_task_step gov_env_w (boot_w\<lparr>gt_tick_count := 5\<rparr>)
       (GovTick (\<lambda>_. None) (\<lambda>_. 0) (\<lambda>n. n)))) \<and>
   ((\<exists>i p rest. hm_get (peers (gt_gov boot_w)) i = Some p \<and> is_dialable (gt_gov boot_w) p \<and>
       \<not> ban_in_force 0 p \<and> pi_addrs p = [Ip4 1 2 3 4] # rest) \<or>
    (\<exists>boot addr. (boot, addr) \<in> set (gt_resolved (fst (gov_task_step gov_env_w (boot_w\<lparr>gt_tick_count := 5\<rparr>)
        (GovTick (\<lambda>_. None) (\<lambda>_. 0) (\<lambda>n. n))))) \<and>
      [Ip4 1 2 3 4] = unwrap_or (parse_bootnode_multiaddr gov_env_w (\<lambda>_. None) boot) addr))"
proof -
  let ?st = "boot_w\<lparr>gt_tick_count := 5\<rparr>" and ?ev = "GovTick (\<lambda>_. None) (\<lambda>_. 0) (\<lambda>n. n)"
  have wf: "gov_wf (gt_gov ?st)"
    using reach_gov [OF boot_w_reach] by simp
  have "gt_resolved boot_w = [(''/boot'', [Ip4 1 2 3 4])]" "gt_unresolved boot_w = []"
    by (simp_all add: boot_w_def start_governor_def split_beta gov_env_w_def parse_bootnode_multiaddr_def)
  then have "Dial [Ip4 1 2 3 4] \<in> set (snd (gov_task_step gov_env_w ?st ?ev))"
    by (simp add: gov_task_step_def governor_tick_commands_split redial_bootnodes_def retry_bootnodes_def
        active_peers_def hm_values_def apply_empty_pool boot_w_evals)
      (simp add: parse_bootnode_multiaddr_def gov_env_w_def unwrap_or_def)
  from this dials_allowed [OF wf prod.collapse [symmetric] this] show ?thesis
    by auto
qed

section \<open>Bootnodes that do not resolve\<close>

fun tick_events :: "gov_task_event list \<Rightarrow> nat" where
  "tick_events [] = 0"
| "tick_events (GovTick _ _ _ # evs) = Suc (tick_events evs)"
| "tick_events (_ # evs) = tick_events evs"

lemma late_tick:
  assumes "6 \<le> unat (gt_tick_count st)" "unat (gt_tick_count st) + 1 < 2 ^ 64"
  shows "gt_unresolved (fst (governor_tick env dns clk chan st)) = gt_unresolved st \<and>
    gt_resolved (fst (governor_tick env dns clk chan st)) = gt_resolved st \<and>
    unat (gt_tick_count (fst (governor_tick env dns clk chan st))) = unat (gt_tick_count st) + 1"
proof -
  have n: "unat (gt_tick_count st + 1) = unat (gt_tick_count st) + 1"
    using assms(2) by (simp add: unat_word_ariths)
  have "\<not> gt_tick_count st + 1 \<le> 6"
    using assms(1) n by (simp add: word_le_nat_alt)
  then have "retry_bootnodes env dns (clk 7) (fst (tick_actions clk st)) = fst (tick_actions clk st)"
    by (simp add: retry_bootnodes_def)
  then show ?thesis
    using n by (simp add: governor_tick_def Let_def split_beta)
qed

lemma other_event_frame:
  assumes "\<nexists>dns clk chan. ev = GovTick dns clk chan"
  shows "gt_unresolved (fst (gov_task_step env st ev)) = gt_unresolved st \<and>
    gt_resolved (fst (gov_task_step env st ev)) = gt_resolved st \<and>
    gt_tick_count (fst (gov_task_step env st ev)) = gt_tick_count st"
  using assms
  by (cases ev)
    (simp_all add: gov_task_step_def handle_swarm_event_def peer_connected_def send_exchange_def
      peer_disconnected_def ping_rtt_def identify_received_def exchange_done_defs discover_start_def
      discover_done_def Let_def split_beta
      split: swarm_event2.split option.split exchange_task.split sum.split)

lemma tick_events_other: "\<nexists>dns clk chan. ev = GovTick dns clk chan \<Longrightarrow> tick_events (ev # evs) = tick_events evs"
  by (cases ev) simp_all

text \<open>
  C36. A bootnode whose name does not resolve within the first minute is given up. From the sixth tick
  on, whatever the events and whatever a name server would answer, the list of unresolved
  bootnodes and the list of resolved ones, which are the ones re-dialled, stay as they are.
\<close>

theorem unresolved_bootnode_abandoned:
  assumes "6 \<le> unat (gt_tick_count st)" and "unat (gt_tick_count st) + tick_events evs < 2 ^ 64"
  shows "gt_unresolved (fst (run_governor_loop env st evs)) = gt_unresolved st \<and>
    gt_resolved (fst (run_governor_loop env st evs)) = gt_resolved st"
  using assms
proof (induction evs arbitrary: st)
  case (Cons ev evs)
  let ?st = "fst (gov_task_step env st ev)"
  have "gt_unresolved ?st = gt_unresolved st \<and> gt_resolved ?st = gt_resolved st \<and>
      6 \<le> unat (gt_tick_count ?st) \<and> unat (gt_tick_count ?st) + tick_events evs < 2 ^ 64"
  proof (cases "\<exists>dns clk chan. ev = GovTick dns clk chan")
    case True
    then obtain dns clk chan where "ev = GovTick dns clk chan"
      by blast
    then show ?thesis
      using Cons.prems late_tick [of st env dns clk chan] by (simp add: gov_task_step_def)
  next
    case False
    then show ?thesis
      using Cons.prems other_event_frame [OF False, of env st] tick_events_other [OF False, of evs] by simp
  qed
  then show ?case
    using Cons.IH [of ?st] by (simp add: split_beta)
qed simp

definition unresolved_w :: gov_task_state where
  "unresolved_w = (start_governor gov_env_w (\<lambda>_. None) 0
     (with_dial_policy 0 default_governor_targets [] RelaysOnly) (new_pool []) [''boot.example''])\<lparr>gt_tick_count := 6\<rparr>"

theorem unresolved_bootnode_abandoned_witness:
  "gt_unresolved (fst (run_governor_loop gov_env_w unresolved_w
     [GovTick (\<lambda>_. Some \<lparr>sa_ip = ''1.2.3.4'', sa_port = ''9474''\<rparr>) (\<lambda>_. 0) (\<lambda>n. n)])) = [''boot.example'']"
proof -
  have "gt_tick_count unresolved_w = 6" "gt_unresolved unresolved_w = [''boot.example'']"
    by (simp_all add: unresolved_w_def start_governor_def split_beta parse_bootnode_multiaddr_def gov_env_w_def)
  then show ?thesis
    using unresolved_bootnode_abandoned [of unresolved_w
        "[GovTick (\<lambda>_. Some \<lparr>sa_ip = ''1.2.3.4'', sa_port = ''9474''\<rparr>) (\<lambda>_. 0) (\<lambda>n. n)]" gov_env_w]
    by simp
qed

section \<open>Discovery\<close>

text \<open>What discovery may do to the entry of a peer.\<close>

definition discovered :: "peer_info option \<Rightarrow> peer_info option \<Rightarrow> bool" where
  "discovered old new =
     (case old of
        Some p \<Rightarrow>
          (case new of
             Some q \<Rightarrow>
               pi_state q = pi_state p \<and> (pi_is_relay p \<longrightarrow> pi_is_relay q) \<and>
               (pi_addrs p \<noteq> [] \<longrightarrow> pi_addrs q \<noteq> []) \<and> (is_active (pi_state p) \<longrightarrow> q = p)
           | None \<Rightarrow> False)
      | None \<Rightarrow> (case new of Some q \<Rightarrow> pi_state q = Cold \<and> pi_addrs q \<noteq> [] | None \<Rightarrow> True))"

lemma discovered_refl: "discovered x x"
  by (simp add: discovered_def split: option.split)

lemma discovered_trans: "discovered x y \<Longrightarrow> discovered y z \<Longrightarrow> discovered x z"
  by (auto simp: discovered_def split: option.splits)

definition not_active :: "governor \<Rightarrow> node_id \<Rightarrow> bool" where
  "not_active g i \<longleftrightarrow> \<not> (case hm_get (peers g) i of Some p \<Rightarrow> is_active (pi_state p) | None \<Rightarrow> False)"

lemma add_peer_get:
  "hm_get (peers (add_peer now j addrs gs g)) i =
     (if i = j
      then Some (case hm_get (peers g) j of
                   Some p \<Rightarrow> p\<lparr>pi_addrs := addrs, pi_groups := gs\<rparr> | None \<Rightarrow> new_peer_info now j addrs gs)
      else hm_get (peers g) i)"
  by (simp add: add_peer_def hm_get_simps split: option.split)

lemma set_relay_get:
  "hm_get (peers (set_peer_relay j b g)) i =
     (if i = j then map_option (\<lambda>p. p\<lparr>pi_is_relay := b\<rparr>) (hm_get (peers g) j) else hm_get (peers g) i)"
  by (simp add: set_peer_relay_def hm_get_simps)

lemma add_discovered:
  assumes "not_active g j" "addrs \<noteq> []"
  shows "discovered (hm_get (peers g) i) (hm_get (peers (add_peer now j addrs gs g)) i)"
proof (cases "i = j")
  case True
  then show ?thesis
    using assms unfolding add_peer_get
    by (cases "hm_get (peers g) j") (simp_all add: discovered_def not_active_def new_peer_info_def)
qed (simp add: add_peer_get discovered_refl)

lemma add_not_active: "not_active g j \<Longrightarrow> not_active (add_peer now j addrs gs g) j"
  unfolding not_active_def add_peer_get
  by (cases "hm_get (peers g) j") (simp_all add: new_peer_info_def)

lemma relay_discovered:
  assumes "not_active g j"
  shows "discovered (hm_get (peers g) i) (hm_get (peers (set_peer_relay j True g)) i)"
proof (cases "i = j")
  case True
  then show ?thesis
    using assms unfolding set_relay_get
    by (cases "hm_get (peers g) j") (simp_all add: discovered_def not_active_def)
qed (simp add: set_relay_get discovered_refl)

lemma discover_peer_one:
  "discovered (hm_get (peers g) i) (hm_get (peers (discover_peer env now g pa)) i)"
proof -
  have "discovered (hm_get (peers g) i)
      (hm_get (peers (set_peer_relay peer True (add_peer now peer addrs gs g))) i)"
    if "not_active g peer" "addrs \<noteq> []" for peer addrs gs
    using discovered_trans [OF add_discovered relay_discovered [OF add_not_active]] that by blast
  then show ?thesis
    by (simp add: discover_peer_def Let_def discovered_refl add_discovered not_active_def split: option.split)
qed

lemma discover_peer_self:
  "hm_get (peers (discover_peer env now g pa)) (ge_our_peer_id env) = hm_get (peers g) (ge_our_peer_id env)"
proof -
  have "hm_get (peers (add_peer now peer addrs gs g)) j = hm_get (peers g) j"
    "hm_get (peers (set_peer_relay peer True (add_peer now peer addrs gs g))) j = hm_get (peers g) j"
    if "j \<noteq> peer" for peer addrs gs j
    using that by (simp_all add: add_peer_get set_relay_get)
  then show ?thesis
    by (simp add: discover_peer_def Let_def split: option.split)
qed

text \<open>
  C37. Discovery is harmless, whatever the relays answer: it never adds or changes an entry for the
  node itself, it leaves every connected peer exactly as it was, forgets no peer and changes no
  peer's state or ban, and the peers it adds are cold and have an address to dial.
\<close>

theorem discovery_harmless:
  assumes "g = gt_gov st" and "g' = gt_gov (discover_done env now st replies)"
  shows "hm_get (peers g') (ge_our_peer_id env) = hm_get (peers g) (ge_our_peer_id env) \<and>
    (\<forall>i. discovered (hm_get (peers g) i) (hm_get (peers g') i))"
proof -
  have "hm_get (peers (foldl (discover_peer env now) g pas)) (ge_our_peer_id env) = hm_get (peers g) (ge_our_peer_id env) \<and>
      (\<forall>i. discovered (hm_get (peers g) i) (hm_get (peers (foldl (discover_peer env now) g pas)) i))" for pas g
  proof (induction pas arbitrary: g)
    case (Cons pa pas)
    let ?g = "discover_peer env now g pa"
    have "discovered (hm_get (peers g) i) (hm_get (peers (foldl (discover_peer env now) ?g pas)) i)" for i
      by (rule discovered_trans [OF discover_peer_one]) (use Cons.IH [of ?g] in blast)
    then show ?case
      using Cons.IH [of ?g] by (simp add: discover_peer_self)
  qed (simp add: discovered_refl)
  then show ?thesis
    by (simp add: assms discover_done_def Let_def)
qed

definition share_w :: "peer_address list" where
  "share_w =
     [\<lparr>pa_peer_id = [], pa_addrs = [''/boot''], pa_last_seen = 0, pa_groups = [], pa_role = ''relay''\<rparr>,
      \<lparr>pa_peer_id = ''xyz'', pa_addrs = [''/boot''], pa_last_seen = 0, pa_groups = [], pa_role = ''relay''\<rparr>]"

theorem discovery_harmless_witness:
  "hm_get (peers (gt_gov (discover_done gov_env_w 3 boot_w [Some (Ok share_w)]))) (PeerId 0) =
     hm_get (peers (gt_gov boot_w)) (PeerId 0) \<and>
   hm_get (peers (gt_gov (discover_done gov_env_w 3 boot_w [Some (Ok share_w)]))) (PeerId 3) \<noteq> None \<and>
   discovered (hm_get (peers (gt_gov boot_w)) (PeerId 3))
     (hm_get (peers (gt_gov (discover_done gov_env_w 3 boot_w [Some (Ok share_w)]))) (PeerId 3))"
proof -
  have "hm_get (peers (gt_gov (discover_done gov_env_w 3 boot_w [Some (Ok share_w)]))) (PeerId 3) \<noteq> None"
    by (simp add: discover_done_def share_w_def discover_peer_def gov_env_w_def boot_w_def start_governor_def
        split_beta parse_bootnode_multiaddr_def seed_bootnode_def placeholder_id_def with_dial_policy_def
        add_peer_def set_peer_relay_def hm_get_simps Let_def map_filter_simps)
  then show ?thesis
    using discovery_harmless [OF refl refl, of gov_env_w 3 boot_w "[Some (Ok share_w)]"]
    by (simp add: gov_env_w_def)
qed

end
