(* ===== verification/Crypto.thy ===== *)
theory Crypto
  imports Protocol
begin

text \<open>
  \<^verbatim>\<open>crates/cordelia-crypto\<close>: encryption of memories under a passphrase and the identity of a
  node. AES-256-GCM, scrypt, Ed25519 keys, base64 and peer ids come from other crates and are
  parameters, as are random bytes; the file that holds a key is its contents with the errors the
  system reports on it.
\<close>

section \<open>Constants, errors and parameters\<close>

definition SCRYPT_LOG_N :: u8 where
  "SCRYPT_LOG_N = 14"

definition SCRYPT_R :: u32 where
  "SCRYPT_R = 8"

definition SCRYPT_P :: u32 where
  "SCRYPT_P = 1"

definition KEY_LENGTH :: nat where
  "KEY_LENGTH = 32"

definition IV_LENGTH :: nat where
  "IV_LENGTH = 12"

text \<open>\<open>AES_256_GCM.tag_len()\<close> of \<open>ring\<close>.\<close>

definition TAG_LENGTH :: nat where
  "TAG_LENGTH = 16"

datatype crypto_error =
    EncryptionFailed string
  | DecryptionFailed
  | UnsupportedVersion u32
  | KeyDerivationFailed string
  | Base64Error string
  | IdentityError string
  | IoError string

record encrypted_payload =
  ep_encrypted :: bool
  ep_version :: u32
  ep_iv :: string
  ep_auth_tag :: string
  ep_ciphertext :: string

text \<open>
  The functions of \<open>ring\<close>, \<open>scrypt\<close> and \<open>base64\<close> that the provider calls: a key or a nonce is
  accepted or not, sealing appends the tag, opening checks it.
\<close>

record 'p aead_lib =
  al_scrypt_params :: "u8 \<Rightarrow> u32 \<Rightarrow> u32 \<Rightarrow> nat \<Rightarrow> string + 'p"
  al_scrypt :: "bytes \<Rightarrow> bytes \<Rightarrow> 'p \<Rightarrow> string + bytes"
  al_key_ok :: "bytes \<Rightarrow> bool"
  al_nonce_ok :: "bytes \<Rightarrow> bool"
  al_seal :: "bytes \<Rightarrow> bytes \<Rightarrow> bytes \<Rightarrow> bytes option"
  al_open :: "bytes \<Rightarrow> bytes \<Rightarrow> bytes \<Rightarrow> bytes option"
  al_base64_encode :: "bytes \<Rightarrow> string"
  al_base64_decode :: "string \<Rightarrow> string + bytes"

section \<open>The encryption provider\<close>

record aes_provider =
  ap_key :: "bytes option"

definition new_provider :: aes_provider where
  "new_provider = \<lparr>ap_key = None\<rparr>"

definition derive_key :: "'p aead_lib \<Rightarrow> bytes \<Rightarrow> bytes \<Rightarrow> crypto_error + bytes" where
  "derive_key A passphrase salt =
     (case al_scrypt_params A SCRYPT_LOG_N SCRYPT_R SCRYPT_P KEY_LENGTH of
        Err e \<Rightarrow> Err (KeyDerivationFailed e)
      | Ok params \<Rightarrow>
          case al_scrypt A passphrase salt params of
            Err e \<Rightarrow> Err (KeyDerivationFailed e)
          | Ok key \<Rightarrow> Ok key)"

definition unlock_with_key :: "'p aead_lib \<Rightarrow> aes_provider \<Rightarrow> bytes \<Rightarrow> (crypto_error + unit) \<times> aes_provider" where
  "unlock_with_key A p key =
     (if al_key_ok A key then (Ok (), p\<lparr>ap_key := Some key\<rparr>)
      else (Err (EncryptionFailed ''invalid key''), p))"

definition unlock :: "'p aead_lib \<Rightarrow> aes_provider \<Rightarrow> bytes \<Rightarrow> bytes \<Rightarrow> (crypto_error + unit) \<times> aes_provider" where
  "unlock A p passphrase salt =
     (case derive_key A passphrase salt of
        Err e \<Rightarrow> (Err e, p)
      | Ok key_bytes \<Rightarrow>
          if al_key_ok A key_bytes then (Ok (), p\<lparr>ap_key := Some key_bytes\<rparr>)
          else (Err (EncryptionFailed ''invalid key''), p))"

definition is_unlocked :: "aes_provider \<Rightarrow> bool" where
  "is_unlocked p \<longleftrightarrow> ap_key p \<noteq> None"

text \<open>
  The bytes the random generator fills in, or its failure, are the argument \<open>rng\<close>. The split of
  the sealed buffer underflows, a panic, when it is shorter than the tag; that is \<open>None\<close>.
\<close>

definition encrypt ::
  "'p aead_lib \<Rightarrow> aes_provider \<Rightarrow> bytes option \<Rightarrow> bytes \<Rightarrow> (crypto_error + encrypted_payload) option" where
  "encrypt A p rng plaintext =
     (case ap_key p of
        None \<Rightarrow> Some (Err (EncryptionFailed ''not unlocked''))
      | Some key \<Rightarrow>
          case rng of
            None \<Rightarrow> Some (Err (EncryptionFailed ''RNG failure''))
          | Some iv_bytes \<Rightarrow>
              if \<not> al_nonce_ok A iv_bytes then Some (Err (EncryptionFailed ''nonce error''))
              else case al_seal A key iv_bytes plaintext of
                     None \<Rightarrow> Some (Err (EncryptionFailed ''seal failed''))
                   | Some in_out \<Rightarrow>
                       if length in_out < TAG_LENGTH then None
                       else let tag_start = length in_out - TAG_LENGTH
                            in Some (Ok \<lparr>ep_encrypted = True, ep_version = 1,
                                 ep_iv = al_base64_encode A iv_bytes,
                                 ep_auth_tag = al_base64_encode A (drop tag_start in_out),
                                 ep_ciphertext = al_base64_encode A (take tag_start in_out)\<rparr>))"

definition decode :: "'p aead_lib \<Rightarrow> string \<Rightarrow> crypto_error + bytes" where
  "decode A s = (case al_base64_decode A s of Ok b \<Rightarrow> Ok b | Err e \<Rightarrow> Err (Base64Error e))"

definition decrypt :: "'p aead_lib \<Rightarrow> aes_provider \<Rightarrow> encrypted_payload \<Rightarrow> crypto_error + bytes" where
  "decrypt A p payload =
     (if ep_version payload \<noteq> 1 then Err (UnsupportedVersion (ep_version payload))
      else case ap_key p of
             None \<Rightarrow> Err (EncryptionFailed ''not unlocked'')
           | Some key \<Rightarrow>
               case decode A (ep_iv payload) of
                 Err e \<Rightarrow> Err e
               | Ok iv \<Rightarrow>
                   case decode A (ep_auth_tag payload) of
                     Err e \<Rightarrow> Err e
                   | Ok auth_tag \<Rightarrow>
                       case decode A (ep_ciphertext payload) of
                         Err e \<Rightarrow> Err e
                       | Ok ciphertext \<Rightarrow>
                           if \<not> al_nonce_ok A iv then Err DecryptionFailed
                           else case al_open A key iv (ciphertext @ auth_tag) of
                                  Some plaintext \<Rightarrow> Ok plaintext
                                | None \<Rightarrow> Err DecryptionFailed)"

definition sha256_hex :: "crypto_lib \<Rightarrow> bytes \<Rightarrow> string" where
  "sha256_hex L data = lib_hex_encode L (lib_sha256 L data)"

section \<open>The node identity\<close>

text \<open>
  Keys of \<open>ring\<close> and of \<open>libp2p\<close> are type variables; \<open>il_from_pkcs8\<close> and \<open>il_from_seed\<close> parse them.
\<close>

record ('k, 'l) identity_lib =
  il_from_pkcs8 :: "bytes \<Rightarrow> string + 'k"
  il_from_seed :: "bytes \<Rightarrow> string + 'l"
  il_peer_id :: "'l \<Rightarrow> node_id"

record 'k identity =
  id_keypair :: 'k
  id_peer_id :: node_id
  id_pkcs8_doc :: bytes

text \<open>
  The scan for the seed visits the positions from which 34 bytes are left. Reading a byte or a
  slice beyond the end would panic, which is \<open>None\<close> of the outer option.
\<close>

definition byte_at :: "bytes \<Rightarrow> nat \<Rightarrow> u8 option" where
  "byte_at der i = (if i < length der then Some (der ! i) else None)"

definition slice :: "bytes \<Rightarrow> nat \<Rightarrow> nat \<Rightarrow> bytes option" where
  "slice der a b = (if a \<le> b \<and> b \<le> length der then Some (take (b - a) (drop a der)) else None)"

fun scan_seed :: "bytes \<Rightarrow> nat list \<Rightarrow> bytes option option" where
  "scan_seed der [] = Some None"
| "scan_seed der (i # is) =
     (case byte_at der i of
        None \<Rightarrow> None
      | Some b \<Rightarrow>
          if b \<noteq> 0x04 then scan_seed der is
          else case byte_at der (i + 1) of
                 None \<Rightarrow> None
               | Some c \<Rightarrow>
                   if c \<noteq> 0x20 then scan_seed der is
                   else case slice der (i + 2) (i + 34) of None \<Rightarrow> None | Some seed \<Rightarrow> Some (Some seed))"

definition extract_ed25519_seed :: "bytes \<Rightarrow> bytes option option" where
  "extract_ed25519_seed der = scan_seed der [0..<length der - 33]"

definition pkcs8_to_libp2p_keypair ::
  "('k, 'l) identity_lib \<Rightarrow> bytes \<Rightarrow> (crypto_error + 'l) option" where
  "pkcs8_to_libp2p_keypair I der =
     (if length der < 48 then Some (Err (IdentityError ''PKCS#8 DER too short for Ed25519''))
      else case extract_ed25519_seed der of
             None \<Rightarrow> None
           | Some None \<Rightarrow> Some (Err (IdentityError ''could not extract Ed25519 seed from PKCS#8 DER''))
           | Some (Some seed) \<Rightarrow>
               (case il_from_seed I seed of
                  Ok kp \<Rightarrow> Some (Ok kp)
                | Err e \<Rightarrow> Some (Err (IdentityError (''failed to create libp2p keypair: '' @ e)))))"

definition from_pkcs8_bytes :: "('k, 'l) identity_lib \<Rightarrow> bytes \<Rightarrow> (crypto_error + 'k identity) option" where
  "from_pkcs8_bytes I doc =
     (case il_from_pkcs8 I doc of
        Err e \<Rightarrow> Some (Err (IdentityError e))
      | Ok keypair \<Rightarrow>
          (case pkcs8_to_libp2p_keypair I doc of
             None \<Rightarrow> None
           | Some (Err e) \<Rightarrow> Some (Err e)
           | Some (Ok kp) \<Rightarrow>
               Some (Ok \<lparr>id_keypair = keypair, id_peer_id = il_peer_id I kp, id_pkcs8_doc = doc\<rparr>)))"

definition generate :: "('k, 'l) identity_lib \<Rightarrow> string + bytes \<Rightarrow> (crypto_error + 'k identity) option" where
  "generate I pkcs8 =
     (case pkcs8 of
        Err e \<Rightarrow> Some (Err (IdentityError e))
      | Ok doc \<Rightarrow> from_pkcs8_bytes I doc)"

record key_file =
  kf_content :: "bytes option"
  kf_read_error :: "string option"
  kf_mkdir_error :: "string option"
  kf_write_error :: "string option"

definition from_file :: "('k, 'l) identity_lib \<Rightarrow> key_file \<Rightarrow> bytes \<Rightarrow> (crypto_error + 'k identity) option" where
  "from_file I f content =
     (case kf_read_error f of
        Some e \<Rightarrow> Some (Err (IoError e))
      | None \<Rightarrow> from_pkcs8_bytes I content)"

definition load_or_create ::
  "('k, 'l) identity_lib \<Rightarrow> string + bytes \<Rightarrow> key_file \<Rightarrow> ((crypto_error + 'k identity) \<times> key_file) option" where
  "load_or_create I pkcs8 f =
     (case kf_content f of
        Some content \<Rightarrow> map_option (\<lambda>r. (r, f)) (from_file I f content)
      | None \<Rightarrow>
          (case generate I pkcs8 of
             None \<Rightarrow> None
           | Some (Err e) \<Rightarrow> Some (Err e, f)
           | Some (Ok ident) \<Rightarrow>
               (case kf_mkdir_error f of
                  Some e \<Rightarrow> Some (Err (IoError e), f)
                | None \<Rightarrow>
                    case kf_write_error f of
                      Some e \<Rightarrow> Some (Err (IoError e), f)
                    | None \<Rightarrow> Some (Ok ident, f\<lparr>kf_content := Some (id_pkcs8_doc ident)\<rparr>))))"

section \<open>Encryption round trip\<close>

text \<open>
  C39. An unlocked provider encrypts every message it can seal, without panic, and every provider
  unlocked with the same passphrase and salt decrypts the payload to the same bytes; a provider
  that is not unlocked refuses it, and so is a payload of another version. Of AES-GCM it is
  assumed that it takes 12-byte nonces, that sealing appends the tag and that opening inverts it, of
  base64 that decoding inverts encoding.
\<close>

theorem encrypt_decrypt:
  assumes "\<forall>b. al_base64_decode A (al_base64_encode A b) = Ok b"
    and "\<forall>n. al_nonce_ok A n \<longleftrightarrow> length n = IV_LENGTH"
    and "\<forall>k n m c. al_seal A k n m = Some c \<longrightarrow> length c = length m + TAG_LENGTH \<and> al_open A k n c = Some m"
    and "unlock A p passphrase salt = (Ok (), p')" and "unlock A q passphrase salt = (Ok (), q')"
    and "length iv = IV_LENGTH" and "\<forall>k. al_seal A k iv plaintext \<noteq> None"
  shows "\<exists>payload. encrypt A p' (Some iv) plaintext = Some (Ok payload) \<and>
    decrypt A q' payload = Ok plaintext \<and>
    decrypt A new_provider payload = Err (EncryptionFailed ''not unlocked'') \<and>
    (\<forall>v. v \<noteq> 1 \<longrightarrow> decrypt A q' (payload\<lparr>ep_version := v\<rparr>) = Err (UnsupportedVersion v))"
proof -
  obtain key where key: "ap_key p' = Some key" "ap_key q' = Some key"
    using assms(4,5) by (auto simp: unlock_def split: sum.splits if_splits)
  obtain c where c: "al_seal A key iv plaintext = Some c"
    using assms(7) by blast
  then have "TAG_LENGTH \<le> length c" "al_open A key iv c = Some plaintext"
    using assms(3) by simp_all
  then show ?thesis
    using key c assms(1,2,6) by (simp add: encrypt_def decrypt_def decode_def new_provider_def Let_def)
qed

definition aead_w :: "unit aead_lib" where
  "aead_w =
     \<lparr>al_scrypt_params = (\<lambda>n r p l. Ok ()), al_scrypt = (\<lambda>p s u. Ok (take 32 (p @ s @ replicate 32 0))),
      al_key_ok = (\<lambda>k. length k = 32), al_nonce_ok = (\<lambda>n. length n = 12),
      al_seal = (\<lambda>k iv m. Some (m @ replicate 16 7)), al_open = (\<lambda>k iv c. Some (take (length c - 16) c)),
      al_base64_encode = map (\<lambda>b. char_of (unat b)), al_base64_decode = (\<lambda>s. Ok (as_bytes s))\<rparr>"

lemma as_bytes_of_bytes: "as_bytes (map (\<lambda>b. char_of (unat b)) bs) = bs"
proof -
  have "of_char (char_of (unat x) :: char) = x" for x :: u8
  proof -
    have "(of_char (char_of (unat x) :: char) :: nat) = unat x"
      using unsigned_less [of x, where 'a = nat] by simp
    then have "of_char (char_of (unat x) :: char) = (of_nat (unat x) :: u8)"
      using of_nat_of_char [of "char_of (unat x)", where 'a = u8] by simp
    then show ?thesis
      by simp
  qed
  then show ?thesis
    by (simp add: as_bytes_def comp_def)
qed

theorem encrypt_decrypt_witness:
  "\<exists>payload. encrypt aead_w (snd (unlock aead_w new_provider [1] [2])) (Some (replicate 12 9)) [5, 6] = Some (Ok payload) \<and>
     decrypt aead_w (snd (unlock aead_w new_provider [1] [2])) payload = Ok [5, 6]"
proof -
  have u: "unlock aead_w new_provider [1] [2] = (Ok (), snd (unlock aead_w new_provider [1] [2]))"
    by (simp add: unlock_def derive_key_def aead_w_def)
  have h: "\<forall>b. al_base64_decode aead_w (al_base64_encode aead_w b) = Ok b"
      "\<forall>n. al_nonce_ok aead_w n \<longleftrightarrow> length n = IV_LENGTH"
      "\<forall>k n m c. al_seal aead_w k n m = Some c \<longrightarrow> length c = length m + TAG_LENGTH \<and> al_open aead_w k n c = Some m"
      "length (replicate 12 9 :: bytes) = IV_LENGTH" "\<forall>k. al_seal aead_w k (replicate 12 9) [5, 6] \<noteq> None"
    by (simp_all add: aead_w_def as_bytes_of_bytes TAG_LENGTH_def IV_LENGTH_def)
  from encrypt_decrypt [OF h(1-3) u u h(4,5)] show ?thesis
    by blast
qed

section \<open>Extraction of the seed\<close>

lemma scan_seed_skip:
  assumes "\<And>j. j \<in> set is \<Longrightarrow> j + 1 < length der \<and> \<not> (der ! j = 0x04 \<and> der ! (j + 1) = 0x20)"
  shows "scan_seed der (is @ js) = scan_seed der js"
  using assms
proof (induction "is")
  case (Cons i "is")
  have "i + 1 < length der" "\<not> (der ! i = 0x04 \<and> der ! (i + 1) = 0x20)"
    using Cons.prems [of i] by simp_all
  moreover have "scan_seed der (is @ js) = scan_seed der js"
    using Cons.prems by (intro Cons.IH) simp
  ultimately show ?case
    by (auto simp: byte_at_def)
qed simp

lemma scan_seed_safe:
  "\<forall>j \<in> set is. j + 34 \<le> length der \<Longrightarrow> scan_seed der is \<noteq> None"
  by (induction "is") (auto simp: byte_at_def slice_def)

lemma extract_safe: "extract_ed25519_seed der \<noteq> None"
  unfolding extract_ed25519_seed_def by (rule scan_seed_safe) auto

text \<open>
  The extraction returns the 32 bytes after the first OCTET STRING tag of length 32, which is the
  seed when no earlier byte pair of the header looks like that tag.
\<close>

lemma extract_first_octet_string:
  assumes "length seed = 32"
    and header: "\<forall>j < length hdr. \<not> ((hdr @ [0x04]) ! j = 0x04 \<and> (hdr @ [0x04]) ! (j + 1) = 0x20)"
  shows "extract_ed25519_seed (hdr @ [0x04, 0x20] @ seed @ rest) = Some (Some seed)"
proof -
  let ?der = "hdr @ [0x04, 0x20] @ seed @ rest" and ?n = "length hdr"
  have "[0..<length ?der - 33] = [0..<?n] @ [?n..<length ?der - 33]"
    using upt_add_eq_append [of 0 ?n "length ?der - 33 - ?n"] assms(1) by simp
  moreover have "[?n..<length ?der - 33] = ?n # [Suc ?n..<length ?der - 33]"
    using assms(1) by (intro upt_conv_Cons) simp
  moreover have "j + 1 < length ?der \<and> \<not> (?der ! j = 0x04 \<and> ?der ! (j + 1) = 0x20)" if "j \<in> set [0..<?n]" for j
  proof -
    have "?der ! j = (hdr @ [0x04]) ! j" "?der ! (j + 1) = (hdr @ [0x04]) ! (j + 1)"
      using that by (auto simp: nth_append nth_Cons' not_less)
    then show ?thesis
      using header that by auto
  qed
  ultimately have "extract_ed25519_seed ?der = scan_seed ?der (?n # [Suc ?n..<length ?der - 33])"
    unfolding extract_ed25519_seed_def using scan_seed_skip [of "[0..<?n]" ?der] by simp
  also have "\<dots> = Some (Some seed)"
    using assms(1) by (simp add: byte_at_def slice_def nth_append)
  finally show ?thesis .
qed

section \<open>Persistence of the identity\<close>

lemma created_doc: "from_pkcs8_bytes I doc = Some (Ok ident) \<Longrightarrow> id_pkcs8_doc ident = doc"
  by (auto simp: from_pkcs8_bytes_def split: sum.splits option.splits)

text \<open>
  C40. A node keeps its identity: what the first start loads or creates, every later start loads
  again from the file, whatever the random generator would have given, and loading never panics.
\<close>

theorem identity_persistent:
  assumes "load_or_create I pkcs8 f = Some (Ok ident, f')" and "kf_read_error f = None"
  shows "load_or_create I pkcs8' f' = Some (Ok ident, f') \<and> load_or_create I pkcs8' f'' \<noteq> None"
proof -
  have safe: "from_pkcs8_bytes I doc \<noteq> None" for doc
    using extract_safe [of doc]
    by (auto simp: from_pkcs8_bytes_def pkcs8_to_libp2p_keypair_def split: sum.splits option.splits)
  have "load_or_create I pkcs8' f'' \<noteq> None"
    using safe [of "projr pkcs8'"] safe [of "the (kf_content f'')"]
    by (auto simp: load_or_create_def from_file_def generate_def split: option.splits sum.splits)
  moreover have "load_or_create I pkcs8' f' = Some (Ok ident, f')"
    using assms
    by (auto simp: load_or_create_def from_file_def generate_def created_doc split: option.splits sum.splits)
  ultimately show ?thesis
    by blast
qed

definition identity_w :: "(bytes, bytes) identity_lib" where
  "identity_w = \<lparr>il_from_pkcs8 = Ok, il_from_seed = Ok, il_peer_id = (\<lambda>s. PeerId (length s))\<rparr>"

definition doc_w :: bytes where
  "doc_w = replicate 14 0x30 @ [0x04, 0x20] @ replicate 32 0x55"

definition no_file_w :: key_file where
  "no_file_w = \<lparr>kf_content = None, kf_read_error = None, kf_mkdir_error = None, kf_write_error = None\<rparr>"

theorem identity_persistent_witness:
  "\<exists>ident f'. load_or_create identity_w (Ok doc_w) no_file_w = Some (Ok ident, f') \<and> kf_content f' = Some doc_w \<and>
     load_or_create identity_w (Err ''other'') f' = Some (Ok ident, f')"
proof -
  have "\<forall>j < length (replicate 14 0x30 :: bytes).
      \<not> ((replicate 14 0x30 @ [0x04]) ! j = (0x04 :: u8) \<and> (replicate 14 0x30 @ [0x04]) ! (j + 1) = (0x20 :: u8))"
    by (auto simp: nth_append)
  then have "extract_ed25519_seed (replicate 14 0x30 @ [0x04, 0x20] @ replicate 32 0x55 @ []) = Some (Some (replicate 32 0x55))"
    by (intro extract_first_octet_string) simp_all
  then have "extract_ed25519_seed doc_w = Some (Some (replicate 32 0x55))" "48 \<le> length doc_w"
    by (simp_all add: doc_w_def)
  then have "\<exists>ident f'. load_or_create identity_w (Ok doc_w) no_file_w = Some (Ok ident, f') \<and> kf_content f' = Some doc_w"
    by (simp add: load_or_create_def no_file_w_def generate_def from_pkcs8_bytes_def pkcs8_to_libp2p_keypair_def
        identity_w_def)
  then obtain ident f' where "load_or_create identity_w (Ok doc_w) no_file_w = Some (Ok ident, f')" "kf_content f' = Some doc_w"
    by blast
  then show ?thesis
    using identity_persistent [of identity_w "Ok doc_w" no_file_w ident f' "Err ''other''" f'] by (auto simp: no_file_w_def)
qed

end
