(* ===== verification/Node.thy ===== *)
theory Node
  imports Replication_Task_Props Api_Props Governor_Task_Props Crypto
begin

text \<open>
  The node as \<^verbatim>\<open>cordelia-node/src/main.rs\<close> assembles it (\<open>run_node\<close>), with the helpers of
  \<^verbatim>\<open>cordelia-node/src/lib.rs\<close>: the start-up, and the four tasks running beside each other.

  The database, the pool with the groups and the counters are shared between the tasks; a task
  sees them as they are at its turn. Commands to the network task go through an mpsc channel,
  its events and the notifications of writes through broadcast channels, and the groups to
  synchronise through a bounded mpsc channel. A turn of one task is a step of the node. A full
  command channel delays its sender in the code, so the queue of commands has no bound here.
  While an anti-entropy round waits for a peer, the other tasks may change the database. Replies
  to exchanges and discoveries are not tied to what the network task completed: the governor task
  is shown to cope with any.
\<close>

section \<open>Helpers\<close>

text \<open>\<open>home.join(rest)\<close> replaces the home directory when \<open>rest\<close> is itself absolute.\<close>

definition path_join :: "string \<Rightarrow> string \<Rightarrow> string" where
  "path_join base rest =
     (if take 1 rest = ''/'' then rest
      else if base = [] \<or> last base = CHR ''/'' then base @ rest
      else base @ ''/'' @ rest)"

definition expand_tilde :: "string option \<Rightarrow> string \<Rightarrow> string" where
  "expand_tilde home path =
     (if take 2 path = ''~/''
      then case home of Some h \<Rightarrow> path_join h (drop 2 path) | None \<Rightarrow> path
      else path)"

definition parse_listen_addr :: "gov_env \<Rightarrow> dns \<Rightarrow> string \<Rightarrow> multiaddr option" where
  "parse_listen_addr env lookup_host addr =
     (case ge_parse_multiaddr env addr of
        Some ma \<Rightarrow> Some ma
      | None \<Rightarrow>
          case ge_parse_socket_addr env addr of
            Some s \<Rightarrow> socket_multiaddr env s
          | None \<Rightarrow>
              case lookup_host addr of
                Some s \<Rightarrow> socket_multiaddr env s
              | None \<Rightarrow> None)"

text \<open>
  The token file: its text, or the errors the system reports on it. The random characters are the
  argument \<open>sample\<close>; changing the permissions can fail after the file has been written.
\<close>

record token_file =
  tf_content :: "unicode list option"
  tf_read_error :: "string option"
  tf_mkdir_error :: "string option"
  tf_write_error :: "string option"
  tf_chmod_error :: "string option"

definition trim :: "unicode list \<Rightarrow> unicode list" where
  "trim s = rev (dropWhile is_whitespace (rev (dropWhile is_whitespace s)))"

definition load_or_create_token :: "(nat \<Rightarrow> unicode) \<Rightarrow> token_file \<Rightarrow> (string + unicode list) \<times> token_file" where
  "load_or_create_token sample f =
     (case tf_content f of
        Some text \<Rightarrow> (case tf_read_error f of Some e \<Rightarrow> (Err e, f) | None \<Rightarrow> (Ok (trim text), f))
      | None \<Rightarrow>
          let token = map sample [0..<48]
          in case tf_mkdir_error f of
               Some e \<Rightarrow> (Err e, f)
             | None \<Rightarrow>
                 case tf_write_error f of
                   Some e \<Rightarrow> (Err e, f)
                 | None \<Rightarrow>
                     let f' = f\<lparr>tf_content := Some token\<rparr>
                     in case tf_chmod_error f of Some e \<Rightarrow> (Err e, f') | None \<Rightarrow> (Ok token, f'))"

section \<open>Start-up\<close>

text \<open>
  What the node is given besides its configuration: the libraries, its keys and token, and the
  conversions of the HTTP interface.
\<close>

record 'j node_env =
  ne_config :: node_config
  ne_gov :: gov_env
  ne_api :: "'j api_env"
  ne_identity :: node_identity
  ne_parse_culture :: "string \<Rightarrow> group_culture option"
  ne_peer_string :: "node_id \<Rightarrow> string"
  ne_addr_string :: "multiaddr \<Rightarrow> string"

abbreviation ne_lib :: "'j node_env \<Rightarrow> crypto_lib" where
  "ne_lib env \<equiv> ge_lib (ne_gov env)"

definition seed_group :: "string \<Rightarrow> db \<Rightarrow> string \<Rightarrow> db" where
  "seed_group now d g =
     (if result_or (read_group d g) None \<noteq> None then d
      else snd (write_group now d g g default_culture ''{}''))"

definition seed_config_groups :: "string \<Rightarrow> node_config \<Rightarrow> db \<Rightarrow> db" where
  "seed_config_groups now cfg d = foldl (seed_group now) d (ns_groups (cfg_node cfg))"

definition initial_groups :: "db \<Rightarrow> string list" where
  "initial_groups d = map gr_id (result_or (list_groups d) [])"

definition relay_posture_val :: "node_config \<Rightarrow> relay_posture option" where
  "relay_posture_val cfg = (if config_role cfg = Relay then Some (config_relay_posture cfg) else None)"

text \<open>Only a dynamic relay has a set of learned groups; it starts empty.\<close>

definition start_pool :: "node_config \<Rightarrow> string list \<Rightarrow> peer_pool" where
  "start_pool cfg gs = (if relay_posture_val cfg = Some Dynamic then new_relay_pool gs [] else new_pool gs)"

definition targets_of_config :: "node_config \<Rightarrow> governor_targets" where
  "targets_of_config cfg =
     (let g = effective_governor_targets cfg
      in \<lparr>hot_min = gs_hot_min g, hot_max = gs_hot_max g, warm_min = gs_warm_min g, warm_max = gs_warm_max g,
          cold_max = gs_cold_max g, churn_interval_secs = gs_churn_interval_secs g,
          churn_fraction = gs_churn_fraction g\<rparr>)"

text \<open>Every 32 bytes are an Ed25519 seed, so that \<open>ed25519_from_bytes\<close> gives a key.\<close>

definition trusted_id :: "gov_env \<Rightarrow> string \<Rightarrow> node_id option" where
  "trusted_id env addr =
     (case lib_hex_decode (ge_lib env) (sha256_hex (ge_lib env) (as_bytes addr)) of
        None \<Rightarrow> None
      | Some hash_bytes \<Rightarrow>
          let len = min 32 (length hash_bytes)
          in Some (ge_seed_peer_id env (take len hash_bytes @ replicate (32 - len) 0)))"

definition policy_of_config :: "gov_env \<Rightarrow> node_config \<Rightarrow> dial_policy" where
  "policy_of_config env cfg =
     (case config_role cfg of
        Relay \<Rightarrow> DialAll
      | Personal \<Rightarrow> RelaysOnly
      | Keeper \<Rightarrow> TrustedOnly (List.map_filter (trusted_id env) (nw_trusted_relays (cfg_network cfg))))"

definition swarm_env_of :: "'j node_env \<Rightarrow> swarm_env" where
  "swarm_env_of env =
     (let cfg = ne_config env
      in \<lparr>se_lib = ne_lib env, se_identity = ne_identity env, se_entity_id = ns_entity_id (cfg_node cfg),
          se_role = config_role cfg, se_posture = relay_posture_val cfg,
          se_allowed = (case cfg_relay cfg of Some r \<Rightarrow> rs_allowed_groups r | None \<Rightarrow> []),
          se_blocked = (case cfg_relay cfg of Some r \<Rightarrow> rs_blocked_groups r | None \<Rightarrow> []),
          se_peer_string = ne_peer_string env, se_addr_string = ne_addr_string env\<rparr>)"

definition engine_of_config :: "node_config \<Rightarrow> replication_engine" where
  "engine_of_config cfg =
     (let r = cfg_replication cfg
      in \<lparr>en_config =
            \<lparr>rc_sync_interval_taciturn_secs = rp_sync_interval_taciturn_secs r,
             rc_tombstone_retention_days = rp_tombstone_retention_days r,
             rc_max_batch_size = rp_max_batch_size r\<rparr>,
          en_entity_id = ns_entity_id (cfg_node cfg)\<rparr>)"

definition repl_env_of :: "'j node_env \<Rightarrow> repl_env" where
  "repl_env_of env =
     (let cfg = ne_config env
      in \<lparr>re_lib = ne_lib env, re_engine = engine_of_config cfg,
          re_is_relay = (config_role cfg = Relay),
          re_blocked = (case cfg_relay cfg of Some s \<Rightarrow> rs_blocked_groups s | None \<Rightarrow> []),
          re_parse_culture = ne_parse_culture env\<rparr>)"

definition api_env_of :: "'j node_env \<Rightarrow> 'j api_env" where
  "api_env_of env =
     (ne_api env)\<lparr>ae_lib := ne_lib env, ae_entity_id := ns_entity_id (cfg_node (ne_config env)),
       ae_write_notify := True, ae_shared_groups := True, ae_peer_count_fn := True,
       ae_peer_list_fn := True, ae_replication_stats := True, ae_bootstrap_sync := True\<rparr>"

section \<open>Channels\<close>

text \<open>
  A broadcast channel with one receiver: when it is full the oldest message is dropped, and the
  receiver is told once that it lagged before it goes on.
\<close>

record 'a broadcast =
  bc_queue :: "'a list"
  bc_lagged :: bool

definition new_broadcast :: "'a broadcast" where
  "new_broadcast = \<lparr>bc_queue = [], bc_lagged = False\<rparr>"

definition bc_send :: "nat \<Rightarrow> 'a \<Rightarrow> 'a broadcast \<Rightarrow> 'a broadcast" where
  "bc_send cap x b =
     (if length (bc_queue b) < cap then b\<lparr>bc_queue := bc_queue b @ [x]\<rparr>
      else \<lparr>bc_queue = drop 1 (bc_queue b) @ [x], bc_lagged = True\<rparr>)"

definition EVENT_CAPACITY :: nat where
  "EVENT_CAPACITY = 256"

definition WRITE_CAPACITY :: nat where
  "WRITE_CAPACITY = 256"

definition BOOTSTRAP_CAPACITY :: nat where
  "BOOTSTRAP_CAPACITY = 32"

section \<open>The node\<close>

record node_state =
  nd_db :: db
  nd_pool :: peer_pool
  nd_stats :: replication_stats
  nd_swarm :: swarm_state
  nd_gov :: gov_task_state
  nd_repl :: repl_state
  nd_commands :: "swarm_command list"
  nd_events :: "swarm_event2 broadcast"
  nd_writes :: "write_notification broadcast"
  nd_bootstrap :: "string list"

text \<open>Each task with the shared state as it is.\<close>

definition swarm_view :: "node_state \<Rightarrow> swarm_state" where
  "swarm_view n = (nd_swarm n)\<lparr>sw_db := nd_db n, sw_pool := nd_pool n\<rparr>"

definition gov_view :: "node_state \<Rightarrow> gov_task_state" where
  "gov_view n = (nd_gov n)\<lparr>gt_pool := nd_pool n\<rparr>"

definition repl_view :: "node_state \<Rightarrow> repl_state" where
  "repl_view n = (nd_repl n)\<lparr>rt_db := nd_db n, rt_pool := nd_pool n, rt_stats := nd_stats n\<rparr>"

definition api_view :: "node_state \<Rightarrow> api_state" where
  "api_view n = \<lparr>as_db = nd_db n, as_pool = nd_pool n, as_stats = nd_stats n\<rparr>"

definition start_node ::
  "'j node_env \<Rightarrow> dns \<Rightarrow> instant \<Rightarrow> instant \<Rightarrow> string \<Rightarrow> db \<Rightarrow> node_state" where
  "start_node env dns now0 now db_now opened =
     (let cfg = ne_config env;
          d = seed_config_groups db_now cfg opened;
          pool = start_pool cfg (initial_groups d);
          gov = with_dial_policy now0 (targets_of_config cfg) (initial_groups d) (policy_of_config (ne_gov env) cfg)
      in \<lparr>nd_db = d, nd_pool = pool, nd_stats = new_stats,
          nd_swarm = \<lparr>sw_db = d, sw_pool = pool, sw_pending_peer_share = [], sw_pending_sync = [],
                      sw_pending_fetch = [], sw_pending_group_exchange = []\<rparr>,
          nd_gov = start_governor (ne_gov env) dns now gov pool (nw_bootnodes (cfg_network cfg)),
          nd_repl = \<lparr>rt_db = d, rt_pool = pool, rt_stats = new_stats, rt_pending_pushes = [],
                     rt_next_sync_at = [], rt_last_sync_at = [], rt_sync_cycle_count = [],
                     rt_write_buffer = []\<rparr>,
          nd_commands = [], nd_events = new_broadcast, nd_writes = new_broadcast, nd_bootstrap = []\<rparr>)"

text \<open>What leaves a task is put on its channel.\<close>

definition publish_event :: "swarm_event2 broadcast \<Rightarrow> swarm_out \<Rightarrow> swarm_event2 broadcast" where
  "publish_event b out = (case out of Emit e \<Rightarrow> bc_send EVENT_CAPACITY e b | _ \<Rightarrow> b)"

definition publish_api :: "node_state \<Rightarrow> api_out \<Rightarrow> node_state" where
  "publish_api n out =
     (case out of
        Notify w \<Rightarrow> n\<lparr>nd_writes := bc_send WRITE_CAPACITY w (nd_writes n)\<rparr>
      | Bootstrap g \<Rightarrow> n\<lparr>nd_bootstrap := nd_bootstrap n @ [g]\<rparr>)"

definition network_turn :: "'j node_env \<Rightarrow> swarm_input \<Rightarrow> node_state \<Rightarrow> node_state \<times> swarm_out list" where
  "network_turn env inp n =
     (case swarm_step (swarm_env_of env) (swarm_view n) inp of
        (st, out) \<Rightarrow>
          (n\<lparr>nd_db := sw_db st, nd_pool := sw_pool st, nd_swarm := st,
             nd_events := foldl publish_event (nd_events n) out\<rparr>, out))"

definition governor_turn :: "'j node_env \<Rightarrow> gov_task_event \<Rightarrow> node_state \<Rightarrow> node_state" where
  "governor_turn env ev n =
     (case gov_task_step (ne_gov env) (gov_view n) ev of
        (st, cmds) \<Rightarrow> n\<lparr>nd_pool := gt_pool st, nd_gov := st, nd_commands := nd_commands n @ cmds\<rparr>)"

definition replication_turn :: "'j node_env \<Rightarrow> repl_event \<Rightarrow> node_state \<Rightarrow> node_state option" where
  "replication_turn env ev n =
     (case repl_step (repl_env_of env) (repl_view n) ev of
        None \<Rightarrow> None
      | Some (st, cmds) \<Rightarrow>
          Some (n\<lparr>nd_db := rt_db st, nd_pool := rt_pool st, nd_stats := rt_stats st, nd_repl := st,
                  nd_commands := nd_commands n @ cmds\<rparr>))"

definition api_turn ::
  "'j node_env \<Rightarrow> string \<Rightarrow> instant \<Rightarrow> string option \<Rightarrow> 'j api_request \<Rightarrow> node_state \<Rightarrow>
     node_state \<times> 'j api_response" where
  "api_turn env now t auth req n =
     (case router (api_env_of env) now t (length (nd_bootstrap n) < BOOTSTRAP_CAPACITY) (api_view n) auth req of
        (st, out, resp) \<Rightarrow>
          (foldl publish_api (n\<lparr>nd_db := as_db st, nd_pool := as_pool st, nd_stats := as_stats st\<rparr>) out, resp))"

text \<open>What the network task and the interface may do to the database while a round waits.\<close>

inductive other_task :: "'j node_env \<Rightarrow> db \<Rightarrow> db \<Rightarrow> bool" for env :: "'j node_env" where
  network: "sw_db st = d \<Longrightarrow> other_task env d (sw_db (fst (swarm_step (swarm_env_of env) st inp)))"
| api: "as_db st = d \<Longrightarrow> other_task env d (as_db (fst (router (api_env_of env) now t room st auth req)))"

definition meanwhile :: "'j node_env \<Rightarrow> peer_net \<Rightarrow> bool" where
  "meanwhile env net \<longleftrightarrow> (\<forall>k d. (other_task env)\<^sup>*\<^sup>* d (nt_others net k d))"

inductive node_step :: "'j node_env \<Rightarrow> node_state \<Rightarrow> node_state \<Rightarrow> bool" for env :: "'j node_env" where
  command:
    "nd_commands n = cmd # cmds \<Longrightarrow>
     node_step env n (fst (network_turn env (Command rid cmd) (n\<lparr>nd_commands := cmds\<rparr>)))"
| network: "node_step env n (fst (network_turn env (Event ev) n))"
| event:
    "nd_events n = \<lparr>bc_queue = e # es, bc_lagged = False\<rparr> \<Longrightarrow>
     node_step env n (governor_turn env (NetworkEvent now tx e) (n\<lparr>nd_events := \<lparr>bc_queue = es, bc_lagged = False\<rparr>\<rparr>))"
| events_lagged:
    "bc_lagged (nd_events n) \<Longrightarrow>
     node_step env n (governor_turn env EventsLagged (n\<lparr>nd_events := (nd_events n)\<lparr>bc_lagged := False\<rparr>\<rparr>))"
| governor_tick: "node_step env n (governor_turn env (GovTick dns clk chan) n)"
| exchange_reply: "node_step env n (governor_turn env (ExchangeReply now tx reply) n)"
| discover: "node_step env n (governor_turn env (DiscoverStart shuffle chan) n)"
| discovered: "node_step env n (governor_turn env (DiscoverReplies now replies) n)"
| local_write:
    "nd_writes n = \<lparr>bc_queue = w # ws, bc_lagged = False\<rparr> \<Longrightarrow>
     replication_turn env (LocalWrite now w) (n\<lparr>nd_writes := \<lparr>bc_queue = ws, bc_lagged = False\<rparr>\<rparr>) = Some n' \<Longrightarrow>
     node_step env n n'"
| writes_lagged:
    "bc_lagged (nd_writes n) \<Longrightarrow>
     replication_turn env WriteLagged (n\<lparr>nd_writes := (nd_writes n)\<lparr>bc_lagged := False\<rparr>\<rparr>) = Some n' \<Longrightarrow>
     node_step env n n'"
| flush: "replication_turn env (FlushTick up clk) n = Some n' \<Longrightarrow> node_step env n n'"
| retry: "replication_turn env (RetryTick up now) n = Some n' \<Longrightarrow> node_step env n n'"
| sync:
    "(\<And>g. meanwhile env (nets g)) \<Longrightarrow>
     replication_turn env (SyncTick rng nets now db_now) n = Some n' \<Longrightarrow> node_step env n n'"
| bootstrap:
    "nd_bootstrap n = g # gs \<Longrightarrow> meanwhile env net \<Longrightarrow>
     replication_turn env (BootstrapSync rng net db_now g) (n\<lparr>nd_bootstrap := gs\<rparr>) = Some n' \<Longrightarrow>
     node_step env n n'"
| collect: "replication_turn env (GcTick ago) n = Some n' \<Longrightarrow> node_step env n n'"
| request: "node_step env n (fst (api_turn env now t auth req n))"

definition node_start :: "'j node_env \<Rightarrow> node_state \<Rightarrow> bool" where
  "node_start env n \<longleftrightarrow> (\<exists>dns now0 now db_now opened.
     db_inv (ne_lib env) opened \<and> n = start_node env dns now0 now db_now opened)"

inductive node_reach :: "'j node_env \<Rightarrow> node_state \<Rightarrow> bool" for env :: "'j node_env" where
  start: "node_start env n \<Longrightarrow> node_reach env n"
| step: "node_reach env n \<Longrightarrow> node_step env n n' \<Longrightarrow> node_reach env n'"

end
