(* ===== verification/Node_Props.thy ===== *)
theory Node_Props
  imports Node
begin

text \<open>
  What holds of a whole node: the invariants of its tasks together in every state the node can
  reach, what it serves to peers and clients, how a write on one node arrives at another, and
  what start-up makes of the configuration and of the database.
\<close>

section \<open>The node keeps its invariants\<close>

lemma env_libs [simp]:
  "se_lib (swarm_env_of env) = ne_lib env" "re_lib (repl_env_of env) = ne_lib env"
  "ae_lib (api_env_of env) = ne_lib env"
  by (simp_all add: swarm_env_of_def repl_env_of_def api_env_of_def Let_def)

lemma api_env_simps [simp]:
  "ae_entity_id (api_env_of env) = ns_entity_id (cfg_node (ne_config env))"
  "ae_to_vec (api_env_of env) = ae_to_vec (ne_api env)" "ae_write_notify (api_env_of env)"
  by (simp_all add: api_env_of_def)

lemma view_simps [simp]:
  "sw_db (swarm_view n) = nd_db n" "sw_pool (swarm_view n) = nd_pool n"
  "gt_gov (gov_view n) = gt_gov (nd_gov n)" "gt_pool (gov_view n) = nd_pool n"
  "rt_db (repl_view n) = nd_db n" "rt_pool (repl_view n) = nd_pool n" "rt_stats (repl_view n) = nd_stats n"
  "rt_pending_pushes (repl_view n) = rt_pending_pushes (nd_repl n)"
  "rt_write_buffer (repl_view n) = rt_write_buffer (nd_repl n)"
  "as_db (api_view n) = nd_db n" "as_pool (api_view n) = nd_pool n"
  by (simp_all add: swarm_view_def gov_view_def repl_view_def api_view_def)

lemma other_task_inv:
  assumes "other_task env d d'" "db_inv (ne_lib env) d"
  shows "db_inv (ne_lib env) d'"
  using assms
proof cases
  case (network st inp)
  then show ?thesis
    using assms(2) swarm_step_inv [of "swarm_env_of env" st inp] by simp
next
  case (api st now t room auth req)
  then show ?thesis
    using assms(2) router_inv [of "api_env_of env" st now t room auth req] by simp
qed

lemma meanwhile_ok:
  assumes "meanwhile env net"
  shows "others_ok (ne_lib env) net"
proof -
  have "db_inv (ne_lib env) d'" if "(other_task env)\<^sup>*\<^sup>* d d'" "db_inv (ne_lib env) d" for d d'
    using that by (induction rule: rtranclp_induct) (auto intro: other_task_inv)
  then show ?thesis
    using assms by (auto simp: meanwhile_def others_ok_def)
qed

definition channels_ok :: "node_state \<Rightarrow> bool" where
  "channels_ok n \<longleftrightarrow>
     length (bc_queue (nd_events n)) \<le> EVENT_CAPACITY \<and> length (bc_queue (nd_writes n)) \<le> WRITE_CAPACITY \<and>
     length (nd_bootstrap n) \<le> BOOTSTRAP_CAPACITY"

definition node_inv :: "'j node_env \<Rightarrow> node_state \<Rightarrow> bool" where
  "node_inv env n \<longleftrightarrow>
     db_inv (ne_lib env) (nd_db n) \<and> gov_wf (gt_gov (nd_gov n)) \<and>
     targets (gt_gov (nd_gov n)) = targets_of_config (ne_config env) \<and>
     dial_policy_of (gt_gov (nd_gov n)) = policy_of_config (ne_gov env) (ne_config env) \<and>
     attempts_ok (nd_repl n) \<and> channels_ok n"

lemma bc_send_bound:
  "length (bc_queue b) \<le> cap \<Longrightarrow> 0 < cap \<Longrightarrow> length (bc_queue (bc_send cap x b)) \<le> cap"
  by (auto simp: bc_send_def)

lemma publish_events_bound:
  "length (bc_queue b) \<le> EVENT_CAPACITY \<Longrightarrow> length (bc_queue (foldl publish_event b out)) \<le> EVENT_CAPACITY"
proof (induction out arbitrary: b)
  case (Cons x out)
  have "length (bc_queue (publish_event b x)) \<le> EVENT_CAPACITY"
    using Cons.prems bc_send_bound [of b EVENT_CAPACITY]
    by (simp add: publish_event_def EVENT_CAPACITY_def split: swarm_out.split)
  then show ?case
    using Cons.IH by simp
qed simp

text \<open>A request puts at most one group on the bootstrap channel, and only when it has room.\<close>

definition bootstraps :: "api_out list \<Rightarrow> string list" where
  "bootstraps out = concat (map (\<lambda>x. case x of Bootstrap g \<Rightarrow> [g] | Notify _ \<Rightarrow> []) out)"

lemma router_bootstraps:
  "length (bootstraps (fst (snd (router env now t room st auth req)))) \<le> (if room then 1 else 0)"
  by (cases req)
    (auto simp: router_def handler_defs authorised_iff Let_def bootstraps_def
      split: option.splits sum.splits bool.splits prod.splits)

lemma publish_api_frame:
  "nd_db (foldl publish_api n out) = nd_db n" "nd_gov (foldl publish_api n out) = nd_gov n"
  "nd_repl (foldl publish_api n out) = nd_repl n" "nd_events (foldl publish_api n out) = nd_events n"
  "nd_pool (foldl publish_api n out) = nd_pool n"
  "nd_bootstrap (foldl publish_api n out) = nd_bootstrap n @ bootstraps out"
  by (induction out arbitrary: n) (simp_all add: publish_api_def bootstraps_def split: api_out.split)

lemma publish_api_writes:
  "length (bc_queue (nd_writes n)) \<le> WRITE_CAPACITY \<Longrightarrow>
   length (bc_queue (nd_writes (foldl publish_api n out))) \<le> WRITE_CAPACITY"
proof (induction out arbitrary: n)
  case (Cons x out)
  have "length (bc_queue (nd_writes (publish_api n x))) \<le> WRITE_CAPACITY"
    using Cons.prems bc_send_bound [of "nd_writes n" WRITE_CAPACITY]
    by (simp add: publish_api_def WRITE_CAPACITY_def split: api_out.split)
  then show ?case
    using Cons.IH by simp
qed simp

lemma network_turn_inv: "node_inv env n \<Longrightarrow> node_inv env (fst (network_turn env inp n))"
  using swarm_step_inv [of "swarm_env_of env" "swarm_view n" inp]
    publish_events_bound [of "nd_events n" "snd (swarm_step (swarm_env_of env) (swarm_view n) inp)"]
  by (simp add: node_inv_def channels_ok_def network_turn_def split_beta)

lemma governor_turn_inv: "node_inv env n \<Longrightarrow> node_inv env (governor_turn env ev n)"
  using gov_steps_wf [OF gov_task_steps [of "gov_view n" "ne_gov env" ev]]
  by (simp add: node_inv_def channels_ok_def governor_turn_def split_beta)

lemma replication_turn_inv:
  assumes "node_inv env n" "event_others_ok (ne_lib env) ev"
  shows "\<exists>n'. replication_turn env ev n = Some n' \<and> node_inv env n'"
proof -
  obtain st out where s: "repl_step (repl_env_of env) (repl_view n) ev = Some (st, out)" "attempts_ok st"
    using step_no_panic [of "repl_view n" "repl_env_of env" ev] assms(1)
    by (auto simp: node_inv_def attempts_ok_def)
  then have "db_inv (ne_lib env) (rt_db st)"
    using repl_step_inv [of "repl_env_of env" "repl_view n" ev] assms by (simp add: node_inv_def)
  then show ?thesis
    using s assms(1) by (simp add: replication_turn_def node_inv_def channels_ok_def)
qed

lemma api_turn_inv:
  assumes "node_inv env n"
  shows "node_inv env (fst (api_turn env now t auth req n))"
proof -
  let ?room = "length (nd_bootstrap n) < BOOTSTRAP_CAPACITY"
  let ?r = "router (api_env_of env) now t ?room (api_view n) auth req"
  have "db_inv (ne_lib env) (as_db (fst ?r))"
    using router_inv [of "api_env_of env" "api_view n"] assms by (simp add: node_inv_def)
  moreover have "length (nd_bootstrap n @ bootstraps (fst (snd ?r))) \<le> BOOTSTRAP_CAPACITY"
    using router_bootstraps [of "api_env_of env" now t ?room "api_view n" auth req] assms
    by (auto simp: node_inv_def channels_ok_def split: if_splits)
  ultimately show ?thesis
    using assms
    by (simp add: api_turn_def split_beta node_inv_def channels_ok_def publish_api_frame publish_api_writes)
qed

lemma dequeue_inv:
  "node_inv env n \<Longrightarrow> node_inv env (n\<lparr>nd_commands := cmds\<rparr>)"
  "node_inv env n \<Longrightarrow> nd_events n = \<lparr>bc_queue = e # es, bc_lagged = False\<rparr> \<Longrightarrow>
     node_inv env (n\<lparr>nd_events := \<lparr>bc_queue = es, bc_lagged = False\<rparr>\<rparr>)"
  "node_inv env n \<Longrightarrow> node_inv env (n\<lparr>nd_events := (nd_events n)\<lparr>bc_lagged := False\<rparr>\<rparr>)"
  "node_inv env n \<Longrightarrow> nd_writes n = \<lparr>bc_queue = w # ws, bc_lagged = False\<rparr> \<Longrightarrow>
     node_inv env (n\<lparr>nd_writes := \<lparr>bc_queue = ws, bc_lagged = False\<rparr>\<rparr>)"
  "node_inv env n \<Longrightarrow> node_inv env (n\<lparr>nd_writes := (nd_writes n)\<lparr>bc_lagged := False\<rparr>\<rparr>)"
  "node_inv env n \<Longrightarrow> nd_bootstrap n = g # gs \<Longrightarrow> node_inv env (n\<lparr>nd_bootstrap := gs\<rparr>)"
  by (simp_all add: node_inv_def channels_ok_def)

lemma node_step_inv:
  assumes "node_step env n n'" "node_inv env n"
  shows "node_inv env n'"
proof -
  have turn: "node_inv env b" if "replication_turn env ev a = Some b" "node_inv env a" "event_others_ok (ne_lib env) ev" for ev a b
    using replication_turn_inv [OF that(2,3)] that(1) by simp
  from assms show ?thesis
  proof cases
    case (sync nets rng now db_now)
    then show ?thesis
      using assms(2) by (intro turn [OF sync(2)]) (auto intro: meanwhile_ok)
  next
    case (bootstrap g gs net rng db_now)
    then show ?thesis
      using assms(2) meanwhile_ok [OF bootstrap(2)] by (intro turn [OF bootstrap(3)]) (auto intro: dequeue_inv)
  qed (use assms(2) in \<open>auto intro!: network_turn_inv governor_turn_inv api_turn_inv
      intro: dequeue_inv elim!: turn\<close>)
qed

lemma seed_groups_inv: "db_inv L d \<Longrightarrow> db_inv L (seed_config_groups now cfg d)"
proof -
  have "db_inv L d \<Longrightarrow> db_inv L (foldl (seed_group now) d gs)" for gs
    by (induction gs arbitrary: d) (simp_all add: seed_group_def write_group_inv)
  then show "db_inv L d \<Longrightarrow> db_inv L (seed_config_groups now cfg d)"
    by (simp add: seed_config_groups_def)
qed

lemma started_governor [simp]:
  fixes ts :: governor_targets
  shows "gov_wf (gt_gov (start_governor genv dns now (with_dial_policy now0 ts gs pol) pool boots))"
    "targets (gt_gov (start_governor genv dns now (with_dial_policy now0 ts gs pol) pool boots)) = ts"
    "dial_policy_of (gt_gov (start_governor genv dns now (with_dial_policy now0 ts gs pol) pool boots)) = pol"
proof -
  let ?g = "with_dial_policy now0 ts gs pol"
  have "gt_gov (start_governor genv dns now ?g pool boots) = fst (seed_all genv dns now ?g boots)"
    by (simp add: start_governor_def split_beta)
  moreover have "targets ?g = ts" "dial_policy_of ?g = pol"
    by (simp_all add: with_dial_policy_def)
  ultimately show "gov_wf (gt_gov (start_governor genv dns now ?g pool boots))"
    "targets (gt_gov (start_governor genv dns now ?g pool boots)) = ts"
    "dial_policy_of (gt_gov (start_governor genv dns now ?g pool boots)) = pol"
    using gov_steps_wf [OF seed_all_steps [of ?g genv dns now boots] fresh_governor_wf] by simp_all
qed

lemma start_inv:
  assumes "db_inv (ne_lib env) opened"
  shows "node_inv env (start_node env dns now0 now db_now opened)"
  using seed_groups_inv [OF assms]
  by (simp add: start_node_def Let_def node_inv_def channels_ok_def attempts_ok_def new_broadcast_def)

lemma reach_inv: "node_reach env n \<Longrightarrow> node_inv env n"
  by (induction rule: node_reach.induct) (auto simp: node_start_def intro: start_inv node_step_inv)


definition config_w :: "string \<Rightarrow> node_config" where
  "config_w role = default_node_config\<lparr>cfg_node := (cfg_node default_node_config)\<lparr>ns_role := role, ns_groups := [''g1'']\<rparr>\<rparr>"

definition node_env_w :: "string \<Rightarrow> bytes node_env" where
  "node_env_w role =
     \<lparr>ne_config = config_w role, ne_gov = gov_env_w, ne_api = api_env_w, ne_identity = ni_w,
      ne_parse_culture = (\<lambda>_. None), ne_peer_string = (\<lambda>_. []), ne_addr_string = (\<lambda>_. [])\<rparr>"

definition node_w :: "string \<Rightarrow> node_state" where
  "node_w role = start_node (node_env_w role) (\<lambda>_. None) 0 0 ''t0'' db_w"

lemma node_w_lib [simp]: "ne_lib (node_env_w role) = L_w"
  by (simp add: node_env_w_def gov_env_w_def)

lemma node_w_reach: "node_reach (node_env_w role) (node_w role)"
proof (rule node_reach.start)
  have "db_inv L_w db_w"
    by (simp add: db_w_def fresh_db_inv)
  then show "node_start (node_env_w role) (node_w role)"
    unfolding node_start_def node_w_def node_w_lib by blast
qed

lemma node_w_request_reach: "node_reach (node_env_w role) (fst (api_turn (node_env_w role) now t auth req (node_w role)))"
  using node_w_reach node_step.request by (rule node_reach.step)


section \<open>What a node serves\<close>

lemma read_valid:
  assumes "db_inv L d" "read_l2_item d i = Ok (Some row)"
  shows "lr_id row = i \<and> check_l2_type (lr_item_type row) \<and> check_visibility (lr_visibility row) \<and>
    lr_checksum row = Some (sha256_hex L (lr_data row))"
proof -
  obtain c where "hm_get (l2_items d) i = Some c" "row = row_of_l2 i c"
    using assms(2) by (auto simp: read_l2_item_def query_def split: option.splits)
  moreover from this(1) have "l2_row_ok L c"
    by (rule inv_l2_row [OF assms(1)])
  ultimately show ?thesis
    by (simp add: row_of_l2_def l2_row_ok_def storage_checksum_def sha256_hex_def)
qed

lemma settle_answers:
  "FetchAnswer resp \<notin> set (snd (settle p rid r))"
  by (simp add: settle_def split: option.split)

lemma fetch_answer:
  assumes "FetchAnswer resp \<in> set (snd (network_turn env inp n))"
  shows "\<exists>req. resp = handle_fetch_request (nd_db n) req"
proof -
  have out: "FetchAnswer resp \<in> set (snd (swarm_step (swarm_env_of env) (swarm_view n) inp))"
    using assms by (simp add: network_turn_def split_beta)
  show ?thesis
  proof (cases inp)
    case (Command rid cmd)
    then show ?thesis
      using out by (cases cmd) (simp_all add: swarm_step_def handle_command_def split_beta)
  next
    case (Event ev)
    show ?thesis
    proof (cases ev)
      case (Behaviour bev lf now)
      then show ?thesis
        using out Event
        by (cases bev)
          (auto simp: swarm_step_def handle_event_def handle_behaviour_event_def split_beta settle_answers
            settle_peer_share_def settle_sync_def settle_fetch_def handle_group_exchange_request_def
            handle_group_exchange_response_def)
    qed (use out Event in \<open>auto simp: swarm_step_def handle_event_def handle_push_event_def split_beta split: if_splits\<close>)
  qed
qed

lemma read_body:
  assumes "api_turn env now t auth (L2Read i) n = (n', (OK, L2Body v ty meta))"
  shows "\<exists>row. read_l2_item (nd_db n) i = Ok (Some row) \<and> ty = lr_item_type row \<and>
    mrs_visibility meta = lr_visibility row \<and> mrs_checksum meta = lr_checksum row \<and>
    v = unwrap_or (ae_from_slice (ne_api env) (lr_data row)) (ae_null (ne_api env))"
proof -
  have r: "snd (snd (l2_read (api_env_of env) (api_view n) auth i)) = (OK, L2Body v ty meta)"
    using assms by (simp add: api_turn_def router_def split_beta)
  have a: "authentic (api_env_of env) auth"
    using r by (rule contrapos_pp) (simp add: l2_read_def authorised_iff)
  show ?thesis
  proof (cases "read_l2_item (nd_db n) i")
    case (Inr row)
    then show ?thesis
      using r a by (cases row) (auto simp: l2_read_def authorised_iff api_env_of_def)
  qed (use r a in \<open>simp add: l2_read_def authorised_iff\<close>)
qed

text \<open>
  C4. Everything a reachable node serves is typed: an item in its answer to a fetch has one of the
  item types of the schema and passes the checksum test of the peer that receives it, and an item
  read over the API has in addition a visibility of the schema and the SHA-256 of its bytes as
  checksum.
\<close>

theorem served_items_typed:
  assumes "node_reach env n"
  shows "(\<forall>inp resp x. FetchAnswer resp \<in> set (snd (network_turn env inp n)) \<longrightarrow> x \<in> set (frs_items resp) \<longrightarrow>
      check_l2_type (fi_item_type x) \<and> validate_checksum (ne_lib env) x) \<and>
    (\<forall>now t auth i n' v ty meta. api_turn env now t auth (L2Read i) n = (n', (OK, L2Body v ty meta)) \<longrightarrow>
      check_l2_type ty \<and> check_visibility (mrs_visibility meta) \<and>
      (\<exists>data. mrs_checksum meta = Some (sha256_hex (ne_lib env) data) \<and>
        v = unwrap_or (ae_from_slice (ne_api env) data) (ae_null (ne_api env))))"
proof (intro conjI allI impI)
  have inv: "db_inv (ne_lib env) (nd_db n)"
    using reach_inv [OF assms] by (simp add: node_inv_def)
  fix inp resp x
  assume "FetchAnswer resp \<in> set (snd (network_turn env inp n))" "x \<in> set (frs_items resp)"
  then have "\<exists>i row. read_l2_item (nd_db n) i = Ok (Some row) \<and> x = item_of_row row"
    by (auto dest!: fetch_answer simp: handle_fetch_request_def split: sum.splits option.splits) metis
  then obtain i row where "read_l2_item (nd_db n) i = Ok (Some row)" "x = item_of_row row"
    by blast
  then show "check_l2_type (fi_item_type x)" "validate_checksum (ne_lib env) x"
    using read_valid [OF inv] by (auto simp: item_of_row_def validate_checksum_def checksum_def sha256_hex_def unwrap_or_def)
next
  have inv: "db_inv (ne_lib env) (nd_db n)"
    using reach_inv [OF assms] by (simp add: node_inv_def)
  fix now t auth i n' v ty meta
  assume "api_turn env now t auth (L2Read i) n = (n', (OK, L2Body v ty meta))"
  then obtain row where r: "read_l2_item (nd_db n) i = Ok (Some row)" "ty = lr_item_type row"
    "mrs_visibility meta = lr_visibility row" "mrs_checksum meta = lr_checksum row"
    "v = unwrap_or (ae_from_slice (ne_api env) (lr_data row)) (ae_null (ne_api env))"
    by (rule read_body [THEN exE]) blast
  with read_valid [OF inv r(1)]
  show "check_l2_type ty" "check_visibility (mrs_visibility meta)"
    "\<exists>data. mrs_checksum meta = Some (sha256_hex (ne_lib env) data) \<and>
       v = unwrap_or (ae_from_slice (ne_api env) data) (ae_null (ne_api env))"
    by auto
qed

lemma node_w_db: "nd_db (node_w role) = snd (write_group ''t0'' db_w ''g1'' ''g1'' default_culture ''{}'')"
  by (simp add: node_w_def start_node_def Let_def seed_config_groups_def node_env_w_def config_w_def
      default_node_config_def seed_group_def read_group_def db_w_def db_of_schema_def result_or_def)

lemma api_env_w_of: "api_env_of (node_env_w role) = api_env_w\<lparr>ae_entity_id := ''default''\<rparr>"
  by (simp add: api_env_of_def node_env_w_def gov_env_w_def api_env_w_def config_w_def default_node_config_def)

definition node_written_w :: node_state where
  "node_written_w = fst (api_turn (node_env_w ''personal'') ''t1'' 0 auth_w (L2Write ''i1'' ''learning'' [1, 2] None)
     (node_w ''personal''))"

lemma authentic_node_w: "authentic (api_env_w\<lparr>ae_entity_id := e\<rparr>) auth_w"
  using authentic_w by (simp add: authentic_def)

lemma node_written_w_db:
  "nd_db node_written_w = (nd_db (node_w ''personal''))\<lparr>l2_items := [(''i1'', upsert_l2 L_w ''t1''
     (write_of_request ''default'' ''i1'' ''learning'' [1, 2] default_write_meta) None)]\<rparr>"
proof -
  let ?w = "write_of_request ''default'' ''i1'' ''learning'' [1, 2] default_write_meta"
  have "l2_items (nd_db (node_w ''personal'')) = []" "db_fault (nd_db (node_w ''personal'')) = (\<lambda>_. None)"
    by (simp_all add: node_w_db write_group_def db_w_def db_of_schema_def)
  then have "write_l2_item L_w ''t1'' (nd_db (node_w ''personal'')) ?w =
      (Ok (), (nd_db (node_w ''personal''))\<lparr>l2_items := [(''i1'', upsert_l2 L_w ''t1'' ?w None)]\<rparr>)"
    by (simp add: write_l2_item_def) (simp add: write_of_request_def default_write_meta_def schema_checks unwrap_or_def)
  moreover have "unwrap_or None default_write_meta = default_write_meta" "\<not> MAX_ITEM_BYTES < 2"
    "ae_to_vec api_env_w [1, 2] = Ok [1, 2]" "ae_lib api_env_w = L_w"
    by (simp_all add: unwrap_or_def MAX_ITEM_BYTES_def api_env_w_def)
  ultimately show ?thesis
    using authentic_node_w
    by (simp add: node_written_w_def api_turn_def router_def l2_write_def authorised_iff api_env_w_of
        publish_api_frame split_beta Let_def numeral_2_eq_2)
qed

theorem served_items_typed_witness:
  "\<exists>n' meta. api_turn (node_env_w ''personal'') ''t2'' 0 auth_w (L2Read ''i1'') node_written_w =
     (n', (OK, L2Body [1, 2] ''learning'' meta)) \<and> check_visibility (mrs_visibility meta)"
proof -
  have "read_l2_item (nd_db node_written_w) ''i1'' = Ok (Some (row_of_l2 ''i1'' (upsert_l2 L_w ''t1''
      (write_of_request ''default'' ''i1'' ''learning'' [1, 2] default_write_meta) None)))"
    by (simp add: node_written_w_db read_l2_item_def node_w_db write_group_def db_w_def db_of_schema_def)
  then have "\<exists>n' meta. api_turn (node_env_w ''personal'') ''t2'' 0 auth_w (L2Read ''i1'') node_written_w =
      (n', (OK, L2Body [1, 2] ''learning'' meta))"
    using authentic_node_w
    by (simp add: api_turn_def router_def l2_read_def authorised_iff api_env_w_of split_beta row_of_l2_def
        upsert_l2_def write_of_request_def)
      (simp add: api_env_w_def unwrap_or_def)
  then show ?thesis
    using served_items_typed [OF node_w_request_reach, of "''personal''" "''t1''" 0 auth_w
        "L2Write ''i1'' ''learning'' [1, 2] None"]
    unfolding node_written_w_def by blast
qed

section \<open>A write on one node reaches another\<close>

lemma push_batches_commands:
  "fst (push_batches True batches handles pool) =
     map (\<lambda>(b, h). SendMemoryPush (ph_node_id h) \<lparr>mp_items = b\<rparr>) (List.product batches handles)"
proof -
  have "fst (foldl (send_push True) (cmds, pool') bhs) =
      cmds @ map (\<lambda>(b, h). SendMemoryPush (ph_node_id h) \<lparr>mp_items = b\<rparr>) bhs" for bhs cmds pool'
    by (induction bhs arbitrary: cmds pool') (auto simp: send_push_def split: prod.splits)
  then show ?thesis
    by (simp add: push_batches_def)
qed

lemma flush_one:
  assumes "rt_write_buffer st = [(g, [x])]" "h \<in> set (active_peers_for_group_or_relays (rt_pool st) g)"
  shows "SendMemoryPush (ph_node_id h) \<lparr>mp_items = [x]\<rparr> \<in> set (snd (flush True clk st))"
  using assms push_batches_commands [of "[[x]]" "active_peers_for_group_or_relays (rt_pool st) g" "rt_pool st"]
  by (auto simp: flush_def flush_group_def split_into_batches_def Let_def image_iff split: prod.split)

lemma receive_writes:
  assumes "db_fault d = (\<lambda>_. None)" "admissible L gs ra x" "fi_item_type x \<noteq> TOMBSTONE_TYPE"
    and "\<forall>c. hm_get (l2_items d) (fi_item_id x) = Some c \<longrightarrow>
      l2_checksum c \<noteq> Some (fi_checksum x) \<and> l2_updated_at c < fi_updated_at x"
  shows "hm_get (l2_items (snd (on_receive L eng (sqlite_store L now) d x gs ra))) (fi_item_id x) =
    Some (upsert_l2 L now (write_of_item x) (hm_get (l2_items d) (fi_item_id x)))"
proof -
  have "\<not> superseded (read_l2_item d (fi_item_id x)) x"
    using assms(1,4) by (auto simp: superseded_def read_l2_item_def row_of_l2_def split: option.split)
  then have "on_receive L eng (sqlite_store L now) d x gs ra =
      (Stored, snd (log_access (d\<lparr>l2_items := hm_insert (fi_item_id x)
         (upsert_l2 L now (write_of_item x) (hm_get (l2_items d) (fi_item_id x))) (l2_items d)\<rparr>) (receive_log x)))"
    using assms(1-3) by (simp add: on_receive_def admissible_def sqlite_store_def write_l2_item_def)
  then show ?thesis
    using assms(1) by (simp add: log_access_def hm_get_simps)
qed

text \<open>The item a node sends for a notified write, and the culture it decides by.\<close>

definition pushed_item :: "'j node_env \<Rightarrow> string \<Rightarrow> group_id \<Rightarrow> write_notification \<Rightarrow> fetched_item" where
  "pushed_item env rfc g w =
     \<lparr>fi_item_id = wn_item_id w, fi_item_type = wn_item_type w, fi_encrypted_blob = wn_data w,
      fi_checksum = checksum (ne_lib env) (wn_data w), fi_author_id = ns_entity_id (cfg_node (ne_config env)),
      fi_group_id = g, fi_key_version = wn_key_version w, fi_parent_id = wn_parent_id w,
      fi_is_copy = wn_is_copy w, fi_updated_at = rfc\<rparr>"

definition culture_in :: "'j node_env \<Rightarrow> node_state \<Rightarrow> group_id \<Rightarrow> group_culture" where
  "culture_in env n g = unwrap_or (load_group_culture (repl_env_of env) (nd_db n) g) default_group_culture"

lemma local_write_turn:
  assumes "wn_group_id w = Some g" "length (wn_data w) \<le> MAX_ITEM_BYTES"
    and "strategy (culture_in env n g) = EagerPush" "rt_write_buffer (nd_repl n) = []"
  shows "\<exists>n'. replication_turn env (LocalWrite rfc w) n = Some n' \<and>
    rt_write_buffer (nd_repl n') = [(g, [pushed_item env rfc g w])] \<and> nd_pool n' = nd_pool n"
proof -
  have e: "en_entity_id (re_engine (repl_env_of env)) = ns_entity_id (cfg_node (ne_config env))"
    by (simp add: repl_env_of_def engine_of_config_def Let_def)
  have "on_write_notification (repl_env_of env) rfc (update_gauges (repl_view n)) w =
      (update_gauges (repl_view n))\<lparr>rt_write_buffer := [(g, [pushed_item env rfc g w])]\<rparr>"
    using assms e
    by (simp add: on_write_notification_def on_local_write_def pushed_item_def culture_in_def Let_def
        update_gauges_def unwrap_or_def)
  then show ?thesis
    by (simp add: replication_turn_def repl_step_def Let_def)
qed

lemma flush_turn:
  assumes "rt_write_buffer (nd_repl n) = [(g, [x])]"
  obtains n' where "replication_turn env (FlushTick True clk) n = Some n'"
    "\<forall>h \<in> set (active_peers_for_group_or_relays (nd_pool n) g).
       SendMemoryPush (ph_node_id h) \<lparr>mp_items = [x]\<rparr> \<in> set (nd_commands n')"
proof -
  let ?st = "update_gauges (repl_view n)"
  have "SendMemoryPush (ph_node_id h) \<lparr>mp_items = [x]\<rparr> \<in> set (snd (flush True clk ?st))"
    if "h \<in> set (active_peers_for_group_or_relays (nd_pool n) g)" for h
    using assms that by (intro flush_one [where g = g]) (simp_all add: update_gauges_def)
  then show ?thesis
    by (intro that [OF _]) (auto simp: replication_turn_def repl_step_def Let_def split_beta)
qed

lemma write_turn:
  assumes "api_turn env now t auth (L2Write i ty val (Some meta)) n = (n', (OK, body))"
    and "nd_writes n = new_broadcast"
  obtains data w where "ae_to_vec (ne_api env) val = Ok data" "length data \<le> MAX_ITEM_BYTES"
    "check_l2_type ty" "w = notification_of_write (write_of_request (ns_entity_id (cfg_node (ne_config env))) i ty data meta)"
    "nd_writes n' = \<lparr>bc_queue = [w], bc_lagged = False\<rparr>" "nd_pool n' = nd_pool n" "nd_repl n' = nd_repl n"
    "groups_tab (nd_db n') = groups_tab (nd_db n)" "db_fault (nd_db n') = db_fault (nd_db n)"
proof -
  let ?r = "router (api_env_of env) now t (length (nd_bootstrap n) < BOOTSTRAP_CAPACITY) (api_view n) auth
      (L2Write i ty val (Some meta))"
  obtain st outs where r: "?r = (st, outs, (OK, body))"
    "n' = foldl publish_api (n\<lparr>nd_db := as_db st, nd_pool := as_pool st, nd_stats := as_stats st\<rparr>) outs"
    using assms(1) by (cases ?r) (auto simp: api_turn_def)
  obtain data d' where w: "ae_to_vec (ne_api env) val = Ok data" "length data \<le> MAX_ITEM_BYTES"
    "write_l2_item (ne_lib env) now (nd_db n)
       (write_of_request (ns_entity_id (cfg_node (ne_config env))) i ty data meta) = (Ok (), d')"
    "st = (api_view n)\<lparr>as_db := d'\<rparr>"
    "outs = [Notify (notification_of_write (write_of_request (ns_entity_id (cfg_node (ne_config env))) i ty data meta))]"
    using write_accepted [OF r(1)] by (simp add: unwrap_or_def) blast
  then have "check_l2_type ty" "groups_tab d' = groups_tab (nd_db n)" "db_fault d' = db_fault (nd_db n)"
    by (auto simp: write_l2_item_def write_of_request_def exec_def split: option.splits if_splits)
  then show ?thesis
    using w r(2) assms(2)
    by (intro that [of data]) (simp_all add: publish_api_def new_broadcast_def bc_send_def WRITE_CAPACITY_def)
qed

lemma push_turn:
  assumes "db_fault (nd_db m) = (\<lambda>_. None)" "fi_item_type x \<noteq> TOMBSTONE_TYPE"
    and "admissible (ne_lib env) (pp_our_groups (nd_pool m)) (relay_check (swarm_env_of env) (swarm_view m) lf) x"
    and "\<forall>c. hm_get (l2_items (nd_db m)) (fi_item_id x) = Some c \<longrightarrow>
      l2_checksum c \<noteq> Some (fi_checksum x) \<and> l2_updated_at c < fi_updated_at x"
  shows "\<exists>old. hm_get (l2_items (nd_db (fst (network_turn env (Event (PushRequestIn sender \<lparr>mp_items = [x]\<rparr> lf now)) m))))
    (fi_item_id x) = Some (upsert_l2 (ne_lib env) now (write_of_item x) old)"
  using receive_writes [OF assms(1,3,2,4), of push_engine now]
  by (simp add: network_turn_def swarm_step_def handle_event_def handle_push_event_def split_beta push_db) blast

lemma write_pushed:
  assumes req: "api_turn env now t auth (L2Write i ty val (Some meta)) n = (n1, (OK, body))"
    and group: "wm_group_id meta = Some g" "strategy (culture_in env n g) = EagerPush"
    and idle: "nd_writes n = new_broadcast" "rt_write_buffer (nd_repl n) = []"
    and data: "ae_to_vec (ne_api env) val = Ok data"
  obtains n3 w where "(node_step env)\<^sup>*\<^sup>* n n3"
    "\<forall>h \<in> set (active_peers_for_group_or_relays (nd_pool n) g).
       SendMemoryPush (ph_node_id h) \<lparr>mp_items = [pushed_item env rfc g w]\<rparr> \<in> set (nd_commands n3)"
    "wn_data w = data" "wn_item_id w = i" "wn_item_type w = ty" "length data \<le> MAX_ITEM_BYTES" "check_l2_type ty"
proof -
  obtain w where w: "length data \<le> MAX_ITEM_BYTES" "check_l2_type ty"
    "w = notification_of_write (write_of_request (ns_entity_id (cfg_node (ne_config env))) i ty data meta)"
    and n1: "nd_writes n1 = \<lparr>bc_queue = [w], bc_lagged = False\<rparr>" "nd_pool n1 = nd_pool n" "nd_repl n1 = nd_repl n"
      "groups_tab (nd_db n1) = groups_tab (nd_db n)" "db_fault (nd_db n1) = db_fault (nd_db n)"
    using write_turn [OF req idle(1)] data by (metis Inr_inject)
  have wsel: "wn_group_id w = Some g" "wn_data w = data" "wn_item_id w = i" "wn_item_type w = ty"
    using group(1) by (simp_all add: w(3) notification_of_write_def write_of_request_def)
  let ?n1 = "n1\<lparr>nd_writes := \<lparr>bc_queue = [], bc_lagged = False\<rparr>\<rparr>" and ?x = "pushed_item env rfc g w"
  have "culture_in env ?n1 g = culture_in env n g"
    using n1(4,5) by (simp add: culture_in_def load_group_culture_def read_group_def query_def)
  then obtain n2 where n2: "replication_turn env (LocalWrite rfc w) ?n1 = Some n2"
    "rt_write_buffer (nd_repl n2) = [(g, [?x])]" "nd_pool n2 = nd_pool n"
    using local_write_turn [OF wsel(1), of env ?n1 rfc] wsel w(1) group(2) idle(2) n1(2,3) by auto
  obtain n3 where n3: "replication_turn env (FlushTick True (\<lambda>_. 0)) n2 = Some n3"
    "\<forall>h \<in> set (active_peers_for_group_or_relays (nd_pool n) g).
       SendMemoryPush (ph_node_id h) \<lparr>mp_items = [?x]\<rparr> \<in> set (nd_commands n3)"
    using flush_turn [OF n2(2), of env "\<lambda>_. 0"] unfolding n2(3) by metis
  have "node_step env n n1"
    using node_step.request [of env n now t auth "L2Write i ty val (Some meta)"] req by simp
  moreover have "node_step env n1 n2"
    using n1(1) n2(1) by (rule node_step.local_write)
  moreover have "node_step env n2 n3"
    using n3(1) by (rule node_step.flush)
  ultimately have "(node_step env)\<^sup>*\<^sup>* n n3"
    by (meson converse_rtranclp_into_rtranclp rtranclp.rtrancl_refl)
  then show ?thesis
    using that n3(2) wsel w(1,2) by blast
qed


definition writer_w :: node_state where
  "writer_w = (node_w ''personal'')\<lparr>nd_pool := pool_w\<rparr>"

definition private_w :: l2_write_meta where
  "private_w = default_write_meta\<lparr>wm_visibility := Some ''private'', wm_group_id := Some ''g1''\<rparr>"

lemma node_w_groups: "pp_our_groups (nd_pool (node_w ''personal'')) = [''g1'']"
proof -
  have d: "nd_db (node_w ''personal'') = seed_config_groups ''t0'' (config_w ''personal'') db_w"
    by (simp add: node_w_def start_node_def Let_def node_env_w_def)
  have "relay_posture_val (config_w ''personal'') = None"
    by (simp add: relay_posture_val_def config_role_def config_w_def role_from_str_def ascii_lower_def Let_def result_or_def)
  then have "pp_our_groups (nd_pool (node_w ''personal'')) = initial_groups (nd_db (node_w ''personal''))"
    by (simp add: d) (simp add: node_w_def start_node_def Let_def node_env_w_def start_pool_def new_pool_def)
  also have "\<dots> = [''g1'']"
    by (simp add: node_w_db initial_groups_def list_groups_def write_group_def db_w_def db_of_schema_def result_or_def
        row_of_group_def)
  finally show ?thesis .
qed


section \<open>Restarting\<close>

lemma seed_group_keeps:
  "db_fault (seed_group now d g') = db_fault d"
  "hm_get (groups_tab d) g \<noteq> None \<Longrightarrow> hm_get (groups_tab (seed_group now d g')) g \<noteq> None"
  by (auto simp: seed_group_def write_group_def exec_def hm_get_simps split: option.split)

lemma seed_groups_keeps:
  assumes "hm_get (groups_tab d) g \<noteq> None"
  shows "db_fault (foldl (seed_group now) d gs) = db_fault d \<and> hm_get (groups_tab (foldl (seed_group now) d gs)) g \<noteq> None"
  using assms
proof (induction gs arbitrary: d)
  case (Cons g' gs)
  then show ?case
    using Cons.IH [OF seed_group_keeps(2) [OF Cons.prems, of now g']] by (simp add: seed_group_keeps(1))
qed simp

lemma started_groups:
  assumes "hm_get (groups_tab d) g \<noteq> None" "db_fault d = (\<lambda>_. None)"
  shows "g \<in> set (pp_our_groups (nd_pool (start_node env dns now0 now db_now d)))"
proof -
  let ?d = "seed_config_groups db_now (ne_config env) d"
  have "db_fault ?d = (\<lambda>_. None)" "hm_get (groups_tab ?d) g \<noteq> None"
    using seed_groups_keeps [OF assms(1), of db_now "ns_groups (cfg_node (ne_config env))"] assms(2)
    by (simp_all add: seed_config_groups_def)
  moreover from this(2) obtain c where "(g, c) \<in> set (groups_tab ?d)"
    by (auto dest: map_of_SomeD)
  then have "g \<in> (\<lambda>(i, c). gr_id (row_of_group i c)) ` set (groups_tab ?d)"
    by (rule rev_image_eqI) (simp add: row_of_group_def)
  ultimately have "g \<in> set (initial_groups ?d)"
    by (simp add: initial_groups_def list_groups_def result_or_def image_image split_beta)
  then show ?thesis
    by (simp add: start_node_def Let_def start_pool_def new_pool_def new_relay_pool_def)
qed

text \<open>
  C38. A deleted group comes back with the next start. Deleting a group over the API removes it from
  the groups the node shares, but its row stays as a tombstone, and start-up shares every row of the
  table of groups, so the restarted node replicates the deleted group again.
\<close>

theorem restart_shares_deleted_group:
  assumes "api_turn env now t auth (GroupsDelete g) n = (n', (OK, body))" "db_fault (nd_db n) = (\<lambda>_. None)"
  shows "g \<notin> set (pp_our_groups (nd_pool n')) \<and>
    g \<in> set (pp_our_groups (nd_pool (start_node env dns now0 now1 db_now (nd_db n'))))"
proof -
  let ?r = "router (api_env_of env) now t (length (nd_bootstrap n) < BOOTSTRAP_CAPACITY) (api_view n) auth (GroupsDelete g)"
  obtain st outs where r: "?r = (st, outs, (OK, body))" "nd_db n' = as_db st" "nd_pool n' = as_pool st"
    using assms(1) by (cases ?r) (auto simp: api_turn_def publish_api_frame)
  have f: "db_fault (as_db (api_view n)) = (\<lambda>_. None)"
    using assms(2) by simp
  have "g \<notin> set (pp_our_groups (as_pool st))"
    using delete_accepted [OF r(1) f] by (simp add: api_env_of_def)
  moreover have "hm_get (groups_tab (as_db st)) g \<noteq> None" "db_fault (as_db st) = (\<lambda>_. None)"
    using deleted_group_row [OF r(1) f] by (metis hm_get_simps(1) option.distinct(1))+
  ultimately show ?thesis
    using r(2,3) started_groups by simp
qed

theorem restart_shares_deleted_group_witness:
  "\<exists>n'. api_turn (node_env_w ''personal'') ''t1'' 0 auth_w (GroupsDelete ''g1'') (node_w ''personal'') = (n', (OK, OkTrue)) \<and>
     pp_our_groups (nd_pool (node_w ''personal'')) = [''g1''] \<and> ''g1'' \<notin> set (pp_our_groups (nd_pool n')) \<and>
     ''g1'' \<in> set (pp_our_groups (nd_pool (start_node (node_env_w ''personal'') (\<lambda>_. None) 0 0 ''t2'' (nd_db n'))))"
proof -
  have f: "db_fault (nd_db (node_w ''personal'')) = (\<lambda>_. None)" "hm_get (groups_tab (nd_db (node_w ''personal''))) ''g1'' \<noteq> None"
    by (simp_all add: node_w_db write_group_def db_w_def db_of_schema_def)
  then obtain n' where r: "api_turn (node_env_w ''personal'') ''t1'' 0 auth_w (GroupsDelete ''g1'') (node_w ''personal'') = (n', (OK, OkTrue))"
    using authentic_node_w
    by (auto simp: api_turn_def router_def groups_delete_def authorised_iff api_env_w_of split_beta Let_def read_group_def
        write_group_def)
  show ?thesis
    using restart_shares_deleted_group [OF r f(1)] r node_w_groups by blast
qed

end
