(* ===== verification/Spec2Isabelle.thy ===== *)
theory Spec2Isabelle
  imports Node_Props
begin

text \<open>
  Cordelia is a peer-to-peer memory store. A node keeps memories and groups in an SQLite database,
  offers them to local clients over HTTP, and replicates the items of a group to the nodes that share
  it. This development models the Rust crates under \<^verbatim>\<open>src/crates\<close> as executable HOL functions and
  proves what they guarantee, and where they fall short of it.

  \<^bold>\<open>The program and its model.\<close> Each theory models one part, and a second theory with the suffix
  \<open>_Props\<close> holds its lemmas where they are many.

  \<^item> \<open>Cordelia_Prelude\<close>: machine integers as words, \<open>Result\<close> as a sum with \<open>Ok\<close> and \<open>Err\<close>, a
    \<open>HashMap\<close> or a table as an association list with distinct keys (\<open>hm_get\<close>, \<open>hm_insert\<close>,
    \<open>hm_remove\<close>, \<open>hm_wf\<close>), instants in nanoseconds, and the shared simplification rules.
  \<^item> \<open>Protocol\<close> (\<^verbatim>\<open>cordelia-protocol\<close>): the era constants, the wire messages, the checksum and the
    signed text of a group descriptor.
  \<^item> \<open>Config\<close> (\<^verbatim>\<open>cordelia-node/src/config.rs\<close>): roles, relay postures, the sections with their
    defaults and the targets that depend on the role.
  \<^item> \<open>Storage\<close>, \<open>Storage_Ops\<close>, \<open>Storage_Props\<close> (\<^verbatim>\<open>cordelia-storage\<close>): the tables with their
    constraints, migrations, every method of the storage; each statement may fail.
  \<^item> \<open>Replication\<close>, \<open>Replication_Props\<close> (\<^verbatim>\<open>cordelia-replication\<close>): cultures, checksums, the
    comparison of headers, \<open>on_local_write\<close> and \<open>on_receive\<close> over the storage methods it calls.
  \<^item> \<open>Governor\<close>, \<open>Governor_Props\<close> (\<^verbatim>\<open>cordelia-governor\<close>): the life cycle of peers, the seven phases
    of a tick, bans, backoffs and scores.
  \<^item> \<open>Peer_Pool\<close> (\<^verbatim>\<open>cordelia-node/src/peer_pool.rs\<close>): the connected peers and the shared groups.
  \<^item> \<open>Descriptors\<close>, \<open>Swarm\<close>, \<open>Swarm_Props\<close> (\<^verbatim>\<open>cordelia-node/src/swarm_task.rs\<close>): exchange of signed
    group descriptors, and the network task; one turn of its loop is \<open>swarm_step\<close>.
  \<^item> \<open>Replication_Task\<close>, \<open>Replication_Task_Props\<close> (\<^verbatim>\<open>cordelia-node/src/replication_task.rs\<close>):
    batches, pushes, retries, anti-entropy rounds and garbage collection; one turn is \<open>repl_step\<close>.
  \<^item> \<open>Governor_Task\<close>, \<open>Governor_Task_Props\<close> (\<^verbatim>\<open>cordelia-node/src/governor_task.rs\<close>): bootnodes,
    dialling, connections, group exchanges and discovery; one turn is \<open>gov_task_step\<close>.
  \<^item> \<open>Api\<close>, \<open>Api_Props\<close> (\<^verbatim>\<open>cordelia-api\<close>): the twenty-two routes behind \<open>router\<close>.
  \<^item> \<open>Crypto\<close> (\<^verbatim>\<open>cordelia-crypto\<close>): the encryption provider and the identity of a node.
  \<^item> \<open>Node\<close>, \<open>Node_Props\<close> (\<^verbatim>\<open>cordelia-node/src/main.rs\<close> and \<^verbatim>\<open>lib.rs\<close>): start-up, and the four tasks
    over the shared database, pool and counters, joined by their channels; \<open>node_step\<close> is one turn
    of one task and \<open>node_reach\<close> the states a node can reach.

  \<^bold>\<open>How the code is rendered.\<close> A struct is a record, an enum a datatype. State is passed
  explicitly and returned updated. An error is a value; an operation that could panic has \<open>None\<close> for
  it. A loop of a task is a step function over the events its \<open>select!\<close> can pick, folded over a list
  of events, so every theorem about a run holds for every order of events. Clock readings, random
  choices, request ids and the iteration order of a map are inputs of a step. The \<open>f64\<close> scores and
  rates are exact rationals. Timestamps are strings in the order of strings, as in the code.

  \<^bold>\<open>Parameters.\<close> SHA-256, hex, Ed25519, AES-GCM, scrypt, base64, JSON, the parsers of addresses and
  peer ids, DNS and the full-text index are functions of other crates. They are fields of records that
  the definitions take (\<open>crypto_lib\<close>, \<open>aead_lib\<close>, \<open>identity_lib\<close>, \<open>gov_env\<close>, \<open>api_env\<close>); a theorem that
  relies on one of them states the law it uses, and its witness instantiates it.

  \<^bold>\<open>What is shown.\<close>

  \<^item> Storage: every sequence of operations, with any failures, keeps the constraints and checksums
    of the tables; a revoked device stays revoked; a database the node creates lacks the table of devices.
  \<^item> Replication: \<open>on_receive\<close> refines a last-writer-wins map (locale \<open>item_replica\<close>, interpreted on
    the SQLite storage), so replicas converge; ties in time and tombstones are where they do not.
  \<^item> Governor: each phase meets the contract of the locale \<open>gov_phase\<close>, interpreted for every phase;
    from it follow bounds on the peer counts, who may be dialled, that bans hold and that silent peers
    are dropped.
  \<^item> Descriptors and network task: the owner of a signed group is protected, replies are delivered
    at most once, a push changes only accepted groups, repeated pushes die out; and the ways around
    these, which a missing key, a second hop or a tombstone opens.
  \<^item> Replication task: batches respect the message limit, the retry queue empties, an anti-entropy
    round with an honest peer leaves nothing newer behind, and its horizon when a group is large.
  \<^item> API: no effect without the token or on a failed request, writes read back, deleted groups
    disappear from every view.
  \<^item> Governor task: the pool follows the governor, dials are allowed by the policy or go to bootnodes,
    discovery is harmless.
  \<^item> Crypto: encryption round trip; the identity survives restarts.
  \<^item> Node: the invariants of all tasks together under every interleaving, the typing of what a node
    serves, a write over the API of one node arriving in the database of another, and the return of
    deleted groups at the next start.

  \<^bold>\<open>Bounds.\<close> All functions are total and no fuel is used. The broadcast channels hold 256 messages
  and drop the oldest, the bootstrap channel holds 32 groups, as in the code; the command channel,
  which blocks its sender when full, is unbounded in the model. Retries are indexed by an attempt
  that stays below four, the length of the table of delays, which is proved.

  \<^bold>\<open>Not modelled.\<close> Argument parsing and the client calls of the command line, the HTTP and Unix-socket
  listeners, the construction of the libp2p swarm, signal handling, shutdown and logging are calls of
  other crates with no logic of this program beyond their arguments. The exits of \<open>run_node\<close> on a
  failed start are left out: a run starts on an opened database. TOML parsing is left out: a
  configuration is a value. The forwarding methods of \<open>StorageClone\<close> are the storage itself. In
  \<^verbatim>\<open>cordelia-crypto\<close> the test for an encrypted JSON value, the generation of salts,
  \<open>node_id_from_pubkey\<close> and the accessors of the identity are left out. The spawned exchanges of the
  governor task wait without a time limit, so that a reply may arrive at any later turn.
\<close>

end
